(* ===== verification/Prelude.thy ===== *)
theory Prelude
  imports Main "HOL-Library.Word" "HOL-Library.Monad_Syntax"
begin

text \<open>
  What every component shares: the machine the C code is compiled for, and the lemmas
  about it. The Makefile of \<open>BinderServicemanager/c\<close> builds with
  \<open>arm-linux-gcc -DBINDER_IPC_32BIT=1\<close>, so \<open>size_t\<close>, pointers, \<open>binder_size_t\<close> and
  \<open>binder_uintptr_t\<close> are 32 bits wide, little endian, and \<open>char\<close> is unsigned. Memory is a
  total map from 32-bit addresses to bytes; a C object is a range of addresses. Every
  store goes through \<open>store_bytes\<close>, so one characterisation and one frame lemma carry
  all memory reasoning.
\<close>

unbundle bit_operations_syntax

subsection \<open>Types and collections\<close>

type_synonym byte = "8 word"
type_synonym u16 = "16 word"
type_synonym u32 = "32 word"
type_synonym addr = "32 word"
type_synonym mem = "addr \<Rightarrow> byte"

text \<open>The null pointer.\<close>
abbreviation (input) NULL :: addr where "NULL \<equiv> 0"

text \<open>Facts that evaluate loads of freshly stored values, and facts about addresses.\<close>
named_theorems mem_simps
named_theorems addr_simps

subsection \<open>Little-endian encoding of 16-bit and 32-bit integers\<close>

definition le16 :: "u16 \<Rightarrow> byte list" where
  "le16 v = [ucast v, ucast (drop_bit 8 v)]"

definition un16 :: "byte \<Rightarrow> byte \<Rightarrow> u16" where
  "un16 b0 b1 = ucast b0 OR push_bit 8 (ucast b1)"

definition le32 :: "u32 \<Rightarrow> byte list" where
  "le32 v = [ucast v, ucast (drop_bit 8 v), ucast (drop_bit 16 v), ucast (drop_bit 24 v)]"

definition un32 :: "byte \<Rightarrow> byte \<Rightarrow> byte \<Rightarrow> byte \<Rightarrow> u32" where
  "un32 b0 b1 b2 b3 =
     ucast b0 OR push_bit 8 (ucast b1) OR push_bit 16 (ucast b2) OR push_bit 24 (ucast b3)"

lemma length_le16 [simp]: "length (le16 v) = 2"
  by (simp add: le16_def)

lemma length_le32 [simp]: "length (le32 v) = 4"
  by (simp add: le32_def)

lemma bit_byte_ge: "8 \<le> n \<Longrightarrow> \<not> bit (b :: byte) n"
  using bit_imp_le_length [of b n] by auto

lemma un16_le16: "un16 (ucast v) (ucast (drop_bit 8 v)) = v"
  unfolding un16_def
proof (rule bit_word_eqI)
  fix n
  assume "n < LENGTH(16)"
  then consider "n < 8" | "8 \<le> n" "n < 16" by fastforce
  then show "bit (ucast (ucast v :: byte) OR
      push_bit 8 (ucast (ucast (drop_bit 8 v) :: byte)) :: u16) n = bit v n"
    by cases (auto simp: bit_simps)
qed

lemma un32_le32:
  "un32 (ucast v) (ucast (drop_bit 8 v)) (ucast (drop_bit 16 v)) (ucast (drop_bit 24 v)) = v"
  unfolding un32_def
proof (rule bit_word_eqI)
  fix n
  assume "n < LENGTH(32)"
  then consider "n < 8" | "8 \<le> n" "n < 16" | "16 \<le> n" "n < 24" | "24 \<le> n" "n < 32"
    by fastforce
  then show "bit (ucast (ucast v :: byte) OR
      push_bit 8 (ucast (ucast (drop_bit 8 v) :: byte)) OR
      push_bit 16 (ucast (ucast (drop_bit 16 v) :: byte)) OR
      push_bit 24 (ucast (ucast (drop_bit 24 v) :: byte)) :: u32) n = bit v n"
    by cases (auto simp: bit_simps)
qed

lemma le32_un32: "le32 (un32 a b c d) = [a, b, c, d]"
  unfolding un32_def le32_def
  by (auto intro!: bit_word_eqI simp: bit_simps bit_byte_ge)

lemma le16_un16: "le16 (un16 a b) = [a, b]"
  unfolding un16_def le16_def
  by (auto intro!: bit_word_eqI simp: bit_simps bit_byte_ge)

subsection \<open>Loads and stores\<close>

primrec store_bytes :: "mem \<Rightarrow> addr \<Rightarrow> byte list \<Rightarrow> mem" where
  "store_bytes m a [] = m"
| "store_bytes m a (b # bs) = store_bytes (m(a := b)) (a + 1) bs"

primrec load_bytes :: "mem \<Rightarrow> addr \<Rightarrow> nat \<Rightarrow> byte list" where
  "load_bytes m a 0 = []"
| "load_bytes m a (Suc n) = m a # load_bytes m (a + 1) n"

definition load16 :: "mem \<Rightarrow> addr \<Rightarrow> u16" where
  "load16 m a = un16 (m a) (m (a + 1))"

definition load32 :: "mem \<Rightarrow> addr \<Rightarrow> u32" where
  "load32 m a = un32 (m a) (m (a + 1)) (m (a + 2)) (m (a + 3))"

definition store16 :: "mem \<Rightarrow> addr \<Rightarrow> u16 \<Rightarrow> mem" where
  "store16 m a v = store_bytes m a (le16 v)"

definition store32 :: "mem \<Rightarrow> addr \<Rightarrow> u32 \<Rightarrow> mem" where
  "store32 m a v = store_bytes m a (le32 v)"

text \<open>An array of \<open>uint16_t\<close>.\<close>

primrec load_u16s :: "mem \<Rightarrow> addr \<Rightarrow> nat \<Rightarrow> u16 list" where
  "load_u16s m a 0 = []"
| "load_u16s m a (Suc n) = load16 m a # load_u16s m (a + 2) n"

lemma length_load_bytes [simp]: "length (load_bytes m a n) = n"
  by (induction n arbitrary: a) auto

lemma length_load_u16s [simp]: "length (load_u16s m a n) = n"
  by (induction n arbitrary: a) auto

lemma nth_load_bytes: "i < n \<Longrightarrow> load_bytes m a n ! i = m (a + of_nat i)"
proof (induction n arbitrary: a i)
  case (Suc n)
  then show ?case by (cases i) (auto simp: algebra_simps)
qed simp

lemma nth_load_u16s: "i < n \<Longrightarrow> load_u16s m a n ! i = load16 m (a + 2 * of_nat i)"
proof (induction n arbitrary: a i)
  case (Suc n)
  then show ?case by (cases i) (auto simp: algebra_simps)
qed simp

subsection \<open>Address arithmetic\<close>

lemma unat_addr_less: "unat (x :: addr) < 4294967296"
  using unsigned_less [of x, where 'a = nat] by simp

lemma unat_add_nowrap:
  "unat (a :: addr) + unat b < 4294967296 \<Longrightarrow> unat (a + b) = unat a + unat b"
  by (simp add: unat_word_ariths)

lemma unat_of_nat_small: "n < 4294967296 \<Longrightarrow> unat (of_nat n :: addr) = n"
  by (simp add: unat_of_nat take_bit_eq_mod)

lemma unat_add_of_nat:
  "unat (a :: addr) + n < 4294967296 \<Longrightarrow> unat (a + of_nat n) = unat a + n"
  by (simp add: unat_add_nowrap unat_of_nat_small)

lemma unat_diff:
  "unat (x - a :: addr) =
     (if unat a \<le> unat x then unat x - unat a else 4294967296 + unat x - unat a)"
proof (cases "unat a \<le> unat x")
  case True
  then show ?thesis by (simp add: unat_sub_if_size)
next
  case False
  have "unat x + 4294967296 - unat a = 4294967296 + unat x - unat a" by simp
  with False show ?thesis by (simp add: unat_sub_if_size word_size)
qed

lemma addr_eqI: "unat (x :: addr) = unat y \<Longrightarrow> x = y"
  by (rule unsigned_word_eqI)

text \<open>An object of \<open>n\<close> bytes at \<open>a\<close>: a range of addresses that does not wrap.\<close>

definition region :: "addr \<Rightarrow> nat \<Rightarrow> addr set" where
  "region a n = {x. unat a \<le> unat x \<and> unat x < unat a + n}"

definition no_wrap :: "addr \<Rightarrow> nat \<Rightarrow> bool" where
  "no_wrap a n \<longleftrightarrow> unat a + n \<le> 4294967296"

lemma in_region: "x \<in> region a n \<longleftrightarrow> unat a \<le> unat x \<and> unat x < unat a + n"
  by (simp add: region_def)

lemma region_disjointI: "unat a + n \<le> unat b \<Longrightarrow> region a n \<inter> region b k = {}"
  by (auto simp: region_def)

lemma region_0 [simp]: "region a 0 = {}"
  by (auto simp: region_def)

lemma region_sub:
  "unat a \<le> unat b \<Longrightarrow> unat b + k \<le> unat a + n \<Longrightarrow> region b k \<subseteq> region a n"
  by (auto simp: region_def)

lemma no_wrap_mono: "no_wrap a n \<Longrightarrow> k \<le> n \<Longrightarrow> no_wrap a k"
  by (simp add: no_wrap_def)

subsection \<open>What a store changes\<close>

lemma store_bytes_apply:
  "no_wrap a (length bs) \<Longrightarrow>
     store_bytes m a bs x =
       (if x \<in> region a (length bs) then bs ! (unat x - unat a) else m x)"
proof (induction bs arbitrary: m a)
  case Nil
  then show ?case by simp
next
  case (Cons b bs)
  show ?case
  proof (cases "bs = []")
    case True
    have "x \<in> region a 1 \<longleftrightarrow> x = a"
      by (auto simp: in_region intro: addr_eqI)
    with True show ?thesis by simp
  next
    case False
    with Cons.prems have a1: "unat (a + 1) = unat a + 1"
      by (cases bs) (auto simp: no_wrap_def unat_add_nowrap)
    with Cons.prems have "no_wrap (a + 1) (length bs)"
      by (simp add: no_wrap_def)
    note IH = Cons.IH [OF this, of "m(a := b)"]
    show ?thesis
    proof (cases "x = a")
      case True
      with a1 show ?thesis by (simp add: IH [unfolded True] in_region)
    next
      case False
      then have "unat x \<noteq> unat a" by (auto dest: addr_eqI)
      with False a1 show ?thesis by (auto simp: IH in_region nth_Cons')
    qed
  qed
qed

lemma store_bytes_frame:
  "no_wrap a (length bs) \<Longrightarrow> x \<notin> region a (length bs) \<Longrightarrow> store_bytes m a bs x = m x"
  by (simp add: store_bytes_apply)

lemma load_bytes_store_same:
  assumes "no_wrap a (length bs)"
  shows "load_bytes (store_bytes m a bs) a (length bs) = bs"
proof (rule nth_equalityI)
  fix i
  assume "i < length (load_bytes (store_bytes m a bs) a (length bs))"
  then have i: "i < length bs" by simp
  with assms have "unat (a + of_nat i) = unat a + i"
    by (simp add: no_wrap_def unat_add_of_nat)
  with i assms show "load_bytes (store_bytes m a bs) a (length bs) ! i = bs ! i"
    by (simp add: nth_load_bytes store_bytes_apply in_region)
qed simp

lemma load32_store32_same [simp, mem_simps]: "load32 (store32 m a v) a = v"
  by (simp add: load32_def store32_def le32_def un32_le32)

lemma load16_store16_same [simp, mem_simps]: "load16 (store16 m a v) a = v"
  by (simp add: load16_def store16_def le16_def un16_le16)

text \<open>Two memories that agree on a set of addresses.\<close>

definition agree_on :: "addr set \<Rightarrow> mem \<Rightarrow> mem \<Rightarrow> bool" where
  "agree_on A m m' \<longleftrightarrow> (\<forall>x\<in>A. m' x = m x)"

lemma agree_on_refl [simp, intro]: "agree_on A m m"
  by (simp add: agree_on_def)

lemma agree_on_trans [trans]: "agree_on A m m' \<Longrightarrow> agree_on A m' m'' \<Longrightarrow> agree_on A m m''"
  by (simp add: agree_on_def)

lemma agree_on_mono: "agree_on A m m' \<Longrightarrow> B \<subseteq> A \<Longrightarrow> agree_on B m m'"
  by (auto simp: agree_on_def)

lemma agree_on_store_bytes:
  "no_wrap a (length bs) \<Longrightarrow> A \<inter> region a (length bs) = {} \<Longrightarrow>
     agree_on A m (store_bytes m a bs)"
  by (auto simp: agree_on_def store_bytes_apply)

lemma agree_on_store32:
  "no_wrap a 4 \<Longrightarrow> A \<inter> region a 4 = {} \<Longrightarrow> agree_on A m (store32 m a v)"
  unfolding store32_def by (rule agree_on_store_bytes) simp_all

lemma agree_on_store16:
  "no_wrap a 2 \<Longrightarrow> A \<inter> region a 2 = {} \<Longrightarrow> agree_on A m (store16 m a v)"
  unfolding store16_def by (rule agree_on_store_bytes) simp_all

text \<open>A load depends on its own bytes only.\<close>

lemma offset_in_region:
  "no_wrap a n \<Longrightarrow> i < n \<Longrightarrow> a + of_nat i \<in> region a n"
  by (simp add: no_wrap_def in_region unat_add_of_nat)

lemma agree_on_at:
  "agree_on A m m' \<Longrightarrow> region a n \<subseteq> A \<Longrightarrow> no_wrap a n \<Longrightarrow> i < n \<Longrightarrow>
     m' (a + of_nat i) = m (a + of_nat i)"
  using offset_in_region [of a n i] by (auto simp: agree_on_def)

lemma load32_agree:
  assumes "agree_on A m m'" and "region a 4 \<subseteq> A" and "no_wrap a 4"
  shows "load32 m' a = load32 m a"
  using agree_on_at [OF assms, of 0] agree_on_at [OF assms, of 1]
    agree_on_at [OF assms, of 2] agree_on_at [OF assms, of 3]
  by (simp add: load32_def)

lemma load16_agree:
  assumes "agree_on A m m'" and "region a 2 \<subseteq> A" and "no_wrap a 2"
  shows "load16 m' a = load16 m a"
  using agree_on_at [OF assms, of 0] agree_on_at [OF assms, of 1]
  by (simp add: load16_def)

lemma load_bytes_agree:
  assumes "agree_on A m m'" and "region a n \<subseteq> A" and "no_wrap a n"
  shows "load_bytes m' a n = load_bytes m a n"
  by (rule nth_equalityI) (simp_all add: nth_load_bytes agree_on_at [OF assms])

lemma load_u16s_agree:
  assumes "agree_on A m m'" and "region a (2 * n) \<subseteq> A" and "no_wrap a (2 * n)"
  shows "load_u16s m' a n = load_u16s m a n"
proof (rule nth_equalityI)
  fix i
  assume "i < length (load_u16s m' a n)"
  then have i: "2 * i < 2 * n" by simp
  have un: "unat (a + 2 * of_nat i) = unat a + 2 * i"
    using assms(3) i unat_add_of_nat [of a "2 * i"] by (simp add: no_wrap_def)
  from i have "region (a + 2 * of_nat i) 2 \<subseteq> region a (2 * n)"
    by (intro region_sub) (simp_all add: un)
  with assms(2) have "region (a + 2 * of_nat i) 2 \<subseteq> A" by blast
  moreover have "no_wrap (a + 2 * of_nat i) 2"
    using assms(3) i by (simp add: no_wrap_def un)
  ultimately show "load_u16s m' a n ! i = load_u16s m a n ! i"
    using i assms(1) by (simp add: nth_load_u16s load16_agree)
qed simp

lemma load32_store32_other:
  "no_wrap a 4 \<Longrightarrow> no_wrap b 4 \<Longrightarrow> region b 4 \<inter> region a 4 = {} \<Longrightarrow>
     load32 (store32 m a v) b = load32 m b"
  by (rule load32_agree [OF agree_on_store32]) auto

lemma store_bytes_append:
  "store_bytes m a (xs @ ys) = store_bytes (store_bytes m a xs) (a + of_nat (length xs)) ys"
  by (induction xs arbitrary: m a) (simp_all add: add.assoc)

lemma load_bytes_add:
  "load_bytes m a (n + k) = load_bytes m a n @ load_bytes m (a + of_nat n) k"
  by (induction n arbitrary: a) (simp_all add: add.assoc)

subsection \<open>Zero-terminated strings in memory\<close>

definition cstr :: "mem \<Rightarrow> addr \<Rightarrow> byte list \<Rightarrow> bool" where
  "cstr m a s \<longleftrightarrow> 0 \<notin> set s \<and> load_bytes m a (Suc (length s)) = s @ [0]"

definition cstr16 :: "mem \<Rightarrow> addr \<Rightarrow> u16 list \<Rightarrow> bool" where
  "cstr16 m a s \<longleftrightarrow> 0 \<notin> set s \<and> load_u16s m a (Suc (length s)) = s @ [0]"

lemma cstr_Nil [simp]: "cstr m a [] \<longleftrightarrow> m a = 0"
  by (simp add: cstr_def)

lemma cstr_Cons [simp]: "cstr m a (c # s) \<longleftrightarrow> m a = c \<and> c \<noteq> 0 \<and> cstr m (a + 1) s"
  by (auto simp: cstr_def)

lemma cstr16_Nil [simp]: "cstr16 m a [] \<longleftrightarrow> load16 m a = 0"
  by (simp add: cstr16_def)

lemma cstr16_Cons [simp]:
  "cstr16 m a (c # s) \<longleftrightarrow> load16 m a = c \<and> c \<noteq> 0 \<and> cstr16 m (a + 2) s"
  by (auto simp: cstr16_def)

lemma cstr_agree:
  "agree_on A m m' \<Longrightarrow> region a (Suc (length s)) \<subseteq> A \<Longrightarrow> no_wrap a (Suc (length s)) \<Longrightarrow>
     cstr m a s \<Longrightarrow> cstr m' a s"
  unfolding cstr_def using load_bytes_agree [of A m m' a "Suc (length s)"] by simp

lemma cstr16_agree:
  "agree_on A m m' \<Longrightarrow> region a (2 * Suc (length s)) \<subseteq> A \<Longrightarrow> no_wrap a (2 * Suc (length s)) \<Longrightarrow>
     cstr16 m a s \<Longrightarrow> cstr16 m' a s"
  unfolding cstr16_def using load_u16s_agree [of A m m' a "Suc (length s)"] by simp

text \<open>A string outside the addresses that may change.\<close>

lemma cstr_outside:
  "agree_on (- F) m m' \<Longrightarrow> region a (Suc (length s)) \<inter> F = {} \<Longrightarrow>
     no_wrap a (Suc (length s)) \<Longrightarrow> cstr m a s \<Longrightarrow> cstr m' a s"
  by (rule cstr_agree [of "- F" m]) auto

lemma cstr16_outside:
  "agree_on (- F) m m' \<Longrightarrow> region a (2 * Suc (length s)) \<inter> F = {} \<Longrightarrow>
     no_wrap a (2 * Suc (length s)) \<Longrightarrow> cstr16 m a s \<Longrightarrow> cstr16 m' a s"
  by (rule cstr16_agree [of "- F" m]) auto

subsection \<open>Running a list of state transformers that may not return\<close>

primrec run_all :: "('v \<Rightarrow> 's \<Rightarrow> 's option) \<Rightarrow> 'v list \<Rightarrow> 's \<Rightarrow> 's option" where
  "run_all f [] s = Some s"
| "run_all f (v # vs) s = f v s \<bind> run_all f vs"

lemma run_all_append: "run_all f (xs @ ys) s = run_all f xs s \<bind> run_all f ys"
  by (induction xs arbitrary: s) (auto split: Option.bind_splits)

end
