(* ===== verification/Binder_Proto.thy ===== *)
theory Binder_Proto
  imports Prelude
begin

text \<open>
  The kernel interface of \<open>include/linux/binder.h\<close> and the constants of \<open>binder.h\<close>: the
  command and return codes, the object types, and the memory layout of the structures
  that cross the interface, for the 32-bit binder ABI (\<open>BINDER_IPC_32BIT\<close>). A structure
  is a \<open>record\<close> of 32-bit fields; \<open>encode_\<dots>\<close> is its bytes and \<open>load_\<dots>\<close> reads it from
  memory at its C offsets.
\<close>

named_theorems proto_values

subsection \<open>ioctl request codes\<close>

text \<open>
  The C platform's encoding of request codes (\<open>_IO\<close>, \<open>_IOR\<close>, \<open>_IOW\<close>, \<open>_IOWR\<close> of
  \<open><sys/ioctl.h>\<close>): direction in bits 30-31, argument size in bits 16-29, type character in
  bits 8-15, number in bits 0-7.
\<close>

definition ioc :: "u32 \<Rightarrow> char \<Rightarrow> u32 \<Rightarrow> u32 \<Rightarrow> u32" where
  "ioc dir ty nr sz = push_bit 30 dir OR push_bit 16 sz OR push_bit 8 (of_char ty) OR nr"

definition io :: "char \<Rightarrow> u32 \<Rightarrow> u32" where "io ty nr = ioc 0 ty nr 0"
definition iow :: "char \<Rightarrow> u32 \<Rightarrow> u32 \<Rightarrow> u32" where "iow ty nr sz = ioc 1 ty nr sz"
definition ior :: "char \<Rightarrow> u32 \<Rightarrow> u32 \<Rightarrow> u32" where "ior ty nr sz = ioc 2 ty nr sz"
definition iowr :: "char \<Rightarrow> u32 \<Rightarrow> u32 \<Rightarrow> u32" where "iowr ty nr sz = ioc 3 ty nr sz"

lemmas ioc_defs = ioc_def io_def iow_def ior_def iowr_def

subsection \<open>Structures\<close>

text \<open>\<open>struct flat_binder_object\<close>; the union of \<open>binder\<close> and \<open>handle\<close> is one 32-bit field.\<close>

record flat_binder_object =
  fbo_type :: u32
  fbo_flags :: u32
  fbo_handle :: u32
  fbo_cookie :: u32

definition sizeof_flat_binder_object :: u32 where
  "sizeof_flat_binder_object = 16"

definition load_obj :: "mem \<Rightarrow> addr \<Rightarrow> flat_binder_object" where
  "load_obj m a = \<lparr>fbo_type = load32 m a, fbo_flags = load32 m (a + 4),
     fbo_handle = load32 m (a + 8), fbo_cookie = load32 m (a + 12)\<rparr>"

definition encode_obj :: "flat_binder_object \<Rightarrow> byte list" where
  "encode_obj ob =
     le32 (fbo_type ob) @ le32 (fbo_flags ob) @ le32 (fbo_handle ob) @ le32 (fbo_cookie ob)"

text \<open>
  \<open>struct binder_transaction_data\<close>: \<open>target\<close> is the union of \<open>handle\<close> and \<open>ptr\<close>, and
  \<open>data.ptr\<close> is the pair of \<open>buffer\<close> and \<open>offsets\<close> (\<open>data.buf\<close> is never used).
\<close>

record binder_transaction_data =
  txn_target :: u32
  txn_cookie :: u32
  txn_code :: u32
  txn_flags :: u32
  txn_sender_pid :: u32
  txn_sender_euid :: u32
  txn_data_size :: u32
  txn_offsets_size :: u32
  txn_buffer :: u32
  txn_offsets :: u32

definition sizeof_binder_transaction_data :: u32 where
  "sizeof_binder_transaction_data = 40"

definition load_txn :: "mem \<Rightarrow> addr \<Rightarrow> binder_transaction_data" where
  "load_txn m a = \<lparr>txn_target = load32 m a, txn_cookie = load32 m (a + 4),
     txn_code = load32 m (a + 8), txn_flags = load32 m (a + 12),
     txn_sender_pid = load32 m (a + 16), txn_sender_euid = load32 m (a + 20),
     txn_data_size = load32 m (a + 24), txn_offsets_size = load32 m (a + 28),
     txn_buffer = load32 m (a + 32), txn_offsets = load32 m (a + 36)\<rparr>"

definition encode_txn :: "binder_transaction_data \<Rightarrow> byte list" where
  "encode_txn t =
     le32 (txn_target t) @ le32 (txn_cookie t) @ le32 (txn_code t) @ le32 (txn_flags t) @
     le32 (txn_sender_pid t) @ le32 (txn_sender_euid t) @ le32 (txn_data_size t) @
     le32 (txn_offsets_size t) @ le32 (txn_buffer t) @ le32 (txn_offsets t)"

text \<open>\<open>struct binder_ptr_cookie\<close> and the packed \<open>struct binder_handle_cookie\<close>: 8 bytes each.\<close>

definition sizeof_binder_ptr_cookie :: u32 where
  "sizeof_binder_ptr_cookie = 8"

record binder_handle_cookie =
  hc_handle :: u32
  hc_cookie :: u32

definition encode_handle_cookie :: "binder_handle_cookie \<Rightarrow> byte list" where
  "encode_handle_cookie h = le32 (hc_handle h) @ le32 (hc_cookie h)"

text \<open>\<open>struct binder_pri_desc\<close> and \<open>struct binder_pri_ptr_cookie\<close>, the payloads of commands these
  programs do not use.\<close>

record binder_pri_desc =
  pd_priority :: u32
  pd_desc :: u32

record binder_pri_ptr_cookie =
  ppc_priority :: u32
  ppc_ptr :: u32
  ppc_cookie :: u32

definition encode_pri_desc :: "binder_pri_desc \<Rightarrow> byte list" where
  "encode_pri_desc d = le32 (pd_priority d) @ le32 (pd_desc d)"

definition encode_pri_ptr_cookie :: "binder_pri_ptr_cookie \<Rightarrow> byte list" where
  "encode_pri_ptr_cookie d = le32 (ppc_priority d) @ le32 (ppc_ptr d) @ le32 (ppc_cookie d)"

text \<open>
  \<open>struct binder_write_read\<close>, the argument of the \<open>BINDER_WRITE_READ\<close> ioctl. The bytes
  behind \<open>write_buffer\<close> are kept with it, since the packed structures the callers send are
  locals that nothing else can reach.
\<close>

record binder_write_read =
  write_size :: u32
  write_consumed :: u32
  write_buffer :: "byte list"
  read_size :: u32
  read_consumed :: u32
  read_buffer :: addr

definition BINDER_CURRENT_PROTOCOL_VERSION :: u32 where
  "BINDER_CURRENT_PROTOCOL_VERSION = 7"

subsection \<open>Object types and flags\<close>

definition B_PACK_CHARS :: "u32 \<Rightarrow> u32 \<Rightarrow> u32 \<Rightarrow> u32 \<Rightarrow> u32" where
  "B_PACK_CHARS c1 c2 c3 c4 = push_bit 24 c1 OR push_bit 16 c2 OR push_bit 8 c3 OR c4"

definition B_TYPE_LARGE :: u32 where
  "B_TYPE_LARGE = 0x85"

definition BINDER_TYPE_BINDER :: u32 where
  "BINDER_TYPE_BINDER =
     B_PACK_CHARS (of_char CHR ''s'') (of_char CHR ''b'') (of_char CHR ''*'') B_TYPE_LARGE"

definition BINDER_TYPE_HANDLE :: u32 where
  "BINDER_TYPE_HANDLE =
     B_PACK_CHARS (of_char CHR ''s'') (of_char CHR ''h'') (of_char CHR ''*'') B_TYPE_LARGE"

definition BINDER_TYPE_WEAK_BINDER :: u32 where
  "BINDER_TYPE_WEAK_BINDER =
     B_PACK_CHARS (of_char CHR ''w'') (of_char CHR ''b'') (of_char CHR ''*'') B_TYPE_LARGE"

definition BINDER_TYPE_WEAK_HANDLE :: u32 where
  "BINDER_TYPE_WEAK_HANDLE =
     B_PACK_CHARS (of_char CHR ''w'') (of_char CHR ''h'') (of_char CHR ''*'') B_TYPE_LARGE"

definition BINDER_TYPE_FD :: u32 where
  "BINDER_TYPE_FD =
     B_PACK_CHARS (of_char CHR ''f'') (of_char CHR ''d'') (of_char CHR ''*'') B_TYPE_LARGE"

definition FLAT_BINDER_FLAG_PRIORITY_MASK :: u32 where
  "FLAT_BINDER_FLAG_PRIORITY_MASK = 0xff"

definition FLAT_BINDER_FLAG_ACCEPTS_FDS :: u32 where
  "FLAT_BINDER_FLAG_ACCEPTS_FDS = 0x100"

definition TF_ONE_WAY :: u32 where
  "TF_ONE_WAY = 0x01"
definition TF_ROOT_OBJECT :: u32 where
  "TF_ROOT_OBJECT = 0x04"
definition TF_STATUS_CODE :: u32 where
  "TF_STATUS_CODE = 0x08"
definition TF_ACCEPT_FDS :: u32 where
  "TF_ACCEPT_FDS = 0x10"

subsection \<open>Requests to the driver\<close>

text \<open>The codes of the \<open>ioctl\<close> calls; \<^theory_text>\<open>request\<close> has a constructor for each that is used. The
  six fields of \<open>binder_write_read\<close> take 24 bytes.\<close>

definition BINDER_WRITE_READ :: u32 where "BINDER_WRITE_READ = iowr CHR ''b'' 1 24"
definition BINDER_SET_IDLE_TIMEOUT :: u32 where "BINDER_SET_IDLE_TIMEOUT = iow CHR ''b'' 3 8"
definition BINDER_SET_MAX_THREADS :: u32 where "BINDER_SET_MAX_THREADS = iow CHR ''b'' 5 4"
definition BINDER_SET_IDLE_PRIORITY :: u32 where "BINDER_SET_IDLE_PRIORITY = iow CHR ''b'' 6 4"
definition BINDER_SET_CONTEXT_MGR :: u32 where "BINDER_SET_CONTEXT_MGR = iow CHR ''b'' 7 4"
definition BINDER_THREAD_EXIT :: u32 where "BINDER_THREAD_EXIT = iow CHR ''b'' 8 4"
definition BINDER_VERSION :: u32 where "BINDER_VERSION = iowr CHR ''b'' 9 4"

subsection \<open>Driver return codes\<close>

definition BR_TRANSACTION :: u32 where
  "BR_TRANSACTION = ior CHR ''r'' 2 sizeof_binder_transaction_data"
definition BR_REPLY :: u32 where
  "BR_REPLY = ior CHR ''r'' 3 sizeof_binder_transaction_data"
definition BR_DEAD_REPLY :: u32 where "BR_DEAD_REPLY = io CHR ''r'' 5"
definition BR_TRANSACTION_COMPLETE :: u32 where "BR_TRANSACTION_COMPLETE = io CHR ''r'' 6"
definition BR_INCREFS :: u32 where "BR_INCREFS = ior CHR ''r'' 7 sizeof_binder_ptr_cookie"
definition BR_ACQUIRE :: u32 where "BR_ACQUIRE = ior CHR ''r'' 8 sizeof_binder_ptr_cookie"
definition BR_RELEASE :: u32 where "BR_RELEASE = ior CHR ''r'' 9 sizeof_binder_ptr_cookie"
definition BR_DECREFS :: u32 where "BR_DECREFS = ior CHR ''r'' 10 sizeof_binder_ptr_cookie"
definition BR_NOOP :: u32 where "BR_NOOP = io CHR ''r'' 12"
definition BR_SPAWN_LOOPER :: u32 where "BR_SPAWN_LOOPER = io CHR ''r'' 13"
definition BR_DEAD_BINDER :: u32 where "BR_DEAD_BINDER = ior CHR ''r'' 15 4"
definition BR_FAILED_REPLY :: u32 where "BR_FAILED_REPLY = io CHR ''r'' 17"

text \<open>The codes \<open>binder_parse\<close> does not know.\<close>

definition BR_ERROR :: u32 where "BR_ERROR = ior CHR ''r'' 0 4"
definition BR_OK :: u32 where "BR_OK = io CHR ''r'' 1"
definition BR_ACQUIRE_RESULT :: u32 where "BR_ACQUIRE_RESULT = ior CHR ''r'' 4 4"
definition BR_ATTEMPT_ACQUIRE :: u32 where "BR_ATTEMPT_ACQUIRE = ior CHR ''r'' 11 12"
definition BR_FINISHED :: u32 where "BR_FINISHED = io CHR ''r'' 14"
definition BR_CLEAR_DEATH_NOTIFICATION_DONE :: u32 where
  "BR_CLEAR_DEATH_NOTIFICATION_DONE = ior CHR ''r'' 16 4"

subsection \<open>Driver command codes\<close>

definition BC_TRANSACTION :: u32 where
  "BC_TRANSACTION = iow CHR ''c'' 0 sizeof_binder_transaction_data"
definition BC_REPLY :: u32 where
  "BC_REPLY = iow CHR ''c'' 1 sizeof_binder_transaction_data"
definition BC_FREE_BUFFER :: u32 where "BC_FREE_BUFFER = iow CHR ''c'' 3 4"
definition BC_ACQUIRE :: u32 where "BC_ACQUIRE = iow CHR ''c'' 5 4"
definition BC_RELEASE :: u32 where "BC_RELEASE = iow CHR ''c'' 6 4"
definition BC_REGISTER_LOOPER :: u32 where "BC_REGISTER_LOOPER = io CHR ''c'' 11"
definition BC_ENTER_LOOPER :: u32 where "BC_ENTER_LOOPER = io CHR ''c'' 12"
definition BC_REQUEST_DEATH_NOTIFICATION :: u32 where
  "BC_REQUEST_DEATH_NOTIFICATION = iow CHR ''c'' 14 8"

text \<open>The commands these programs never send.\<close>

definition BC_ACQUIRE_RESULT :: u32 where "BC_ACQUIRE_RESULT = iow CHR ''c'' 2 4"
definition BC_INCREFS :: u32 where "BC_INCREFS = iow CHR ''c'' 4 4"
definition BC_DECREFS :: u32 where "BC_DECREFS = iow CHR ''c'' 7 4"
definition BC_INCREFS_DONE :: u32 where "BC_INCREFS_DONE = iow CHR ''c'' 8 sizeof_binder_ptr_cookie"
definition BC_ACQUIRE_DONE :: u32 where "BC_ACQUIRE_DONE = iow CHR ''c'' 9 sizeof_binder_ptr_cookie"
definition BC_ATTEMPT_ACQUIRE :: u32 where "BC_ATTEMPT_ACQUIRE = iow CHR ''c'' 10 8"
definition BC_EXIT_LOOPER :: u32 where "BC_EXIT_LOOPER = io CHR ''c'' 13"
definition BC_CLEAR_DEATH_NOTIFICATION :: u32 where
  "BC_CLEAR_DEATH_NOTIFICATION = iow CHR ''c'' 15 8"
definition BC_DEAD_BINDER_DONE :: u32 where "BC_DEAD_BINDER_DONE = iow CHR ''c'' 16 4"

text \<open>The two enumerations as a whole, in the order of the header.\<close>

definition binder_driver_return_protocol :: "u32 list" where
  "binder_driver_return_protocol =
     [BR_ERROR, BR_OK, BR_TRANSACTION, BR_REPLY, BR_ACQUIRE_RESULT, BR_DEAD_REPLY,
      BR_TRANSACTION_COMPLETE, BR_INCREFS, BR_ACQUIRE, BR_RELEASE, BR_DECREFS, BR_ATTEMPT_ACQUIRE,
      BR_NOOP, BR_SPAWN_LOOPER, BR_FINISHED, BR_DEAD_BINDER, BR_CLEAR_DEATH_NOTIFICATION_DONE,
      BR_FAILED_REPLY]"

definition binder_driver_command_protocol :: "u32 list" where
  "binder_driver_command_protocol =
     [BC_TRANSACTION, BC_REPLY, BC_ACQUIRE_RESULT, BC_FREE_BUFFER, BC_INCREFS, BC_ACQUIRE, BC_RELEASE,
      BC_DECREFS, BC_INCREFS_DONE, BC_ACQUIRE_DONE, BC_ATTEMPT_ACQUIRE, BC_REGISTER_LOOPER,
      BC_ENTER_LOOPER, BC_EXIT_LOOPER, BC_REQUEST_DEATH_NOTIFICATION, BC_CLEAR_DEATH_NOTIFICATION,
      BC_DEAD_BINDER_DONE]"

text \<open>\<open>_IOC_SIZE\<close> of the C platform: the argument size a code carries.\<close>

definition ioc_size :: "u32 \<Rightarrow> u32" where
  "ioc_size cmd = drop_bit 16 cmd AND 0x3FFF"

lemmas proto_defs = B_PACK_CHARS_def B_TYPE_LARGE_def BINDER_TYPE_BINDER_def
  BINDER_TYPE_HANDLE_def sizeof_binder_transaction_data_def sizeof_binder_ptr_cookie_def
  BR_TRANSACTION_def BR_REPLY_def BR_DEAD_REPLY_def BR_TRANSACTION_COMPLETE_def BR_INCREFS_def
  BR_ACQUIRE_def BR_RELEASE_def BR_DECREFS_def BR_NOOP_def BR_SPAWN_LOOPER_def
  BR_DEAD_BINDER_def BR_FAILED_REPLY_def BC_TRANSACTION_def BC_REPLY_def BC_FREE_BUFFER_def
  BC_ACQUIRE_def BC_RELEASE_def BC_REGISTER_LOOPER_def BC_ENTER_LOOPER_def
  BC_REQUEST_DEATH_NOTIFICATION_def

lemmas unused_defs = BR_ERROR_def BR_OK_def BR_ACQUIRE_RESULT_def BR_ATTEMPT_ACQUIRE_def BR_FINISHED_def
  BR_CLEAR_DEATH_NOTIFICATION_DONE_def BC_ACQUIRE_RESULT_def BC_INCREFS_def BC_DECREFS_def
  BC_INCREFS_DONE_def BC_ACQUIRE_DONE_def BC_ATTEMPT_ACQUIRE_def BC_EXIT_LOOPER_def
  BC_CLEAR_DEATH_NOTIFICATION_def BC_DEAD_BINDER_DONE_def

text \<open>The numbers the preprocessor would produce.\<close>

lemma object_type_values [proto_values]:
  "BINDER_TYPE_BINDER = 0x73622A85" "BINDER_TYPE_HANDLE = 0x73682A85"
  "FLAT_BINDER_FLAG_ACCEPTS_FDS = 0x100"
  by (simp_all add: proto_defs FLAT_BINDER_FLAG_ACCEPTS_FDS_def of_char_def)

lemma br_values [proto_values]:
  "BR_TRANSACTION = 0x80287202" "BR_REPLY = 0x80287203" "BR_DEAD_REPLY = 0x7205"
  "BR_TRANSACTION_COMPLETE = 0x7206" "BR_INCREFS = 0x80087207" "BR_ACQUIRE = 0x80087208"
  "BR_RELEASE = 0x80087209" "BR_DECREFS = 0x8008720A" "BR_NOOP = 0x720C"
  "BR_SPAWN_LOOPER = 0x720D" "BR_DEAD_BINDER = 0x8004720F" "BR_FAILED_REPLY = 0x7211"
  by (simp_all add: proto_defs ioc_defs of_char_def)

lemma bc_values [proto_values]:
  "BC_TRANSACTION = 0x40286300" "BC_REPLY = 0x40286301" "BC_FREE_BUFFER = 0x40046303"
  "BC_ACQUIRE = 0x40046305" "BC_RELEASE = 0x40046306" "BC_REGISTER_LOOPER = 0x630B"
  "BC_ENTER_LOOPER = 0x630C" "BC_REQUEST_DEATH_NOTIFICATION = 0x4008630E"
  by (simp_all add: proto_defs ioc_defs of_char_def)

lemma unused_values [proto_values]:
  "BR_ERROR = 0x80047200" "BR_OK = 0x7201" "BR_ACQUIRE_RESULT = 0x80047204"
  "BR_ATTEMPT_ACQUIRE = 0x800C720B" "BR_FINISHED = 0x720E" "BR_CLEAR_DEATH_NOTIFICATION_DONE = 0x80047210"
  "BC_ACQUIRE_RESULT = 0x40046302" "BC_INCREFS = 0x40046304" "BC_DECREFS = 0x40046307"
  "BC_INCREFS_DONE = 0x40086308" "BC_ACQUIRE_DONE = 0x40086309" "BC_ATTEMPT_ACQUIRE = 0x4008630A"
  "BC_EXIT_LOOPER = 0x630D" "BC_CLEAR_DEATH_NOTIFICATION = 0x4008630F" "BC_DEAD_BINDER_DONE = 0x40046310"
  by (simp_all add: unused_defs proto_defs ioc_defs of_char_def)

lemma sizeof_values [proto_values]:
  "sizeof_binder_transaction_data = 40" "sizeof_binder_ptr_cookie = 8"
  "sizeof_flat_binder_object = 16"
  by (simp_all add: proto_defs sizeof_flat_binder_object_def)

subsection \<open>The service manager's protocol\<close>

definition BINDER_SERVICE_MANAGER :: u32 where "BINDER_SERVICE_MANAGER = 0"

definition PING_TRANSACTION :: u32 where
  "PING_TRANSACTION = B_PACK_CHARS (of_char CHR ''_'') (of_char CHR ''P'') (of_char CHR ''N'') (of_char CHR ''G'')"
definition SVC_MGR_GET_SERVICE :: u32 where "SVC_MGR_GET_SERVICE = 1"
definition SVC_MGR_CHECK_SERVICE :: u32 where "SVC_MGR_CHECK_SERVICE = 2"
definition SVC_MGR_ADD_SERVICE :: u32 where "SVC_MGR_ADD_SERVICE = 3"
definition SVC_MGR_LIST_SERVICES :: u32 where "SVC_MGR_LIST_SERVICES = 4"

lemmas svc_mgr_codes = SVC_MGR_GET_SERVICE_def SVC_MGR_CHECK_SERVICE_def
  SVC_MGR_ADD_SERVICE_def SVC_MGR_LIST_SERVICES_def

subsection \<open>Reading back an encoded structure\<close>

lemma load_bytes_numeral [simp]:
  "load_bytes m a (numeral k) = m a # load_bytes m (a + 1) (pred_numeral k)"
  by (simp add: numeral_eq_Suc)

lemma length_encode [simp]:
  "length (encode_txn t) = 40" "length (encode_obj ob) = 16"
  "length (encode_handle_cookie hc) = 8"
  by (simp_all add: encode_txn_def encode_obj_def encode_handle_cookie_def)

lemma load_obj_encode: "load_bytes m a 16 = encode_obj ob \<Longrightarrow> load_obj m a = ob"
  by (simp add: load_obj_def load32_def encode_obj_def le32_def un32_le32 add.assoc)

lemma load_txn_encode: "load_bytes m a 40 = encode_txn t \<Longrightarrow> load_txn m a = t"
  by (simp add: load_txn_def load32_def encode_txn_def le32_def un32_le32 add.assoc)

lemma load_txn_store:
  "no_wrap a 40 \<Longrightarrow> load_txn (store_bytes m a (encode_txn t)) a = t"
  using load_bytes_store_same [of a "encode_txn t" m] by (simp add: load_txn_encode del: load_bytes_numeral)

text \<open>Structures are read from their own bytes only.\<close>

lemma load_txn_agree:
  assumes "agree_on A m m'" and "region a 40 \<subseteq> A" and "no_wrap a 40"
  shows "load_txn m' a = load_txn m a"
proof (rule load_txn_encode)
  have "le32 (load32 m x) = load_bytes m x 4" for x
    by (simp add: load32_def le32_un32 add.assoc)
  then have "encode_txn (load_txn m a) = load_bytes m a 40"
    by (simp add: encode_txn_def load_txn_def add.assoc)
  then show "load_bytes m' a 40 = encode_txn (load_txn m a)"
    using load_bytes_agree [OF assms] by simp
qed

end
