(* ===== verification/Bio.thy ===== *)
theory Bio
  imports Binder_Proto
begin

text \<open>
  The message buffers of \<open>binder.c\<close> (\<open>struct binder_io\<close> of \<open>binder.h\<close>): \<open>bio_init\<close>, the
  \<open>bio_put_\<dots>\<close> writers over \<open>bio_alloc\<close> and the \<open>bio_get_\<dots>\<close> readers over \<open>bio_get\<close>. A
  \<open>binder_io\<close> is a local of its caller, so it is a record that the operations return
  updated; the bytes it points to are in memory. A pointer result is an address, with
  \<open>NULL\<close> as the code has it. Loops over zero-terminated strings are
  \<open>partial_function (option)\<close>: None where no terminator is ever met.
\<close>

subsection \<open>struct binder_io\<close>

record binder_io =
  io_data :: addr
  io_offs :: addr
  io_data_avail :: u32
  io_offs_avail :: u32
  io_data0 :: addr
  io_offs0 :: addr
  io_flags :: u32
  io_unused :: u32

definition MAX_BIO_SIZE :: u32 where "MAX_BIO_SIZE = push_bit 30 1"

definition BIO_F_SHARED :: u32 where "BIO_F_SHARED = 0x01"
definition BIO_F_OVERFLOW :: u32 where "BIO_F_OVERFLOW = 0x02"
definition BIO_F_IOERROR :: u32 where "BIO_F_IOERROR = 0x04"

lemmas bio_flag_defs = BIO_F_SHARED_def BIO_F_OVERFLOW_def BIO_F_IOERROR_def

text \<open>\<open>sizeof(size_t)\<close> and \<open>sizeof(uint16_t)\<close> on the target.\<close>

definition sizeof_size_t :: u32 where "sizeof_size_t = 4"
definition sizeof_uint16 :: u32 where "sizeof_uint16 = 2"

definition bio_init_from_txn :: "binder_io \<Rightarrow> binder_transaction_data \<Rightarrow> binder_io" where
  "bio_init_from_txn bio txn = bio\<lparr>
     io_data := txn_buffer txn, io_data0 := txn_buffer txn,
     io_offs := txn_offsets txn, io_offs0 := txn_offsets txn,
     io_data_avail := txn_data_size txn,
     io_offs_avail := txn_offsets_size txn div sizeof_size_t,
     io_flags := BIO_F_SHARED\<rparr>"

text \<open>On the early return the pointers keep whatever the caller's struct held.\<close>

definition bio_init :: "binder_io \<Rightarrow> addr \<Rightarrow> u32 \<Rightarrow> u32 \<Rightarrow> binder_io" where
  "bio_init bio dat maxdata maxoffs =
     (let n = maxoffs * sizeof_size_t in
      if maxdata < n then
        bio\<lparr>io_flags := BIO_F_OVERFLOW, io_data_avail := 0, io_offs_avail := 0\<rparr>
      else
        bio\<lparr>io_data := dat + n, io_data0 := dat + n, io_offs := dat, io_offs0 := dat,
            io_data_avail := maxdata - n, io_offs_avail := maxoffs, io_flags := 0\<rparr>)"

subsection \<open>Writing\<close>

definition align4 :: "u32 \<Rightarrow> u32" where
  "align4 sz = (sz + 3) AND NOT 3"

definition set_overflow :: "binder_io \<Rightarrow> binder_io" where
  "set_overflow bio = bio\<lparr>io_flags := io_flags bio OR BIO_F_OVERFLOW\<rparr>"

definition bio_alloc :: "binder_io \<Rightarrow> u32 \<Rightarrow> addr \<times> binder_io" where
  "bio_alloc bio sz =
     (let sz = align4 sz in
      if io_data_avail bio < sz then (NULL, set_overflow bio)
      else (io_data bio, bio\<lparr>io_data := io_data bio + sz, io_data_avail := io_data_avail bio - sz\<rparr>))"

definition bio_alloc_obj :: "binder_io \<Rightarrow> mem \<Rightarrow> addr \<times> binder_io \<times> mem" where
  "bio_alloc_obj bio m =
     (let (obj, bio) = bio_alloc bio sizeof_flat_binder_object in
      if obj \<noteq> NULL \<and> io_offs_avail bio \<noteq> 0 then
        (obj,
         bio\<lparr>io_offs_avail := io_offs_avail bio - 1, io_offs := io_offs bio + 4\<rparr>,
         store32 m (io_offs bio) (obj - io_data0 bio))
      else (NULL, set_overflow bio, m))"

definition bio_put_uint32 :: "u32 \<Rightarrow> binder_io \<times> mem \<Rightarrow> binder_io \<times> mem" where
  "bio_put_uint32 n = (\<lambda>(bio, m).
     let (ptr, bio) = bio_alloc bio 4 in
     if ptr \<noteq> NULL then (bio, store32 m ptr n) else (bio, m))"

text \<open>The four field stores of \<open>bio_put_obj\<close> and \<open>bio_put_ref\<close>, in the order of the code.\<close>

definition store_obj :: "mem \<Rightarrow> addr \<Rightarrow> u32 \<Rightarrow> u32 \<Rightarrow> mem" where
  "store_obj m obj ty h =
     (let m = store32 m (obj + 4) (0x7f OR FLAT_BINDER_FLAG_ACCEPTS_FDS);
          m = store32 m obj ty;
          m = store32 m (obj + 8) h
      in store32 m (obj + 12) 0)"

definition bio_put_obj :: "addr \<Rightarrow> binder_io \<times> mem \<Rightarrow> binder_io \<times> mem" where
  "bio_put_obj ptr = (\<lambda>(bio, m).
     let (obj, bio, m) = bio_alloc_obj bio m in
     if obj = NULL then (bio, m) else (bio, store_obj m obj BINDER_TYPE_BINDER ptr))"

definition bio_put_ref :: "u32 \<Rightarrow> binder_io \<times> mem \<Rightarrow> binder_io \<times> mem" where
  "bio_put_ref handle = (\<lambda>(bio, m).
     let (obj, bio, m) =
       (if handle \<noteq> 0 then bio_alloc_obj bio m
        else (let (obj, bio) = bio_alloc bio sizeof_flat_binder_object in (obj, bio, m)))
     in if obj = NULL then (bio, m) else (bio, store_obj m obj BINDER_TYPE_HANDLE handle))"

text \<open>\<open>while (str[len]) len++\<close> over 16-bit units, and \<open>strlen\<close>.\<close>

partial_function (option) str16_len :: "mem \<Rightarrow> addr \<Rightarrow> u32 \<Rightarrow> u32 option" where
  "str16_len m str len =
     (if load16 m (str + 2 * len) = 0 then Some len else str16_len m str (len + 1))"

partial_function (option) c_strlen :: "mem \<Rightarrow> addr \<Rightarrow> u32 \<Rightarrow> u32 option" where
  "c_strlen m str len = (if m (str + len) = 0 then Some len else c_strlen m str (len + 1))"

definition bio_put_string16 :: "addr \<Rightarrow> binder_io \<times> mem \<Rightarrow> (binder_io \<times> mem) option" where
  "bio_put_string16 str = (\<lambda>(bio, m).
     if str = NULL then Some (bio_put_uint32 0xffffffff (bio, m))
     else do {
       len \<leftarrow> str16_len m str 0;
       if len \<ge> MAX_BIO_SIZE div sizeof_uint16 then
         Some (bio_put_uint32 0xffffffff (bio, m))
       else
         let (bio, m) = bio_put_uint32 len (bio, m);
             len = (len + 1) * sizeof_uint16;
             (ptr, bio) = bio_alloc bio len
         in if ptr \<noteq> NULL then Some (bio, store_bytes m ptr (load_bytes m str (unat len)))
            else Some (bio, m)
     })"

text \<open>\<open>while (*str) *ptr++ = *str++; *ptr++ = 0\<close>: each byte becomes a 16-bit unit.\<close>

partial_function (option) widen_copy :: "mem \<Rightarrow> addr \<Rightarrow> addr \<Rightarrow> mem option" where
  "widen_copy m ptr str =
     (if m str = 0 then Some (store16 m ptr 0)
      else widen_copy (store16 m ptr (ucast (m str))) (ptr + 2) (str + 1))"

definition bio_put_string16_x :: "addr \<Rightarrow> binder_io \<times> mem \<Rightarrow> (binder_io \<times> mem) option" where
  "bio_put_string16_x str = (\<lambda>(bio, m).
     if str = NULL then Some (bio_put_uint32 0xffffffff (bio, m))
     else do {
       len \<leftarrow> c_strlen m str 0;
       if len \<ge> MAX_BIO_SIZE div sizeof_uint16 then
         Some (bio_put_uint32 0xffffffff (bio, m))
       else
         let (bio, m) = bio_put_uint32 len (bio, m);
             (ptr, bio) = bio_alloc bio ((len + 1) * sizeof_uint16)
         in if ptr = NULL then Some (bio, m)
            else do { m \<leftarrow> widen_copy m ptr str; Some (bio, m) }
     })"

declare str16_len.simps [code] c_strlen.simps [code] widen_copy.simps [code]

subsection \<open>Reading\<close>

definition bio_get :: "binder_io \<Rightarrow> u32 \<Rightarrow> addr \<times> binder_io" where
  "bio_get bio sz =
     (let sz = align4 sz in
      if io_data_avail bio < sz then (NULL, set_overflow (bio\<lparr>io_data_avail := 0\<rparr>))
      else (io_data bio, bio\<lparr>io_data := io_data bio + sz, io_data_avail := io_data_avail bio - sz\<rparr>))"

definition bio_get_uint32 :: "mem \<Rightarrow> binder_io \<Rightarrow> u32 \<times> binder_io" where
  "bio_get_uint32 m bio =
     (let (ptr, bio) = bio_get bio 4 in (if ptr \<noteq> NULL then load32 m ptr else 0, bio))"

text \<open>The pointer, the length through \<open>sz\<close> (no caller passes NULL for it), the buffer.\<close>

definition bio_get_string16 :: "mem \<Rightarrow> binder_io \<Rightarrow> addr \<times> u32 \<times> binder_io" where
  "bio_get_string16 m bio =
     (let (len, bio) = bio_get_uint32 m bio;
          (ptr, bio) = bio_get bio ((len + 1) * sizeof_uint16)
      in (ptr, len, bio))"

text \<open>The search loop of \<open>_bio_get_obj\<close>: \<open>n\<close> counts up to \<open>offs_avail\<close>.\<close>

function offs_search :: "mem \<Rightarrow> addr \<Rightarrow> u32 \<Rightarrow> nat \<Rightarrow> nat \<Rightarrow> bool" where
  "offs_search m offs off n avail =
     (if n < avail then
        if load32 m (offs + 4 * of_nat n) = off then True
        else offs_search m offs off (Suc n) avail
      else False)"
  by pat_completeness auto
termination
  by (relation "measure (\<lambda>(m, offs, off, n, avail). avail - n)") auto

declare offs_search.simps [simp del]

definition bio_get_obj :: "mem \<Rightarrow> binder_io \<Rightarrow> addr \<times> binder_io" where
  "bio_get_obj m bio =
     (let off = io_data bio - io_data0 bio in
      if offs_search m (io_offs bio) off 0 (unat (io_offs_avail bio))
      then bio_get bio sizeof_flat_binder_object
      else (NULL, set_overflow (bio\<lparr>io_data_avail := 0\<rparr>)))"

definition bio_get_ref :: "mem \<Rightarrow> binder_io \<Rightarrow> u32 \<times> binder_io" where
  "bio_get_ref m bio =
     (let (obj, bio) = bio_get_obj m bio in
      if obj = NULL then (0, bio)
      else if fbo_type (load_obj m obj) = BINDER_TYPE_HANDLE then (fbo_handle (load_obj m obj), bio)
      else (0, bio))"

end
