(* ===== verification/Process.thy ===== *)
theory Process
  imports Bio
begin

text \<open>
  The process a binder program runs in, and its environment. \<open>'g process\<close> is what the C code
  can change: memory, the blocks it got from \<open>malloc\<close>, the system calls it has made, the
  threads it asked for, and the static variables \<open>'g\<close> of the program. \<open>'g image\<close> is what it
  cannot change and the source does not fix: the addresses of local arrays, the indeterminate
  contents of uninitialised locals, the code behind function pointers, and the answers of the
  kernel and of \<open>malloc\<close>, which are functions of everything that happened before, so that
  every behaviour of the environment is covered.

  A call has one of three outcomes: it returns a value; it is still waiting in a system call
  (the run is watched up to the number of answers in \<open>budget\<close>, so the states of a server that
  never returns are seen as well); or it never gets anywhere (None: a jump through a wild
  function pointer, or a loop that runs for ever).
\<close>

subsection \<open>State\<close>

text \<open>\<open>struct binder_state\<close>; \<open>bs_at\<close> is the address of its block, which \<open>free\<close> is given.\<close>

record binder_state =
  bs_at :: addr
  fd :: int
  mapped :: addr
  mapsize :: u32

text \<open>System calls, with their arguments. A \<open>WriteRead\<close> keeps the memory at the time of the
  call, since the kernel copies what the argument points to.\<close>

datatype request =
    Open
  | Close int
  | Free addr
  | Mmap int u32
  | Munmap addr u32
  | GetVersion int
  | SetContextMgr int
  | SetMaxThreads int int
  | WriteRead int binder_write_read mem

text \<open>What the kernel gives back: a result, the fields of \<open>BINDER_VERSION\<close> and \<open>mmap\<close>, and
  for \<open>BINDER_WRITE_READ\<close> the consumed count, the bytes for the read buffer and the message
  buffers it has filled in the mapped area.\<close>

record answer =
  ans_ret :: int
  ans_version :: u32
  ans_addr :: addr
  ans_write_consumed :: u32
  ans_read :: "byte list"
  ans_deliver :: "(addr \<times> byte list) list"

record binder_thread_desc =
  btd_bs :: binder_state
  btd_func :: addr

record 'g process =
  pmem :: mem
  blocks :: "(addr \<times> nat) list"
  requests :: "request list"
  budget :: nat
  threads :: "binder_thread_desc list"
  globals :: 'g

subsection \<open>Outcomes\<close>

type_synonym ('a, 'g) outcome = "('a option \<times> 'g process) option"

definition returns :: "'a \<Rightarrow> 'g process \<Rightarrow> ('a, 'g) outcome" where
  "returns v p = Some (Some v, p)"

definition and_then ::
  "('a, 'g) outcome \<Rightarrow> ('a \<Rightarrow> 'g process \<Rightarrow> ('b, 'g) outcome) \<Rightarrow> ('b, 'g) outcome" where
  "and_then m f = Option.bind m (\<lambda>(r, p). case r of None \<Rightarrow> Some (None, p) | Some v \<Rightarrow> f v p)"

lemma and_then_mono [partial_function_mono]:
  assumes "mono_option F" and "\<And>v p. mono_option (\<lambda>f. G f v p)"
  shows "mono_option (\<lambda>f. and_then (F f) (G f))"
  unfolding and_then_def
  apply (rule bind_mono [OF assms(1)])
  subgoal for rp
    by (cases rp; cases "fst rp") (simp_all add: assms(2) option.const_mono)
  done

text \<open>Total correctness: the call gets somewhere, and \<open>Q\<close> holds when it returns, \<open>B\<close> while it
  waits.\<close>

definition wp ::
  "('a, 'g) outcome \<Rightarrow> ('a \<Rightarrow> 'g process \<Rightarrow> bool) \<Rightarrow> ('g process \<Rightarrow> bool) \<Rightarrow> bool" where
  "wp m Q B \<longleftrightarrow> (case m of None \<Rightarrow> False | Some (None, p) \<Rightarrow> B p | Some (Some v, p) \<Rightarrow> Q v p)"

lemma and_then_returns [simp]: "and_then (returns v p) f = f v p"
  by (simp add: and_then_def returns_def)

lemma and_then_simps [simp]:
  "and_then None f = None" "and_then (Some (None, p)) f = Some (None, p)"
  "and_then (Some (Some v, p)) f = f v p"
  by (simp_all add: and_then_def)

lemma and_then_assoc:
  "and_then (and_then m f) g = and_then m (\<lambda>v p. and_then (f v p) g)"
  by (auto simp: and_then_def split: Option.bind_splits option.splits)

lemma wp_returns [simp]: "wp (returns v p) Q B = Q v p"
  by (simp add: wp_def returns_def)

lemma wp_simps [simp]:
  "wp None Q B = False" "wp (Some (None, p)) Q B = B p" "wp (Some (Some v, p)) Q B = Q v p"
  by (simp_all add: wp_def)

lemma wp_and_then [simp]: "wp (and_then m f) Q B = wp m (\<lambda>v p. wp (f v p) Q B) B"
  by (auto simp: wp_def and_then_def split: option.splits prod.splits)

lemma wp_mono:
  "wp m Q B \<Longrightarrow> (\<And>v p. Q v p \<Longrightarrow> Q' v p) \<Longrightarrow> (\<And>p. B p \<Longrightarrow> B' p) \<Longrightarrow> wp m Q' B'"
  by (auto simp: wp_def split: option.splits)

lemma wp_conj: "wp m Q B \<Longrightarrow> wp m Q' B' \<Longrightarrow> wp m (\<lambda>v p. Q v p \<and> Q' v p) (\<lambda>p. B p \<and> B' p)"
  by (auto simp: wp_def split: option.splits)

lemma wp_cases [consumes 1, case_names returned waits]:
  "wp m Q B \<Longrightarrow>
    (\<And>v p. m = Some (Some v, p) \<Longrightarrow> Q v p \<Longrightarrow> R) \<Longrightarrow> (\<And>p. m = Some (None, p) \<Longrightarrow> B p \<Longrightarrow> R) \<Longrightarrow> R"
  by (auto simp: wp_def split: option.splits prod.splits)

subsection \<open>The program image\<close>

text \<open>
  A handler gets the binder state, the address of the transaction in the read buffer and the
  two message buffers by reference: it returns them as it leaves them, after its result.
\<close>

type_synonym 'g binder_handler =
  "binder_state \<Rightarrow> addr \<Rightarrow> binder_io \<Rightarrow> binder_io \<Rightarrow> 'g process \<Rightarrow>
     (int \<times> binder_io \<times> binder_io, 'g) outcome"

type_synonym 'g death_func = "binder_state \<Rightarrow> addr \<Rightarrow> 'g process \<Rightarrow> (unit, 'g) outcome"

text \<open>\<open>loop_readbuf\<close>, \<open>call_readbuf\<close>, \<open>parse_rdata\<close>: the arrays \<open>readbuf\<close> of \<open>binder_loop\<close> and
  \<open>binder_thread_loop\<close>, \<open>readbuf\<close> of \<open>binder_call\<close>, \<open>rdata\<close> of \<open>binder_parse\<close>;
  \<open>reply_status\<close>: the parameter \<open>status\<close> of \<open>binder_send_reply\<close>, whose address is sent;
  \<open>caller_iodata\<close>: the array \<open>iodata\<close> of the functions that build a call;
  \<open>junk_txn\<close>, \<open>junk_io\<close>: uninitialised structures.\<close>

record 'g image =
  loop_readbuf :: addr
  call_readbuf :: addr
  parse_rdata :: addr
  reply_status :: addr
  caller_iodata :: addr
  junk_txn :: binder_transaction_data
  junk_io :: binder_io
  handler_code :: "addr \<Rightarrow> 'g binder_handler option"
  death_code :: "addr \<Rightarrow> 'g death_func option"
  kernel :: "request list \<Rightarrow> answer"
  allocator :: "(addr \<times> nat) list \<Rightarrow> nat \<Rightarrow> addr"

subsection \<open>System calls and malloc\<close>

definition log_request :: "request \<Rightarrow> 'g process \<Rightarrow> 'g process" where
  "log_request rq p = p\<lparr>requests := requests p @ [rq]\<rparr>"

definition syscall :: "'g image \<Rightarrow> request \<Rightarrow> 'g process \<Rightarrow> (answer, 'g) outcome" where
  "syscall im rq p =
     (let p = log_request rq p in
      if budget p = 0 then Some (None, p)
      else returns (kernel im (requests p)) (p\<lparr>budget := budget p - 1\<rparr>))"

definition malloc :: "'g image \<Rightarrow> nat \<Rightarrow> 'g process \<Rightarrow> addr \<times> 'g process" where
  "malloc im n p =
     (let a = allocator im (blocks p) n in
      (a, if a = NULL then p else p\<lparr>blocks := (a, n) # blocks p\<rparr>))"

definition free_block :: "addr \<Rightarrow> 'g process \<Rightarrow> 'g process" where
  "free_block a p = log_request (Free a) (p\<lparr>blocks := filter (\<lambda>b. fst b \<noteq> a) (blocks p)\<rparr>)"

text \<open>What \<open>BINDER_WRITE_READ\<close> does to the caller's memory and to its argument.\<close>

primrec deliver :: "(addr \<times> byte list) list \<Rightarrow> mem \<Rightarrow> mem" where
  "deliver [] m = m"
| "deliver (d # ds) m = deliver ds (store_bytes m (fst d) (snd d))"

definition ioctl_write_read ::
  "'g image \<Rightarrow> binder_state \<Rightarrow> binder_write_read \<Rightarrow> 'g process \<Rightarrow> (int \<times> binder_write_read, 'g) outcome" where
  "ioctl_write_read im bs bwr p =
     and_then (syscall im (WriteRead (fd bs) bwr (pmem p)) p) (\<lambda>ans p.
       returns (ans_ret ans, bwr\<lparr>write_consumed := ans_write_consumed ans,
                                 read_consumed := of_nat (length (ans_read ans))\<rparr>)
         (p\<lparr>pmem := store_bytes (deliver (ans_deliver ans) (pmem p)) (read_buffer bwr) (ans_read ans)\<rparr>))"

end
