(* ===== verification/Binder.thy ===== *)
theory Binder
  imports Process
begin

text \<open>
  The process layer of \<open>binder.c\<close>: opening the driver, the commands a process writes to it,
  \<open>binder_parse\<close> over what it reads back, the server loops and \<open>binder_call\<close>. The structures
  the functions build on their stack are byte lists (nothing else can reach them); arrays
  whose address is given away (\<open>readbuf\<close>, \<open>rdata\<close>, \<open>status\<close>) are in memory.
\<close>

subsection \<open>Opening and closing the driver\<close>

definition MAP_FAILED :: addr where "MAP_FAILED = 0xFFFFFFFF"

text \<open>\<open>sizeof(struct binder_state)\<close>.\<close>

definition sizeof_binder_state :: nat where "sizeof_binder_state = 12"

definition fail_open :: "addr \<Rightarrow> 'g process \<Rightarrow> (binder_state option, 'g) outcome" where
  "fail_open a p = returns None (free_block a p)"

definition fail_map :: "int \<Rightarrow> addr \<Rightarrow> 'g process \<Rightarrow> (binder_state option, 'g) outcome" where
  "fail_map d a p = fail_open a (log_request (Close d) p)"

definition binder_open :: "'g image \<Rightarrow> u32 \<Rightarrow> 'g process \<Rightarrow> (binder_state option, 'g) outcome" where
  "binder_open im maplen p =
     (let (a, p) = malloc im sizeof_binder_state p in
      if a = NULL then returns None p
      else and_then (syscall im Open p) (\<lambda>ans p. let d = ans_ret ans in
        if d < 0 then fail_open a p
        else and_then (syscall im (GetVersion d) p) (\<lambda>ans p.
          if ans_ret ans = -1 \<or> ans_version ans \<noteq> BINDER_CURRENT_PROTOCOL_VERSION
          then fail_open a p
          else and_then (syscall im (Mmap d maplen) p) (\<lambda>ans p.
            if ans_addr ans = MAP_FAILED then fail_map d a p
            else returns (Some \<lparr>bs_at = a, fd = d, mapped = ans_addr ans, mapsize = maplen\<rparr>) p))))"

definition binder_close :: "binder_state \<Rightarrow> 'g process \<Rightarrow> 'g process" where
  "binder_close bs p =
     free_block (bs_at bs)
       (log_request (Close (fd bs)) (log_request (Munmap (mapped bs) (mapsize bs)) p))"

definition binder_become_context_manager ::
  "'g image \<Rightarrow> binder_state \<Rightarrow> 'g process \<Rightarrow> (int, 'g) outcome" where
  "binder_become_context_manager im bs p =
     and_then (syscall im (SetContextMgr (fd bs)) p) (\<lambda>ans. returns (ans_ret ans))"

definition binder_set_maxthreads ::
  "'g image \<Rightarrow> binder_state \<Rightarrow> int \<Rightarrow> 'g process \<Rightarrow> (unit, 'g) outcome" where
  "binder_set_maxthreads im bs n p =
     and_then (syscall im (SetMaxThreads (fd bs) n) p) (\<lambda>ans. returns ())"

subsection \<open>Writing commands\<close>

definition binder_write ::
  "'g image \<Rightarrow> binder_state \<Rightarrow> byte list \<Rightarrow> 'g process \<Rightarrow> (int, 'g) outcome" where
  "binder_write im bs dat p =
     and_then (ioctl_write_read im bs
        \<lparr>write_size = of_nat (length dat), write_consumed = 0, write_buffer = dat,
         read_size = 0, read_consumed = 0, read_buffer = 0\<rparr> p)
       (\<lambda>(res, bwr). returns res)"

text \<open>The packed structure of \<open>binder_send_reply\<close>. The parameter \<open>status\<close> is stored where its
  address \<open>&status\<close> points; the fields the code does not set are indeterminate.\<close>

definition reply_frame :: "'g image \<Rightarrow> binder_io \<Rightarrow> addr \<Rightarrow> int \<Rightarrow> byte list" where
  "reply_frame im reply buffer_to_free status =
     (let txn = (junk_txn im)\<lparr>txn_target := 0, txn_cookie := 0, txn_code := 0\<rparr>;
          txn = (if status \<noteq> 0 then
                   txn\<lparr>txn_flags := TF_STATUS_CODE, txn_data_size := 4, txn_offsets_size := 0,
                       txn_buffer := reply_status im, txn_offsets := 0\<rparr>
                 else
                   txn\<lparr>txn_flags := 0, txn_data_size := io_data reply - io_data0 reply,
                       txn_offsets_size := io_offs reply - io_offs0 reply,
                       txn_buffer := io_data0 reply, txn_offsets := io_offs0 reply\<rparr>)
      in le32 BC_FREE_BUFFER @ le32 buffer_to_free @ le32 BC_REPLY @ encode_txn txn)"

definition binder_send_reply ::
  "'g image \<Rightarrow> binder_state \<Rightarrow> binder_io \<Rightarrow> addr \<Rightarrow> int \<Rightarrow> 'g process \<Rightarrow> (unit, 'g) outcome" where
  "binder_send_reply im bs reply buffer_to_free status p =
     and_then (binder_write im bs (reply_frame im reply buffer_to_free status)
         (p\<lparr>pmem := store32 (pmem p) (reply_status im) (of_int status)\<rparr>))
       (\<lambda>res. returns ())"

definition binder_acquire :: "'g image \<Rightarrow> binder_state \<Rightarrow> u32 \<Rightarrow> 'g process \<Rightarrow> (unit, 'g) outcome" where
  "binder_acquire im bs target p =
     and_then (binder_write im bs (le32 BC_ACQUIRE @ le32 target) p) (\<lambda>res. returns ())"

definition binder_release :: "'g image \<Rightarrow> binder_state \<Rightarrow> u32 \<Rightarrow> 'g process \<Rightarrow> (unit, 'g) outcome" where
  "binder_release im bs target p =
     and_then (binder_write im bs (le32 BC_RELEASE @ le32 target) p) (\<lambda>res. returns ())"

definition binder_link_to_death ::
  "'g image \<Rightarrow> binder_state \<Rightarrow> u32 \<Rightarrow> addr \<Rightarrow> 'g process \<Rightarrow> (unit, 'g) outcome" where
  "binder_link_to_death im bs target death p =
     and_then (binder_write im bs (le32 BC_REQUEST_DEATH_NOTIFICATION @
         encode_handle_cookie \<lparr>hc_handle = target, hc_cookie = death\<rparr>) p) (\<lambda>res. returns ())"

definition binder_done ::
  "'g image \<Rightarrow> binder_state \<Rightarrow> binder_io \<Rightarrow> 'g process \<Rightarrow> (binder_io, 'g) outcome" where
  "binder_done im bs reply p =
     (if io_flags reply AND BIO_F_SHARED \<noteq> 0 then
        and_then (binder_write im bs (le32 BC_FREE_BUFFER @ le32 (io_data0 reply)) p)
          (\<lambda>res. returns (reply\<lparr>io_flags := 0\<rparr>))
      else returns reply p)"

subsection \<open>binder_parse\<close>

text \<open>The body of \<open>case BR_TRANSACTION\<close> behind the size check: \<open>func\<close> is called through its
  pointer, and \<open>txn->data.ptr.buffer\<close> is read after it has returned.\<close>

definition parse_transaction ::
  "'g image \<Rightarrow> binder_state \<Rightarrow> addr \<Rightarrow> addr \<Rightarrow> 'g process \<Rightarrow> (unit, 'g) outcome" where
  "parse_transaction im bs func txn p =
     (if func = NULL then returns () p
      else
        let reply = bio_init (junk_io im) (parse_rdata im) 256 4;
            msg = bio_init_from_txn (junk_io im) (load_txn (pmem p) txn)
        in case handler_code im func of
             None \<Rightarrow> None
           | Some h \<Rightarrow> and_then (h bs txn msg reply p) (\<lambda>(res, msg, reply) p.
               binder_send_reply im bs reply (txn_buffer (load_txn (pmem p) txn)) res p))"

text \<open>\<open>death->func(bs, death->ptr)\<close>.\<close>

definition parse_dead_binder ::
  "'g image \<Rightarrow> binder_state \<Rightarrow> addr \<Rightarrow> 'g process \<Rightarrow> (unit, 'g) outcome" where
  "parse_dead_binder im bs death p =
     (case death_code im (load32 (pmem p) death) of
        None \<Rightarrow> None
      | Some f \<Rightarrow> f bs (load32 (pmem p) (death + 4)) p)"

text \<open>
  The variables of the loop: \<open>ptr\<close>, \<open>r\<close>, whether the pointer \<open>bio\<close> is still set, and what the
  caller's structure behind it holds. One iteration is a switch on the command at \<open>ptr\<close>,
  which either returns from the function or goes on.
\<close>

record parse_state =
  ps_ptr :: addr
  ps_r :: int
  ps_bio :: bool
  ps_rep :: binder_io

datatype parse_next = Return int binder_io | Continue parse_state

definition parse_step ::
  "'g image \<Rightarrow> binder_state \<Rightarrow> addr \<Rightarrow> addr \<Rightarrow> parse_state \<Rightarrow> 'g process \<Rightarrow>
     (parse_next, 'g) outcome" where
  "parse_step im bs func stop st p =
     (let cmd = load32 (pmem p) (ps_ptr st);
          ptr = ps_ptr st + 4;
          st = st\<lparr>ps_ptr := ptr\<rparr>
      in
        if cmd = BR_NOOP then returns (Continue st) p
        else if cmd = BR_TRANSACTION_COMPLETE then returns (Continue st) p
        else if cmd = BR_INCREFS \<or> cmd = BR_ACQUIRE \<or> cmd = BR_RELEASE \<or> cmd = BR_DECREFS then
          returns (Continue (st\<lparr>ps_ptr := ptr + sizeof_binder_ptr_cookie\<rparr>)) p
        else if cmd = BR_SPAWN_LOOPER then
          returns (Continue st) (p\<lparr>threads := threads p @ [\<lparr>btd_bs = bs, btd_func = func\<rparr>]\<rparr>)
        else if cmd = BR_TRANSACTION then
          (if stop - ptr < sizeof_binder_transaction_data then returns (Return (-1) (ps_rep st)) p
           else and_then (parse_transaction im bs func ptr p) (\<lambda>_.
             returns (Continue (st\<lparr>ps_ptr := ptr + sizeof_binder_transaction_data\<rparr>))))
        else if cmd = BR_REPLY then
          (if stop - ptr < sizeof_binder_transaction_data then returns (Return (-1) (ps_rep st)) p
           else
             let st = (if ps_bio st then
                         st\<lparr>ps_rep := bio_init_from_txn (ps_rep st) (load_txn (pmem p) ptr),
                            ps_bio := False\<rparr>
                       else st)
             in returns (Continue (st\<lparr>ps_ptr := ptr + sizeof_binder_transaction_data, ps_r := 0\<rparr>)) p)
        else if cmd = BR_DEAD_BINDER then
          and_then (parse_dead_binder im bs (load32 (pmem p) ptr) p) (\<lambda>_.
            returns (Continue (st\<lparr>ps_ptr := ptr + 4\<rparr>)))
        else if cmd = BR_FAILED_REPLY then returns (Continue (st\<lparr>ps_r := -1\<rparr>)) p
        else if cmd = BR_DEAD_REPLY then returns (Continue (st\<lparr>ps_r := -1\<rparr>)) p
        else returns (Return (-1) (ps_rep st)) p)"

partial_function (option) parse_loop ::
  "'g image \<Rightarrow> binder_state \<Rightarrow> addr \<Rightarrow> addr \<Rightarrow> parse_state \<Rightarrow> 'g process \<Rightarrow>
     (int \<times> binder_io, 'g) outcome" where
  "parse_loop im bs func stop st p =
     (if \<not> ps_ptr st < stop then returns (ps_r st, ps_rep st) p
      else and_then (parse_step im bs func stop st p) (\<lambda>next p.
        case next of Return r rep \<Rightarrow> returns (r, rep) p
        | Continue st \<Rightarrow> parse_loop im bs func stop st p))"

text \<open>\<open>bio\<close> is None for the null pointer. The result comes with the structure behind \<open>bio\<close>.\<close>

definition binder_parse ::
  "'g image \<Rightarrow> binder_state \<Rightarrow> binder_io option \<Rightarrow> addr \<Rightarrow> u32 \<Rightarrow> addr \<Rightarrow> 'g process \<Rightarrow>
     (int \<times> binder_io, 'g) outcome" where
  "binder_parse im bs bio ptr nbytes func p =
     parse_loop im bs func (ptr + nbytes)
       \<lparr>ps_ptr = ptr, ps_r = 1, ps_bio = (bio \<noteq> None),
        ps_rep = (case bio of Some rep \<Rightarrow> rep | None \<Rightarrow> junk_io im)\<rparr> p"

subsection \<open>Server loops\<close>

definition sizeof_readbuf :: u32 where "sizeof_readbuf = 128"

text \<open>The \<open>for (;;)\<close> of \<open>binder_loop\<close> and \<open>binder_thread_loop\<close>, which are the same code.\<close>

partial_function (option) serve ::
  "'g image \<Rightarrow> binder_state \<Rightarrow> addr \<Rightarrow> binder_write_read \<Rightarrow> 'g process \<Rightarrow> (unit, 'g) outcome" where
  "serve im bs func bwr p =
     and_then (ioctl_write_read im bs (bwr\<lparr>read_size := sizeof_readbuf, read_consumed := 0,
         read_buffer := loop_readbuf im\<rparr>) p) (\<lambda>(res, bwr) p.
       if res < 0 then returns () p
       else and_then (binder_parse im bs None (loop_readbuf im) (read_consumed bwr) func p)
         (\<lambda>(res, rep) p. if res = 0 \<or> res < 0 then returns () p else serve im bs func bwr p))"

definition empty_write :: binder_write_read where
  "empty_write = \<lparr>write_size = 0, write_consumed = 0, write_buffer = [],
     read_size = 0, read_consumed = 0, read_buffer = 0\<rparr>"

definition enter_loop ::
  "u32 \<Rightarrow> 'g image \<Rightarrow> binder_state \<Rightarrow> addr \<Rightarrow> 'g process \<Rightarrow> (unit, 'g) outcome" where
  "enter_loop cmd im bs func p =
     and_then (binder_write im bs (le32 cmd) (p\<lparr>pmem := store32 (pmem p) (loop_readbuf im) cmd\<rparr>))
       (\<lambda>res. serve im bs func empty_write)"

definition binder_thread_loop ::
  "'g image \<Rightarrow> binder_state \<Rightarrow> addr \<Rightarrow> 'g process \<Rightarrow> (unit, 'g) outcome" where
  "binder_thread_loop = enter_loop BC_REGISTER_LOOPER"

definition binder_thread_routine ::
  "'g image \<Rightarrow> binder_thread_desc \<Rightarrow> 'g process \<Rightarrow> (unit, 'g) outcome" where
  "binder_thread_routine im btd = binder_thread_loop im (btd_bs btd) (btd_func btd)"

definition binder_loop ::
  "'g image \<Rightarrow> binder_state \<Rightarrow> addr \<Rightarrow> 'g process \<Rightarrow> (unit, 'g) outcome" where
  "binder_loop = enter_loop BC_ENTER_LOOPER"

subsection \<open>binder_call\<close>

definition zero_io :: binder_io where
  "zero_io = \<lparr>io_data = 0, io_offs = 0, io_data_avail = 0, io_offs_avail = 0, io_data0 = 0,
     io_offs0 = 0, io_flags = 0, io_unused = 0\<rparr>"

text \<open>The label \<open>fail\<close>.\<close>

definition call_failed :: "'g process \<Rightarrow> (int \<times> binder_io, 'g) outcome" where
  "call_failed = returns (-1, zero_io\<lparr>io_flags := io_flags zero_io OR BIO_F_IOERROR\<rparr>)"

partial_function (option) call_loop ::
  "'g image \<Rightarrow> binder_state \<Rightarrow> binder_write_read \<Rightarrow> binder_io \<Rightarrow> 'g process \<Rightarrow>
     (int \<times> binder_io, 'g) outcome" where
  "call_loop im bs bwr reply p =
     and_then (ioctl_write_read im bs (bwr\<lparr>read_size := sizeof_readbuf, read_consumed := 0,
         read_buffer := call_readbuf im\<rparr>) p) (\<lambda>(res, bwr) p.
       if res < 0 then call_failed p
       else and_then (binder_parse im bs (Some reply) (call_readbuf im) (read_consumed bwr) NULL p)
         (\<lambda>(res, reply) p. if res = 0 then returns (0, reply) p
            else if res < 0 then call_failed p
            else call_loop im bs bwr reply p))"

definition call_frame :: "'g image \<Rightarrow> binder_io \<Rightarrow> u32 \<Rightarrow> u32 \<Rightarrow> byte list" where
  "call_frame im msg target code =
     le32 BC_TRANSACTION @ encode_txn ((junk_txn im)\<lparr>
       txn_target := target, txn_code := code, txn_flags := 0,
       txn_data_size := io_data msg - io_data0 msg,
       txn_offsets_size := io_offs msg - io_offs0 msg,
       txn_buffer := io_data0 msg, txn_offsets := io_offs0 msg\<rparr>)"

text \<open>The result and the reply; \<open>msg\<close> is only read.\<close>

definition binder_call ::
  "'g image \<Rightarrow> binder_state \<Rightarrow> binder_io \<Rightarrow> binder_io \<Rightarrow> u32 \<Rightarrow> u32 \<Rightarrow> 'g process \<Rightarrow>
     (int \<times> binder_io, 'g) outcome" where
  "binder_call im bs msg reply target code p =
     (if io_flags msg AND BIO_F_OVERFLOW \<noteq> 0 then call_failed p
      else let frame = call_frame im msg target code in
        call_loop im bs (empty_write\<lparr>write_size := of_nat (length frame), write_buffer := frame\<rparr>)
          reply p)"

declare parse_loop.simps [code] serve.simps [code] call_loop.simps [code]

end
