(* ===== verification/Binder_Parse.thy ===== *)
theory Binder_Parse
  imports Binder
begin

text \<open>
  \<open>binder_parse\<close> against the protocol it parses. \<open>br\<close> is the abstract syntax of what the
  driver returns and \<open>encode_br\<close> its bytes; \<open>run_br\<close> is what one return command means to the
  process. The lemmas show that parsing an encoded sequence runs its commands in order, and
  the properties what that gives the callers of \<open>binder_call\<close>.
\<close>

subsection \<open>Driver return commands\<close>

datatype refop = IncRefs | Acquire | Release | DecRefs

datatype br =
    Noop
  | TransactionComplete
  | RefCount refop u32 u32
  | SpawnLooper
  | Transaction binder_transaction_data
  | Reply binder_transaction_data
  | DeadBinder addr
  | FailedReply
  | DeadReply

primrec refop_code :: "refop \<Rightarrow> u32" where
  "refop_code IncRefs = BR_INCREFS"
| "refop_code Acquire = BR_ACQUIRE"
| "refop_code Release = BR_RELEASE"
| "refop_code DecRefs = BR_DECREFS"

primrec encode_br :: "br \<Rightarrow> byte list" where
  "encode_br Noop = le32 BR_NOOP"
| "encode_br TransactionComplete = le32 BR_TRANSACTION_COMPLETE"
| "encode_br (RefCount k ptr cookie) = le32 (refop_code k) @ le32 ptr @ le32 cookie"
| "encode_br SpawnLooper = le32 BR_SPAWN_LOOPER"
| "encode_br (Transaction t) = le32 BR_TRANSACTION @ encode_txn t"
| "encode_br (Reply t) = le32 BR_REPLY @ encode_txn t"
| "encode_br (DeadBinder d) = le32 BR_DEAD_BINDER @ le32 d"
| "encode_br FailedReply = le32 BR_FAILED_REPLY"
| "encode_br DeadReply = le32 BR_DEAD_REPLY"

definition encode_brs :: "br list \<Rightarrow> byte list" where
  "encode_brs cs = concat (map encode_br cs)"

lemma encode_brs_simps [simp]:
  "encode_brs [] = []" "encode_brs (c # cs) = encode_br c @ encode_brs cs"
  by (simp_all add: encode_brs_def)

lemma length_encode_br: "4 \<le> length (encode_br c)" "length (encode_br c) \<le> 44"
  by (cases c; simp)+

lemma encode_br_nonempty [simp]: "encode_br c \<noteq> []"
  using length_encode_br(1) [of c] by auto

text \<open>The bytes determine the commands.\<close>

lemma append_inject: "length xs = length ys \<Longrightarrow> xs @ us = ys @ vs \<longleftrightarrow> xs = ys \<and> us = vs"
  by (rule append_eq_append_conv) simp

lemma le32_inject: "le32 a = le32 b \<longleftrightarrow> a = b"
proof
  assume "le32 a = le32 b"
  from arg_cong [OF this, of "\<lambda>bs. un32 (bs ! 0) (bs ! 1) (bs ! 2) (bs ! 3)"] show "a = b"
    by (simp add: le32_def un32_le32)
qed simp

lemma encode_txn_inject: "encode_txn t = encode_txn u \<longleftrightarrow> t = u"
proof
  have "load_txn (store_bytes (\<lambda>_. 0) 0 (encode_txn v)) 0 = v" for v
    by (rule load_txn_store) (simp add: no_wrap_def)
  then show "encode_txn t = encode_txn u \<Longrightarrow> t = u" by metis
qed simp

lemma encode_inject:
  "le32 a @ xs = le32 b @ ys \<longleftrightarrow> a = b \<and> xs = ys" "encode_txn t @ xs = encode_txn u @ ys \<longleftrightarrow> t = u \<and> xs = ys"
  by (simp_all add: append_inject le32_inject encode_txn_inject)

lemma encode_br_inject: "encode_br c @ xs = encode_br d @ ys \<Longrightarrow> c = d \<and> xs = ys"
proof -
  have "refop_code k = refop_code l \<longleftrightarrow> k = l" for k l
    by (cases k; cases l) (simp_all add: proto_values)
  moreover have "refop_code k \<noteq> b" "b \<noteq> refop_code k"
    if "b \<in> {BR_NOOP, BR_TRANSACTION_COMPLETE, BR_SPAWN_LOOPER, BR_TRANSACTION, BR_REPLY, BR_DEAD_BINDER,
      BR_FAILED_REPLY, BR_DEAD_REPLY}" for k b
    using that by (cases k; auto simp: proto_values)+
  moreover have "distinct [BR_NOOP, BR_TRANSACTION_COMPLETE, BR_SPAWN_LOOPER, BR_TRANSACTION, BR_REPLY,
      BR_DEAD_BINDER, BR_FAILED_REPLY, BR_DEAD_REPLY]"
    by (simp add: proto_values)
  moreover assume "encode_br c @ xs = encode_br d @ ys"
  ultimately show ?thesis by (cases c; cases d) (auto simp: encode_inject)
qed

lemma encode_brs_inject: "encode_brs cs = encode_brs ds \<longleftrightarrow> cs = ds"
proof
  show "encode_brs cs = encode_brs ds \<Longrightarrow> cs = ds"
  proof (induction cs arbitrary: ds)
    case Nil
    then show ?case by (cases ds) simp_all
  next
    case (Cons c cs)
    then obtain d ds' where ds: "ds = d # ds'" by (cases ds) auto
    with Cons.prems encode_br_inject [of c "encode_brs cs" d "encode_brs ds'"] Cons.IH [of ds'] show ?case by simp
  qed
qed simp

text \<open>What a command means. \<open>a\<close> is the address of its code in the read buffer.\<close>

definition run_br ::
  "'g image \<Rightarrow> binder_state \<Rightarrow> addr \<Rightarrow> br \<Rightarrow> parse_state \<Rightarrow> 'g process \<Rightarrow>
     (parse_state, 'g) outcome" where
  "run_br im bs func c st p =
     (let a = ps_ptr st; st = st\<lparr>ps_ptr := a + of_nat (length (encode_br c))\<rparr> in
      case c of
        SpawnLooper \<Rightarrow>
          returns st (p\<lparr>threads := threads p @ [\<lparr>btd_bs = bs, btd_func = func\<rparr>]\<rparr>)
      | Transaction t \<Rightarrow> and_then (parse_transaction im bs func (a + 4) p) (\<lambda>_. returns st)
      | Reply t \<Rightarrow>
          returns (st\<lparr>ps_r := 0, ps_bio := False,
                      ps_rep := (if ps_bio st then bio_init_from_txn (ps_rep st) t else ps_rep st)\<rparr>) p
      | DeadBinder d \<Rightarrow> and_then (parse_dead_binder im bs d p) (\<lambda>_. returns st)
      | FailedReply \<Rightarrow> returns (st\<lparr>ps_r := -1\<rparr>) p
      | DeadReply \<Rightarrow> returns (st\<lparr>ps_r := -1\<rparr>) p
      | _ \<Rightarrow> returns st p)"

primrec run_brs ::
  "'g image \<Rightarrow> binder_state \<Rightarrow> addr \<Rightarrow> br list \<Rightarrow> parse_state \<Rightarrow> 'g process \<Rightarrow>
     (parse_state, 'g) outcome" where
  "run_brs im bs func [] st p = returns st p"
| "run_brs im bs func (c # cs) st p =
     and_then (run_br im bs func c st p) (run_brs im bs func cs)"

subsection \<open>Parsing an encoded sequence\<close>

definition code_of :: "br \<Rightarrow> u32" where
  "code_of c = (case c of Noop \<Rightarrow> BR_NOOP | TransactionComplete \<Rightarrow> BR_TRANSACTION_COMPLETE
     | RefCount k ptr cookie \<Rightarrow> refop_code k | SpawnLooper \<Rightarrow> BR_SPAWN_LOOPER
     | Transaction t \<Rightarrow> BR_TRANSACTION | Reply t \<Rightarrow> BR_REPLY | DeadBinder d \<Rightarrow> BR_DEAD_BINDER
     | FailedReply \<Rightarrow> BR_FAILED_REPLY | DeadReply \<Rightarrow> BR_DEAD_REPLY)"

lemma load32_le32: "load_bytes m a (length bs) = bs \<Longrightarrow> bs = le32 v @ rest \<Longrightarrow> load32 m a = v"
  by (simp add: load32_def le32_def un32_le32 add.assoc)

lemma load_code:
  assumes "load_bytes m a (length (encode_br c)) = encode_br c"
  shows "load32 m a = code_of c"
proof -
  obtain rest where "encode_br c = le32 (code_of c) @ rest"
    by (cases c) (auto simp: code_of_def)
  then show ?thesis by (rule load32_le32 [OF assms])
qed

lemma load_tail:
  assumes "load_bytes m a (length (xs @ ys)) = xs @ ys"
  shows "load_bytes m (a + of_nat (length xs)) (length ys) = ys"
proof -
  have "load_bytes m a (length xs) @ load_bytes m (a + of_nat (length xs)) (length ys) = xs @ ys"
    using assms by (simp only: length_append load_bytes_add)
  then show ?thesis by (simp del: load_bytes_numeral)
qed

lemma load_txn_payload:
  assumes "load_bytes m a 44 = le32 k @ encode_txn t"
  shows "load_txn m (a + 4) = t"
proof (rule load_txn_encode)
  have "load_bytes m a (length (le32 k @ encode_txn t)) = le32 k @ encode_txn t"
    using assms by simp
  from load_tail [OF this] show "load_bytes m (a + 4) 40 = encode_txn t"
    by (simp del: load_bytes_numeral)
qed

lemma room_after_code:
  assumes "unat (a :: addr) + 44 \<le> unat (stop :: addr)"
  shows "\<not> stop - (a + 4) < 40"
proof -
  have "unat (a + 4) = unat a + 4"
    using assms unat_addr_less [of stop] by (simp add: unat_add_nowrap)
  with assms have "40 \<le> unat (stop - (a + 4))" by (simp add: unat_diff)
  then show ?thesis by (simp add: word_less_nat_alt)
qed

lemma parse_step_encoded:
  assumes bytes: "load_bytes (pmem p) (ps_ptr st) (length (encode_br c)) = encode_br c"
    and room: "unat (ps_ptr st) + length (encode_br c) \<le> unat stop"
  shows "parse_step im bs func stop st p =
    and_then (run_br im bs func c st p) (\<lambda>st. returns (Continue st))"
proof -
  note code = load_code [OF bytes]
  note defs = parse_step_def run_br_def Let_def code code_of_def proto_values
  show ?thesis
  proof (cases c)
    case (RefCount k x y)
    then show ?thesis by (cases k) (simp_all add: defs add.assoc)
  next
    case (Transaction t)
    with room have "\<not> stop - (ps_ptr st + 4) < 40" by (simp add: room_after_code)
    with Transaction show ?thesis by (simp add: defs and_then_assoc add.assoc)
  next
    case (Reply t)
    with room have "\<not> stop - (ps_ptr st + 4) < 40" by (simp add: room_after_code)
    moreover have "load_txn (pmem p) (ps_ptr st + 4) = t"
      using bytes Reply by (intro load_txn_payload [of _ _ BR_REPLY]) simp
    ultimately show ?thesis using Reply by (simp add: defs add.assoc) (cases st, simp)
  next
    case (DeadBinder d)
    have "load_bytes (pmem p) (ps_ptr st) (length (le32 BR_DEAD_BINDER @ le32 d)) =
        le32 BR_DEAD_BINDER @ le32 d"
      using bytes DeadBinder by simp
    from load_tail [OF this] have "load32 (pmem p) (ps_ptr st + 4) = d"
      using load32_le32 [of "pmem p" "ps_ptr st + 4" "le32 d" d "[]"] by simp
    with DeadBinder show ?thesis by (simp add: defs and_then_assoc add.assoc)
  qed (simp_all add: defs)
qed

lemma run_br_ptr:
  "run_br im bs func c st p = Some (Some st', p') \<Longrightarrow>
     ps_ptr st' = ps_ptr st + of_nat (length (encode_br c))"
  by (cases c) (auto simp: run_br_def Let_def returns_def and_then_def
      split: Option.bind_splits option.splits)

text \<open>
  The whole loop, as long as running the commands keeps the bytes that are being parsed: \<open>R\<close>
  is the memory that is kept, \<open>I\<close> an invariant, which may depend on the commands to come.
\<close>

lemma parse_loop_run:
  assumes step: "\<And>c rest st p. I (c # rest) p \<Longrightarrow>
      load_bytes (pmem p) (ps_ptr st) (length (encode_br c)) = encode_br c \<Longrightarrow>
      wp (run_br im bs func c st p) (\<lambda>_ p'. I rest p' \<and> agree_on R (pmem p) (pmem p')) B"
    and bytes: "load_bytes (pmem p) (ps_ptr st) (length (encode_brs cs)) = encode_brs cs"
    and keep: "region (ps_ptr st) (length (encode_brs cs)) \<subseteq> R"
    and room: "unat (ps_ptr st) + length (encode_brs cs) < 4294967296"
    and "I cs p"
  shows "parse_loop im bs func (ps_ptr st + of_nat (length (encode_brs cs))) st p =
      and_then (run_brs im bs func cs st p) (\<lambda>st. returns (ps_r st, ps_rep st)) \<and>
    wp (run_brs im bs func cs st p) (\<lambda>_ p'. I [] p' \<and> agree_on R (pmem p) (pmem p')) B"
  using assms
proof (induction cs arbitrary: st p)
  case Nil
  then show ?case by (simp add: parse_loop.simps)
next
  case (Cons c cs)
  let ?a = "ps_ptr st" and ?n = "length (encode_br c)" and ?k = "length (encode_brs cs)"
  let ?stop = "?a + of_nat (?n + ?k)"
  have stop: "unat ?stop = unat ?a + (?n + ?k)" "unat (?a + of_nat ?n) = unat ?a + ?n"
    using Cons.prems(4) unat_add_of_nat [of ?a "?n + ?k"] unat_add_of_nat [of ?a ?n] by simp_all
  have "load_bytes (pmem p) ?a (?n + ?k) = encode_br c @ encode_brs cs"
    using Cons.prems(2) by simp
  then have "load_bytes (pmem p) ?a ?n @ load_bytes (pmem p) (?a + of_nat ?n) ?k =
      encode_br c @ encode_brs cs"
    by (simp only: load_bytes_add)
  then have bytes: "load_bytes (pmem p) ?a ?n = encode_br c"
    "load_bytes (pmem p) (?a + of_nat ?n) ?k = encode_brs cs"
    by simp_all
  have "?a < ?stop" using stop length_encode_br(1) [of c] by (simp add: word_less_nat_alt)
  then have loop: "parse_loop im bs func ?stop st p =
      and_then (run_br im bs func c st p) (\<lambda>st. parse_loop im bs func ?stop st)"
    using parse_step_encoded [OF bytes(1), of ?stop im bs func] stop
    by (subst parse_loop.simps) (simp add: and_then_assoc)
  have len: "length (encode_brs (c # cs)) = ?n + ?k" by simp
  have "wp (run_br im bs func c st p) (\<lambda>_ p'. I cs p' \<and> agree_on R (pmem p) (pmem p')) B"
    using Cons.prems(1,5) bytes(1) by simp
  then show ?case
  proof (cases rule: wp_cases)
    case (returned st' p')
    note st' = run_br_ptr [OF returned(1)]
    have sub: "region (ps_ptr st') ?k \<subseteq> region ?a (?n + ?k)"
      using stop st' by (intro region_sub) simp_all
    have bytes': "load_bytes (pmem p') (ps_ptr st') ?k = encode_brs cs"
    proof -
      have "load_bytes (pmem p') (ps_ptr st') ?k = load_bytes (pmem p) (ps_ptr st') ?k"
        using returned(2) sub Cons.prems(3,4) stop st'
        by (intro load_bytes_agree [of R]) (auto simp: no_wrap_def)
      with bytes(2) st' show ?thesis by simp
    qed
    have IH: "parse_loop im bs func (ps_ptr st' + of_nat ?k) st' p' =
        and_then (run_brs im bs func cs st' p') (\<lambda>st. returns (ps_r st, ps_rep st)) \<and>
      wp (run_brs im bs func cs st' p') (\<lambda>_ p''. I [] p'' \<and> agree_on R (pmem p') (pmem p'')) B"
      using Cons.prems(1) bytes' sub Cons.prems(3,4) stop st' returned(2) by (intro Cons.IH) auto
    have "?stop = ps_ptr st' + of_nat ?k" using st' by (simp add: add.assoc)
    with IH have rest: "parse_loop im bs func ?stop st' p' =
        and_then (run_brs im bs func cs st' p') (\<lambda>st. returns (ps_r st, ps_rep st))"
      by (simp only:)
    have "wp (run_brs im bs func cs st' p') (\<lambda>_ p''. I [] p'' \<and> agree_on R (pmem p) (pmem p'')) B"
      using IH returned(2) by (auto elim!: wp_mono intro: agree_on_trans)
    with loop returned(1) rest show ?thesis unfolding len by simp
  next
    case (waits p')
    then show ?thesis using loop unfolding len by simp
  qed
qed

lemma parse_loop_encoded:
  assumes step: "\<And>c st p. c \<in> set cs \<Longrightarrow> I p \<Longrightarrow>
      load_bytes (pmem p) (ps_ptr st) (length (encode_br c)) = encode_br c \<Longrightarrow>
      wp (run_br im bs func c st p) (\<lambda>_ p'. I p' \<and> agree_on R (pmem p) (pmem p')) B"
    and "load_bytes (pmem p) (ps_ptr st) (length (encode_brs cs)) = encode_brs cs"
    and "region (ps_ptr st) (length (encode_brs cs)) \<subseteq> R"
    and "unat (ps_ptr st) + length (encode_brs cs) < 4294967296"
    and "I p"
  shows "parse_loop im bs func (ps_ptr st + of_nat (length (encode_brs cs))) st p =
      and_then (run_brs im bs func cs st p) (\<lambda>st. returns (ps_r st, ps_rep st)) \<and>
    wp (run_brs im bs func cs st p) (\<lambda>_ p'. I p' \<and> agree_on R (pmem p) (pmem p')) B"
proof -
  let ?I = "\<lambda>rest p. set rest \<subseteq> set cs \<and> I p"
  have "wp (run_br im bs func c st p) (\<lambda>_ p'. ?I rest p' \<and> agree_on R (pmem p) (pmem p')) B"
    if "?I (c # rest) p" "load_bytes (pmem p) (ps_ptr st) (length (encode_br c)) = encode_br c" for c rest st p
    using that by (intro wp_mono [OF step]) auto
  from parse_loop_run [where I = ?I, OF this assms(2-4)] assms(5) show ?thesis by simp
qed

subsection \<open>The client's view\<close>

text \<open>The result \<open>binder_parse\<close> gives for a sequence: the last reply or failure decides. The
  reply is the first one.\<close>

primrec call_status :: "br list \<Rightarrow> int \<Rightarrow> int" where
  "call_status [] r = r"
| "call_status (c # cs) r = call_status cs
     (case c of Reply t \<Rightarrow> 0 | FailedReply \<Rightarrow> -1 | DeadReply \<Rightarrow> -1 | _ \<Rightarrow> r)"

primrec first_reply :: "br list \<Rightarrow> binder_transaction_data option" where
  "first_reply [] = None"
| "first_reply (c # cs) = (case c of Reply t \<Rightarrow> Some t | _ \<Rightarrow> first_reply cs)"

definition loopers :: "br list \<Rightarrow> nat" where
  "loopers cs = length (filter (\<lambda>c. c = SpawnLooper) cs)"

fun not_dead_binder :: "br \<Rightarrow> bool" where
  "not_dead_binder (DeadBinder d) = False"
| "not_dead_binder c = True"

definition reply_after :: "br list \<Rightarrow> binder_io \<Rightarrow> binder_io" where
  "reply_after cs rep =
     (case first_reply cs of None \<Rightarrow> rep | Some t \<Rightarrow> bio_init_from_txn rep t)"

lemma run_brs_client:
  assumes "\<forall>c\<in>set cs. not_dead_binder c"
  shows "run_brs im bs NULL cs st p =
    returns (st\<lparr>ps_ptr := ps_ptr st + of_nat (length (encode_brs cs)),
                ps_r := call_status cs (ps_r st),
                ps_bio := ps_bio st \<and> first_reply cs = None,
                ps_rep := (if ps_bio st then reply_after cs (ps_rep st) else ps_rep st)\<rparr>)
      (p\<lparr>threads := threads p @ replicate (loopers cs) \<lparr>btd_bs = bs, btd_func = NULL\<rparr>\<rparr>)"
  using assms
proof (induction cs arbitrary: st p)
  case Nil
  then show ?case by (cases st) (simp add: reply_after_def loopers_def)
next
  case (Cons c cs)
  then show ?case
    by (cases c; cases st)
      (simp_all add: run_br_def Let_def parse_transaction_def reply_after_def loopers_def add.assoc)
qed

text \<open>Commands that do not touch memory keep the buffer.\<close>

lemma client_steps:
  assumes "\<forall>c\<in>set cs. not_dead_binder c" and "c \<in> set cs"
  shows "wp (run_br im bs NULL c st p) (\<lambda>_ p'. True \<and> agree_on R (pmem p) (pmem p')) (\<lambda>_. True)"
  using assms by (cases c) (auto simp: run_br_def Let_def parse_transaction_def)

lemma binder_parse_client_run:
  assumes "load_bytes (pmem p) ptr (length (encode_brs cs)) = encode_brs cs"
    and "unat ptr + length (encode_brs cs) < 4294967296"
    and "\<forall>c\<in>set cs. not_dead_binder c"
  shows "binder_parse im bs (Some rep) ptr (of_nat (length (encode_brs cs))) NULL p =
    returns (call_status cs 1, reply_after cs rep)
      (p\<lparr>threads := threads p @ replicate (loopers cs) \<lparr>btd_bs = bs, btd_func = NULL\<rparr>\<rparr>)"
proof -
  let ?st = "\<lparr>ps_ptr = ptr, ps_r = 1, ps_bio = True, ps_rep = rep\<rparr>"
  have "parse_loop im bs NULL (ps_ptr ?st + of_nat (length (encode_brs cs))) ?st p =
      and_then (run_brs im bs NULL cs ?st p) (\<lambda>st. returns (ps_r st, ps_rep st))"
    using parse_loop_encoded [where I = "\<lambda>_. True" and R = UNIV and B = "\<lambda>_. True" and st = ?st
        and p = p and cs = cs and im = im and bs = bs and func = NULL, OF client_steps [OF assms(3)]]
      assms(1,2) by simp
  then show ?thesis
    by (simp add: binder_parse_def run_brs_client [OF assms(3)])
qed

subsection \<open>A concrete kernel\<close>

text \<open>It answers every read with a completed transaction and a reply, and every write with
  success.\<close>

definition example_reply_txn :: binder_transaction_data where
  "example_reply_txn = \<lparr>txn_target = 0, txn_cookie = 0, txn_code = 0, txn_flags = 0,
     txn_sender_pid = 0, txn_sender_euid = 0, txn_data_size = 4, txn_offsets_size = 0,
     txn_buffer = 0x80000, txn_offsets = 0\<rparr>"

definition example_answer :: "br list \<Rightarrow> (addr \<times> byte list) list \<Rightarrow> answer" where
  "example_answer cs ds = \<lparr>ans_ret = 0, ans_version = 7, ans_addr = 0x80000, ans_write_consumed = 0,
     ans_read = encode_brs cs, ans_deliver = ds\<rparr>"

fun example_kernel_step :: "request \<Rightarrow> answer" where
  "example_kernel_step (WriteRead d bwr m) =
     (if read_size bwr = 128
      then example_answer [Noop, TransactionComplete, Reply example_reply_txn] [(0x80000, le32 9)]
      else example_answer [] [])"
| "example_kernel_step rq = (example_answer [] [])\<lparr>ans_ret := 3\<rparr>"

definition example_image :: "unit image" where
  "example_image = \<lparr>loop_readbuf = 0x1000, call_readbuf = 0x2000, parse_rdata = 0x3000,
     reply_status = 0x4000, caller_iodata = 0x5000, junk_txn = example_reply_txn,
     junk_io = zero_io, handler_code = (\<lambda>_. None), death_code = (\<lambda>_. None),
     kernel = (\<lambda>h. example_kernel_step (last h)), allocator = (\<lambda>bl n. 0x100000)\<rparr>"

definition example_process :: "unit process" where
  "example_process = \<lparr>pmem = (\<lambda>_. 0), blocks = [], requests = [], budget = 5, threads = [],
     globals = ()\<rparr>"

definition example_bs :: binder_state where
  "example_bs = \<lparr>bs_at = 0x100000, fd = 3, mapped = 0x80000, mapsize = 0x20000\<rparr>"

subsection \<open>Properties\<close>

text \<open>C13: whatever sequence of return commands without \<open>BR_DEAD_BINDER\<close> the driver puts in the read
  buffer of a client (which never asks for death notifications; that command calls a function
  through a pointer in the message), \<open>binder_parse\<close> returns: its
  result is that of the last reply or failure, 1 if there was none, the reply structure is set
  from the first reply, and nothing but requested threads changes.\<close>
theorem binder_parse_client:
  assumes "load_bytes (pmem p) ptr (length (encode_brs cs)) = encode_brs cs"
    and "unat ptr + length (encode_brs cs) < 4294967296"
    and "\<forall>c\<in>set cs. not_dead_binder c"
  shows "binder_parse im bs (Some rep) ptr (of_nat (length (encode_brs cs))) NULL p =
    returns (call_status cs 1, reply_after cs rep)
      (p\<lparr>threads := threads p @ replicate (loopers cs) \<lparr>btd_bs = bs, btd_func = NULL\<rparr>\<rparr>)"
  by (rule binder_parse_client_run [OF assms])

definition example_parse_process :: "unit process" where
  "example_parse_process = example_process\<lparr>pmem :=
     store_bytes (\<lambda>_. 0) 0x2000 (encode_brs [Noop, SpawnLooper, FailedReply])\<rparr>"

theorem binder_parse_client_witness:
  "binder_parse example_image example_bs (Some zero_io) 0x2000 12 NULL example_parse_process =
     returns (-1, zero_io) (example_parse_process\<lparr>threads := [\<lparr>btd_bs = example_bs, btd_func = NULL\<rparr>]\<rparr>)"
proof -
  let ?cs = "[Noop, SpawnLooper, FailedReply]"
  have "load_bytes (pmem example_parse_process) 0x2000 (length (encode_brs ?cs)) = encode_brs ?cs"
    using load_bytes_store_same [of "0x2000" "encode_brs ?cs" "\<lambda>_. 0"]
    by (simp add: example_parse_process_def no_wrap_def)
  from binder_parse_client [OF this, of example_image example_bs zero_io] show ?thesis
    by (simp add: reply_after_def loopers_def example_parse_process_def example_process_def)
qed

subsection \<open>The parser and the protocol header\<close>

lemma and_then_value:
  "and_then m f = Some (Some v, q) \<longleftrightarrow> (\<exists>x r. m = Some (Some x, r) \<and> f x r = Some (Some v, q))"
  by (auto simp: and_then_def split: Option.bind_splits option.splits)

lemma returns_value: "returns x p = Some (Some v, q) \<longleftrightarrow> x = v \<and> p = q"
  by (auto simp: returns_def)

lemma protocol_distinct: "distinct (binder_driver_return_protocol @ binder_driver_command_protocol)"
  by (simp add: binder_driver_return_protocol_def binder_driver_command_protocol_def proto_values)

text \<open>The codes the parser does not know.\<close>

definition unparsed :: "u32 list" where
  "unparsed = [BR_ERROR, BR_OK, BR_ACQUIRE_RESULT, BR_ATTEMPT_ACQUIRE, BR_FINISHED,
     BR_CLEAR_DEATH_NOTIFICATION_DONE]"

definition example_state :: parse_state where
  "example_state = \<lparr>ps_ptr = 0x2000, ps_r = 1, ps_bio = True, ps_rep = zero_io\<rparr>"
definition example_read :: "u32 \<Rightarrow> unit process" where
  "example_read cmd = example_process\<lparr>pmem := store32 (\<lambda>_. 0) 0x2000 cmd\<rparr>"

lemma example_read: "cmd = load32 (pmem (example_read cmd)) (ps_ptr example_state)"
  by (simp add: example_read_def example_state_def)

text \<open>C14: one step of \<open>binder_parse\<close> follows the protocol header: when it goes on, the command was
  one of the return codes, not one of the six it does not know, and it has moved behind the code
  and exactly the payload whose size the code carries in its bits 16 to 29; the six others, and
  every number that is no return code, end the parse with -1 and change nothing.\<close>
theorem parse_step_follows_header:
  assumes "cmd = load32 (pmem p) (ps_ptr st)"
  shows "(\<forall>st' p'. parse_step im bs func stop st p = Some (Some (Continue st'), p') \<longrightarrow>
      cmd \<in> set binder_driver_return_protocol - set unparsed \<and>
      ps_ptr st' = ps_ptr st + 4 + ioc_size cmd) \<and>
    (cmd \<in> set unparsed \<or> cmd \<notin> set binder_driver_return_protocol \<longrightarrow>
      parse_step im bs func stop st p = returns (Return (-1) (ps_rep st)) p)"
proof -
  note codes = binder_driver_return_protocol_def unparsed_def proto_values
  have "cmd \<in> set binder_driver_return_protocol - set unparsed \<and> ps_ptr st' = ps_ptr st + 4 + ioc_size cmd"
    if "parse_step im bs func stop st p = Some (Some (Continue st'), p')" for st' p'
    using that unfolding parse_step_def Let_def assms [symmetric]
    by (auto simp: codes ioc_size_def and_then_value returns_value split: if_splits)
  moreover have "parse_step im bs func stop st p = returns (Return (-1) (ps_rep st)) p"
    if "cmd \<in> set unparsed \<or> cmd \<notin> set binder_driver_return_protocol"
    using that unfolding parse_step_def Let_def assms [symmetric] by (auto simp: codes)
  ultimately show ?thesis by blast
qed

definition example_step :: "u32 \<Rightarrow> (parse_next, unit) outcome" where
  "example_step cmd = parse_step example_image example_bs NULL 0x2100
     \<lparr>ps_ptr = 0x2000, ps_r = 1, ps_bio = True, ps_rep = zero_io\<rparr>
     (example_process\<lparr>pmem := store32 (\<lambda>_. 0) 0x2000 cmd\<rparr>)"

theorem parse_step_follows_header_witness:
  "(\<exists>st' p'. parse_step example_image example_bs NULL 0x2100 example_state (example_read BR_ACQUIRE) =
       Some (Some (Continue st'), p') \<and> ps_ptr st' = 0x200C) \<and>
   parse_step example_image example_bs NULL 0x2100 example_state (example_read BR_FINISHED) =
     returns (Return (-1) zero_io) (example_read BR_FINISHED)"
proof -
  have "BR_FINISHED \<in> set unparsed" by (simp add: unparsed_def)
  moreover have "ps_ptr example_state + 4 + ioc_size BR_ACQUIRE = 0x200C"
    by (simp add: example_state_def ioc_size_def proto_values)
  moreover have "ps_rep example_state = zero_io" by (simp add: example_state_def)
  moreover have "\<exists>st' p'. parse_step example_image example_bs NULL 0x2100 example_state (example_read BR_ACQUIRE) =
      Some (Some (Continue st'), p')"
    by (simp only: parse_step_def Let_def example_read [symmetric]) (simp add: proto_values returns_def)
  moreover note parse_step_follows_header [OF example_read [of BR_ACQUIRE], of example_image example_bs NULL "0x2100"]
    parse_step_follows_header [OF example_read [of BR_FINISHED], of example_image example_bs NULL "0x2100"]
  ultimately show ?thesis by metis
qed
end
