(* ===== verification/Bio_Write.thy ===== *)
theory Bio_Write
  imports Bio
begin

text \<open>
  What the writers of \<^theory_text>\<open>Bio\<close> guarantee: \<open>bio_inv\<close>, the shape of a buffer set up by
  \<open>bio_init\<close> (offset entries from \<open>lo\<close> to \<open>mid\<close>, data from \<open>mid\<close> to \<open>hi\<close>); \<open>bio_ext\<close>, one
  state of a buffer followed by a later one, which says that writers stay inside the free
  space and never lose the overflow mark; and the locale \<open>bio_appender\<close>, the contract that
  every \<open>bio_put\<close> operation meets and that clients composing puts rely on.
\<close>

named_theorems bio_simps

subsection \<open>Alignment\<close>

lemma and_not3: "(x :: u32) AND NOT 3 = push_bit 2 (drop_bit 2 x)"
proof (rule bit_word_eqI)
  fix n
  assume n: "n < LENGTH(32)"
  have "bit (3 :: u32) n \<longleftrightarrow> n < 2"
    using bit_mask_iff [where 'a = u32, of 2 n] n by (simp add: mask_eq_exp_minus_1)
  moreover have "n < 2 \<or> (\<exists>k. n = k + 2)"
    by (metis add.commute le_Suc_ex not_less)
  ultimately show "bit (x AND NOT 3) n = bit (push_bit 2 (drop_bit 2 x)) n"
    using n by (auto simp: bit_simps)
qed

lemma unat_align4: "unat (align4 sz) = (unat sz + 3) mod 4294967296 div 4 * 4"
proof -
  have shift: "unat (push_bit 2 (drop_bit 2 x)) = unat x div 4 * 4" for x :: u32
  proof -
    have "unat x div 4 * 4 < 4294967296"
      using unat_addr_less [of x] by presburger
    then show ?thesis
      by (simp add: unsigned_push_bit_eq unsigned_drop_bit_eq take_bit_eq_mod
          push_bit_eq_mult drop_bit_eq_div mult.commute unat_word_ariths unat_div)
  qed
  have "unat (sz + 3) = (unat sz + 3) mod 4294967296"
    by (simp add: unat_word_ariths)
  with shift [of "sz + 3"] show ?thesis
    unfolding align4_def and_not3 by simp
qed

lemma align4_small: "unat sz + 3 < 4294967296 \<Longrightarrow> unat (align4 sz) = (unat sz + 3) div 4 * 4"
  by (simp add: unat_align4)

lemma align4_consts [simp]: "align4 4 = 4" "align4 16 = 16"
  by (simp_all add: align4_def)

lemma align4_ge: "unat sz + 3 < 4294967296 \<Longrightarrow> unat sz \<le> unat (align4 sz)"
  unfolding align4_small by presburger

subsection \<open>The overflow mark\<close>

definition overflowed :: "binder_io \<Rightarrow> bool" where
  "overflowed bio \<longleftrightarrow> io_flags bio AND BIO_F_OVERFLOW \<noteq> 0"

lemma overflowed_bit: "overflowed bio \<longleftrightarrow> bit (io_flags bio) 1"
proof -
  have "io_flags bio AND 2 = (if bit (io_flags bio) 1 then 2 else 0)"
    using and_exp_eq_0_iff_not_bit [of "io_flags bio" 1]
    by (auto intro!: bit_word_eqI simp: bit_simps bit_2_iff)
  then show ?thesis by (simp add: overflowed_def BIO_F_OVERFLOW_def)
qed

lemma overflowed_set [simp]: "overflowed (set_overflow bio)"
  by (simp add: overflowed_bit set_overflow_def BIO_F_OVERFLOW_def bit_simps bit_2_iff)

lemma set_overflow_fields [simp]:
  "io_data (set_overflow bio) = io_data bio" "io_offs (set_overflow bio) = io_offs bio"
  "io_data_avail (set_overflow bio) = io_data_avail bio"
  "io_offs_avail (set_overflow bio) = io_offs_avail bio"
  "io_data0 (set_overflow bio) = io_data0 bio" "io_offs0 (set_overflow bio) = io_offs0 bio"
  by (simp_all add: set_overflow_def)

subsection \<open>The buffer invariant\<close>

text \<open>The offset table is a whole number of entries.\<close>

definition whole_entries :: "nat \<Rightarrow> nat \<Rightarrow> bool" where
  "whole_entries lo mid \<longleftrightarrow> 4 dvd (mid - lo)"

definition bio_inv :: "nat \<Rightarrow> nat \<Rightarrow> nat \<Rightarrow> binder_io \<Rightarrow> bool" where
  "bio_inv lo mid hi bio \<longleftrightarrow>
     0 < lo \<and> lo \<le> mid \<and> whole_entries lo mid \<and> hi < 4294967296 \<and> unat (io_offs0 bio) = lo \<and> unat (io_data0 bio) = mid \<and>
     lo \<le> unat (io_offs bio) \<and> unat (io_offs bio) + 4 * unat (io_offs_avail bio) = mid \<and>
     mid \<le> unat (io_data bio) \<and> unat (io_data bio) + unat (io_data_avail bio) = hi"

text \<open>What is still free: the rest of the data and the unused offset entries.\<close>

definition bio_free :: "binder_io \<Rightarrow> addr set" where
  "bio_free bio =
     region (io_data bio) (unat (io_data_avail bio)) \<union>
     region (io_offs bio) (4 * unat (io_offs_avail bio))"

lemma bio_init_fits:
  assumes "4 * unat maxoffs \<le> unat maxdata"
  shows "unat (maxoffs * sizeof_size_t) = 4 * unat maxoffs" and "\<not> maxdata < maxoffs * sizeof_size_t"
proof -
  show n: "unat (maxoffs * sizeof_size_t) = 4 * unat maxoffs"
    using assms unat_addr_less [of maxdata] by (simp add: sizeof_size_t_def unat_word_ariths)
  with assms show "\<not> maxdata < maxoffs * sizeof_size_t"
    by (simp add: word_less_nat_alt)
qed

lemma bio_init_inv:
  assumes "0 < unat dat" and "unat dat + unat maxdata < 4294967296"
    and "4 * unat maxoffs \<le> unat maxdata"
  shows "bio_inv (unat dat) (unat dat + 4 * unat maxoffs) (unat dat + unat maxdata)
           (bio_init bio dat maxdata maxoffs)"
proof -
  note n = bio_init_fits(1) [OF assms(3)] and le = bio_init_fits(2) [OF assms(3)]
  from assms n have "unat (dat + maxoffs * sizeof_size_t) = unat dat + 4 * unat maxoffs"
    by (simp add: unat_add_nowrap)
  moreover from le n have "unat (maxdata - maxoffs * sizeof_size_t) = unat maxdata - 4 * unat maxoffs"
    by (simp add: unat_sub linorder_not_less)
  ultimately show ?thesis
    using assms le by (simp add: bio_init_def bio_inv_def whole_entries_def Let_def)
qed

lemma bio_inv_nonnull: "bio_inv lo mid hi bio \<Longrightarrow> io_data bio \<noteq> NULL"
  by (auto simp: bio_inv_def)

subsection \<open>A buffer and a later state of it\<close>

fun bio_ext :: "binder_io \<times> mem \<Rightarrow> binder_io \<times> mem \<Rightarrow> bool" where
  "bio_ext (b, m) (b', m') \<longleftrightarrow>
     io_data0 b' = io_data0 b \<and> io_offs0 b' = io_offs0 b \<and>
     unat (io_data b) \<le> unat (io_data b') \<and>
     unat (io_data b') + unat (io_data_avail b') = unat (io_data b) + unat (io_data_avail b) \<and>
     unat (io_offs b) \<le> unat (io_offs b') \<and>
     unat (io_offs b') + 4 * unat (io_offs_avail b') =
       unat (io_offs b) + 4 * unat (io_offs_avail b) \<and>
     (overflowed b \<longrightarrow> overflowed b') \<and> agree_on (- bio_free b) m m'"

lemma bio_ext_refl [simp, intro]: "bio_ext s s"
  by (cases s) simp

lemma bio_ext_free: "bio_ext (b, m) (b', m') \<Longrightarrow> bio_free b' \<subseteq> bio_free b"
  unfolding bio_free_def by (intro Un_mono region_sub) auto

lemma bio_ext_trans [trans]:
  assumes "bio_ext s s'" and "bio_ext s' s''"
  shows "bio_ext s s''"
proof -
  obtain b m b' m' b'' m'' where s: "s = (b, m)" "s' = (b', m')" "s'' = (b'', m'')"
    by (cases s, cases s', cases s'') auto
  from assms(1) s have sub: "- bio_free b \<subseteq> - bio_free b'"
    using bio_ext_free by blast
  from assms(2) s have "agree_on (- bio_free b') m' m''" by simp
  then have "agree_on (- bio_free b) m' m''" using sub by (rule agree_on_mono)
  with assms s show ?thesis by (auto intro: agree_on_trans)
qed

lemma bio_ext_inv: "bio_inv lo mid hi b \<Longrightarrow> bio_ext (b, m) (b', m') \<Longrightarrow> bio_inv lo mid hi b'"
  by (auto simp: bio_inv_def)

text \<open>Nothing outside the buffer, and nothing already written, changes.\<close>

lemma bio_free_inside:
  "bio_inv lo mid hi b \<Longrightarrow> x \<in> bio_free b \<Longrightarrow> lo \<le> unat x \<and> unat x < hi"
  by (auto simp: bio_inv_def bio_free_def in_region)

lemma bio_ext_overflow: "bio_ext (b, m) (set_overflow b, m)"
  by simp

lemma bio_ext_advance:
  assumes "unat sz \<le> unat (io_data_avail b)" and "bio_inv lo mid hi b"
    and "agree_on (- bio_free b) m m'"
  shows "bio_ext (b, m)
    (b\<lparr>io_data := io_data b + sz, io_data_avail := io_data_avail b - sz\<rparr>, m')"
  using assms
  by (simp add: bio_inv_def unat_add_nowrap unat_sub word_le_nat_alt overflowed_def)

lemma bio_ext_agree: "bio_ext (b, m) (b', m') \<Longrightarrow> agree_on (- bio_free b) m m'"
  by simp

lemma bio_ext_sticky: "bio_ext (b, m) (b', m') \<Longrightarrow> overflowed b \<Longrightarrow> overflowed b'"
  by simp

declare bio_ext.simps [simp del] bio_ext_overflow [simp]

subsection \<open>Allocation and the fixed-size writers\<close>

abbreviation bio_advance :: "binder_io \<Rightarrow> u32 \<Rightarrow> binder_io" where
  "bio_advance b sz \<equiv> b\<lparr>io_data := io_data b + sz, io_data_avail := io_data_avail b - sz\<rparr>"

lemma bio_alloc_fits:
  "unat (align4 sz) \<le> unat (io_data_avail b) \<Longrightarrow>
     bio_alloc b sz = (io_data b, bio_advance b (align4 sz))"
  by (simp add: bio_alloc_def Let_def word_less_nat_alt)

lemma bio_alloc_full:
  "unat (io_data_avail b) < unat (align4 sz) \<Longrightarrow> bio_alloc b sz = (NULL, set_overflow b)"
  by (simp add: bio_alloc_def Let_def word_less_nat_alt)

lemma agree_on_free_store:
  assumes "bio_inv lo mid hi b" and "length bs \<le> unat (io_data_avail b)"
  shows "agree_on (- bio_free b) m (store_bytes m (io_data b) bs)"
proof (rule agree_on_store_bytes)
  from assms show "no_wrap (io_data b) (length bs)"
    by (simp add: bio_inv_def no_wrap_def)
  from assms(2) have "region (io_data b) (length bs) \<subseteq> bio_free b"
    unfolding bio_free_def by (intro le_supI1 region_sub) auto
  then show "- bio_free b \<inter> region (io_data b) (length bs) = {}" by blast
qed

lemma put_uint32_fits:
  "bio_inv lo mid hi b \<Longrightarrow> 4 \<le> unat (io_data_avail b) \<Longrightarrow>
     bio_put_uint32 n (b, m) = (bio_advance b 4, store32 m (io_data b) n)"
  by (simp add: bio_put_uint32_def bio_alloc_fits bio_inv_nonnull)

lemma put_uint32_full:
  "unat (io_data_avail b) < 4 \<Longrightarrow> bio_put_uint32 n (b, m) = (set_overflow b, m)"
  by (simp add: bio_put_uint32_def bio_alloc_full)

lemma put_uint32_ext: "bio_inv lo mid hi b \<Longrightarrow> bio_ext (b, m) (bio_put_uint32 n (b, m))"
proof (cases "4 \<le> unat (io_data_avail b)")
  case True
  assume inv: "bio_inv lo mid hi b"
  then have "agree_on (- bio_free b) m (store32 m (io_data b) n)"
    unfolding store32_def using True by (intro agree_on_free_store) auto
  with inv True show ?thesis
    by (simp only: put_uint32_fits) (intro bio_ext_advance, simp_all)
next
  case False
  then show ?thesis by (simp only: put_uint32_full not_le bio_ext_overflow)
qed

subsection \<open>Objects\<close>

lemma store_obj_agree:
  assumes "no_wrap p 16" and "unat p + 16 < 4294967296"
  shows "agree_on (- region p 16) m (store_obj m p ty h)"
proof -
  have "agree_on (- region p 16) m' (store32 m' q v)"
    if "unat p \<le> unat q" and "unat q + 4 \<le> unat p + 16" for m' q v
    using that assms by (intro agree_on_store32) (auto simp: no_wrap_def in_region)
  note step = this
  show ?thesis
    unfolding store_obj_def Let_def using assms(2)
    by (intro agree_on_trans [OF agree_on_trans [OF agree_on_trans [OF step step] step] step])
      (simp_all add: unat_add_nowrap)
qed

lemma load_obj_store_obj:
  assumes "unat p + 16 < 4294967296"
  shows "load_obj (store_obj m p ty h) p =
    \<lparr>fbo_type = ty, fbo_flags = 0x7f OR FLAT_BINDER_FLAG_ACCEPTS_FDS, fbo_handle = h,
     fbo_cookie = 0\<rparr>"
proof -
  have other: "load32 (store32 m' a v) b = load32 m' b"
    if "unat a + 4 \<le> unat b \<or> unat b + 4 \<le> unat a" and "unat a + 4 < 4294967296"
      and "unat b + 4 < 4294967296" for m' a b v
    using that by (intro load32_store32_other) (auto simp: no_wrap_def in_region)
  show ?thesis
    using assms by (simp add: load_obj_def store_obj_def Let_def other unat_add_nowrap)
qed

lemma set_overflow_idem [simp]: "set_overflow (set_overflow b) = set_overflow b"
  by (simp add: set_overflow_def or.assoc)

lemma alloc_obj_fits:
  "bio_inv lo mid hi b \<Longrightarrow> 16 \<le> unat (io_data_avail b) \<Longrightarrow> io_offs_avail b \<noteq> 0 \<Longrightarrow>
     bio_alloc_obj b m =
       (io_data b,
        (bio_advance b 16)\<lparr>io_offs_avail := io_offs_avail b - 1, io_offs := io_offs b + 4\<rparr>,
        store32 m (io_offs b) (io_data b - io_data0 b))"
  by (simp add: bio_alloc_obj_def bio_alloc_fits proto_values bio_inv_nonnull)

lemma alloc_obj_no_data:
  "unat (io_data_avail b) < 16 \<Longrightarrow> bio_alloc_obj b m = (NULL, set_overflow b, m)"
  by (simp add: bio_alloc_obj_def bio_alloc_full proto_values)

lemma alloc_obj_no_offs:
  "16 \<le> unat (io_data_avail b) \<Longrightarrow> io_offs_avail b = 0 \<Longrightarrow>
     bio_alloc_obj b m = (NULL, set_overflow (bio_advance b 16), m)"
  by (simp add: bio_alloc_obj_def bio_alloc_fits proto_values)

lemma bio_ext_mem:
  "bio_ext (b, m) (b', m') \<Longrightarrow> agree_on (- bio_free b) m' m'' \<Longrightarrow> bio_ext (b, m) (b', m'')"
  by (auto simp: bio_ext.simps intro: agree_on_trans)

lemma bio_ext_set_overflow: "bio_ext s (b', m') \<Longrightarrow> bio_ext s (set_overflow b', m')"
  by (rule bio_ext_trans [OF _ bio_ext_overflow])

lemma alloc_obj_ext:
  assumes inv: "bio_inv lo mid hi b" and alloc: "bio_alloc_obj b m = (p, b', m')"
  shows "bio_ext (b, m) (b', m')"
proof (cases "16 \<le> unat (io_data_avail b)")
  case False
  with alloc show ?thesis by (auto simp: alloc_obj_no_data)
next
  case True
  then have adv: "bio_ext (b, m) (bio_advance b 16, m)"
    using inv by (intro bio_ext_advance) auto
  show ?thesis
  proof (cases "io_offs_avail b = 0")
    case True
    with \<open>16 \<le> _\<close> alloc adv show ?thesis
      by (auto simp: alloc_obj_no_offs intro: bio_ext_set_overflow)
  next
    case False
    then have pos: "1 \<le> unat (io_offs_avail b)" by (simp add: Suc_le_eq unat_gt_0)
    with inv have reg: "region (io_offs b) 4 \<subseteq> bio_free b" "no_wrap (io_offs b) 4"
      unfolding bio_free_def by (intro le_supI2 region_sub, auto simp: bio_inv_def no_wrap_def)
    have "agree_on (- bio_free b) m (store32 m (io_offs b) (io_data b - io_data0 b))"
      using reg by (intro agree_on_store32) auto
    moreover have "unat (io_offs_avail b - 1) = unat (io_offs_avail b) - 1"
      using False by (simp add: unat_minus_one)
    moreover have "unat (io_offs b + 4) = unat (io_offs b) + 4"
      using inv pos by (simp add: bio_inv_def unat_add_nowrap)
    ultimately show ?thesis
      using \<open>16 \<le> _\<close> False inv adv alloc pos by (auto simp: bio_ext.simps alloc_obj_fits overflowed_def)
  qed
qed

text \<open>Where an object is written: the 16 bytes at the old end of the data.\<close>

lemma alloc_obj_ptr:
  assumes "bio_inv lo mid hi b" and "bio_alloc_obj b m = (p, b', m')" and "p \<noteq> NULL"
  shows "p = io_data b" and "region p 16 \<subseteq> bio_free b" and "unat p + 16 < 4294967296"
proof -
  have av: "16 \<le> unat (io_data_avail b)"
    using assms(2,3) by (auto simp: not_le alloc_obj_no_data intro: ccontr)
  moreover have "io_offs_avail b \<noteq> 0"
    using av assms(2,3) by (auto simp: alloc_obj_no_offs)
  ultimately show p: "p = io_data b"
    using assms(1,2) by (simp add: alloc_obj_fits)
  show "region p 16 \<subseteq> bio_free b"
    unfolding p bio_free_def using av by (intro le_supI1 region_sub) auto
  show "unat p + 16 < 4294967296"
    using assms(1) av by (simp add: p bio_inv_def)
qed

lemma put_object_ext:
  assumes "bio_ext (b, m) (b', m')"
    and "p \<noteq> NULL \<Longrightarrow> region p 16 \<subseteq> bio_free b \<and> unat p + 16 < 4294967296"
  shows "bio_ext (b, m) (if p = NULL then (b', m') else (b', store_obj m' p ty h))"
proof (cases "p = NULL")
  case True
  with assms(1) show ?thesis by simp
next
  case False
  then have "agree_on (- region p 16) m' (store_obj m' p ty h)"
    using assms(2) by (intro store_obj_agree) (auto simp: no_wrap_def)
  then have "agree_on (- bio_free b) m' (store_obj m' p ty h)"
    using assms(2) False by (elim agree_on_mono) auto
  with assms(1) False show ?thesis by (simp add: bio_ext_mem)
qed

lemma put_obj_ext:
  assumes inv: "bio_inv lo mid hi b"
  shows "bio_ext (b, m) (bio_put_obj ptr (b, m))"
proof -
  obtain p b' m' where alloc: "bio_alloc_obj b m = (p, b', m')" by (cases "bio_alloc_obj b m") auto
  from alloc_obj_ext [OF inv alloc] alloc_obj_ptr [OF inv alloc]
  show ?thesis
    by (simp add: bio_put_obj_def alloc put_object_ext)
qed

lemma put_ref_ext:
  assumes inv: "bio_inv lo mid hi b"
  shows "bio_ext (b, m) (bio_put_ref h (b, m))"
proof (cases "h = 0")
  case False
  obtain p b' m' where alloc: "bio_alloc_obj b m = (p, b', m')" by (cases "bio_alloc_obj b m") auto
  from alloc_obj_ext [OF inv alloc] alloc_obj_ptr [OF inv alloc] False
  show ?thesis
    by (simp add: bio_put_ref_def alloc put_object_ext)
next
  case True
  show ?thesis
  proof (cases "16 \<le> unat (io_data_avail b)")
    case fits: True
    then have "bio_ext (b, m) (bio_advance b 16, m)"
      using inv by (intro bio_ext_advance) auto
    moreover have "region (io_data b) 16 \<subseteq> bio_free b"
      unfolding bio_free_def using fits by (intro le_supI1 region_sub) auto
    moreover have "unat (io_data b) + 16 < 4294967296"
      using inv fits by (simp add: bio_inv_def)
    ultimately have "bio_ext (b, m) (if io_data b = NULL then (bio_advance b 16, m)
        else (bio_advance b 16, store_obj m (io_data b) BINDER_TYPE_HANDLE h))"
      by (intro put_object_ext) auto
    with True fits show ?thesis
      by (simp add: bio_put_ref_def bio_alloc_fits sizeof_values bio_inv_nonnull [OF inv]
         )
  next
    case False
    with True show ?thesis
      by (simp add: bio_put_ref_def bio_alloc_full proto_values)
  qed
qed

subsection \<open>Strings\<close>

text \<open>The two length loops return on a terminated string.\<close>

lemma c_strlen_cstr:
  assumes "cstr m (a + n) s"
  shows "c_strlen m a n = Some (n + of_nat (length s))"
  using assms
proof (induction s arbitrary: n)
  case Nil
  then show ?case by (simp add: c_strlen.simps)
next
  case (Cons c s)
  then have "m (a + n) \<noteq> 0" and "cstr m (a + (n + 1)) s" by (simp_all add: add.assoc)
  with Cons.IH [of "n + 1"] show ?case
    by (simp add: c_strlen.simps [of m a n] algebra_simps)
qed

lemma str16_len_cstr16:
  assumes "cstr16 m (a + 2 * n) s"
  shows "str16_len m a n = Some (n + of_nat (length s))"
  using assms
proof (induction s arbitrary: n)
  case Nil
  then show ?case by (simp add: str16_len.simps)
next
  case (Cons c s)
  then have "load16 m (a + 2 * n) \<noteq> 0" and "cstr16 m (a + 2 * (n + 1)) s"
    by (simp_all add: algebra_simps)
  with Cons.IH [of "n + 1"] show ?case
    by (simp add: str16_len.simps [of m a n] algebra_simps)
qed

text \<open>The bytes of a zero-terminated 16-bit string made of \<open>char\<close>s.\<close>

definition enc16 :: "u16 list \<Rightarrow> byte list" where
  "enc16 us = concat (map le16 us)"

lemma enc16_simps [simp]: "enc16 [] = []" "enc16 (u # us) = le16 u @ enc16 us"
  by (simp_all add: enc16_def)

lemma length_enc16 [simp]: "length (enc16 us) = 2 * length us"
  by (induction us) auto

lemma load_u16s_enc16: "load_bytes m a (2 * length us) = enc16 us \<Longrightarrow> load_u16s m a (length us) = us"
proof (induction us arbitrary: a)
  case (Cons u us)
  then have "m a # m (a + 1) # load_bytes m (a + 2) (2 * length us) = le16 u @ enc16 us"
    by (simp add: add.assoc)
  with Cons.IH [of "a + 2"] show ?case
    by (simp add: load16_def le16_def un16_le16)
qed simp

lemma enc16_load_u16s: "enc16 (load_u16s m a n) = load_bytes m a (2 * n)"
  by (induction n arbitrary: a) (simp_all add: load16_def le16_un16 add.assoc)

lemma widen_copy_cstr:
  assumes "cstr m str s" and "no_wrap str (Suc (length s))"
    and "no_wrap ptr (2 * Suc (length s))"
    and "region str (Suc (length s)) \<inter> region ptr (2 * Suc (length s)) = {}"
  shows "widen_copy m ptr str = Some (store_bytes m ptr (enc16 (map ucast s @ [0])))"
  using assms
proof (induction s arbitrary: m ptr str)
  case Nil
  then show ?case by (simp add: widen_copy.simps store16_def)
next
  case (Cons c s)
  let ?m = "store16 m ptr (ucast c)"
  from Cons.prems have u: "unat (str + 1) = unat str + 1" "unat (ptr + 2) = unat ptr + 2"
    by (simp_all add: no_wrap_def unat_add_nowrap)
  have sub: "region (str + 1) (Suc (length s)) \<subseteq> region str (Suc (length (c # s)))"
    "region (ptr + 2) (2 * Suc (length s)) \<subseteq> region ptr (2 * Suc (length (c # s)))"
    "region ptr 2 \<subseteq> region ptr (2 * Suc (length (c # s)))"
    by (intro region_sub; simp add: u)+
  have "region str (Suc (length (c # s))) \<inter> region ptr 2 = {}"
    using sub(3) Cons.prems(4) by blast
  then have agr: "agree_on (region str (Suc (length (c # s)))) m ?m"
    using Cons.prems(3) by (intro agree_on_store16) (simp_all add: no_wrap_def)
  have "cstr ?m (str + 1) s"
  proof (rule cstr_agree [OF agr sub(1)])
    show "no_wrap (str + 1) (Suc (length s))"
      using Cons.prems(2) u by (simp add: no_wrap_def)
    show "cstr m (str + 1) s" using Cons.prems(1) by simp
  qed
  moreover have "region (str + 1) (Suc (length s)) \<inter> region (ptr + 2) (2 * Suc (length s)) = {}"
    using sub Cons.prems(4) by blast
  ultimately have "widen_copy ?m (ptr + 2) (str + 1) =
      Some (store_bytes ?m (ptr + 2) (enc16 (map ucast s @ [0])))"
    using Cons.prems u by (intro Cons.IH) (simp_all add: no_wrap_def)
  with Cons.prems(1) show ?case
    by (simp add: widen_copy.simps [of m ptr str] store16_def store_bytes_append)
qed

lemma alloc_ext:
  assumes inv: "bio_inv lo mid hi b" and alloc: "bio_alloc b sz = (p, b')"
    and bs: "unat sz + 3 < 4294967296" "length bs \<le> unat sz"
  shows "bio_ext (b, m) (b', m)" and "p \<noteq> NULL \<Longrightarrow> bio_ext (b, m) (b', store_bytes m p bs)"
    and "p \<noteq> NULL \<Longrightarrow> p = io_data b \<and> length bs \<le> unat (io_data_avail b)"
proof -
  consider (full) "unat (io_data_avail b) < unat (align4 sz)"
    | (fits) "unat (align4 sz) \<le> unat (io_data_avail b)" by linarith
  then have "bio_ext (b, m) (b', m) \<and>
    (p \<noteq> NULL \<longrightarrow> bio_ext (b, m) (b', store_bytes m p bs) \<and> p = io_data b \<and>
       length bs \<le> unat (io_data_avail b))"
  proof cases
    case full
    with alloc show ?thesis by (auto simp: bio_alloc_full intro: bio_ext_overflow)
  next
    case fits
    then have p: "p = io_data b" "b' = bio_advance b (align4 sz)"
      using alloc by (auto simp: bio_alloc_fits)
    have len: "length bs \<le> unat (io_data_avail b)"
      using bs fits align4_ge [of sz] by simp
    from p inv fits len show ?thesis
      by (auto intro: bio_ext_advance agree_on_free_store)
  qed
  then show "bio_ext (b, m) (b', m)" and "p \<noteq> NULL \<Longrightarrow> bio_ext (b, m) (b', store_bytes m p bs)"
    and "p \<noteq> NULL \<Longrightarrow> p = io_data b \<and> length bs \<le> unat (io_data_avail b)"
    by blast+
qed

text \<open>
  A string argument is NULL or points to a terminated string that does not wrap around the
  address space and lies outside what the buffer still has to give.
\<close>

definition str_arg :: "addr \<Rightarrow> binder_io \<times> mem \<Rightarrow> bool" where
  "str_arg a = (\<lambda>(b, m). a = NULL \<or>
     (\<exists>s. cstr m a s \<and> no_wrap a (Suc (length s)) \<and>
        region a (Suc (length s)) \<inter> bio_free b = {}))"

definition str16_arg :: "addr \<Rightarrow> binder_io \<times> mem \<Rightarrow> bool" where
  "str16_arg a = (\<lambda>(b, m). a = NULL \<or>
     (\<exists>s. cstr16 m a s \<and> no_wrap a (2 * Suc (length s)) \<and>
        region a (2 * Suc (length s)) \<inter> bio_free b = {}))"

lemma MAX_units [simp]: "MAX_BIO_SIZE div sizeof_uint16 = 0x20000000"
  by (simp add: MAX_BIO_SIZE_def sizeof_uint16_def)

lemma string_size:
  assumes "n < 4294967296" and "\<not> (of_nat n :: u32) \<ge> 0x20000000"
  shows "n < 536870912" and "unat ((of_nat n + 1) * sizeof_uint16) = 2 * Suc n"
proof -
  from assms show n: "n < 536870912"
    by (simp add: word_le_nat_alt unat_of_nat_small)
  have "(of_nat n + 1) * sizeof_uint16 = of_nat (2 * Suc n)"
    by (simp add: sizeof_uint16_def algebra_simps)
  moreover have "unat (of_nat (2 * Suc n) :: u32) = 2 * Suc n"
    by (rule unat_of_nat_small) (use n in simp)
  ultimately show "unat ((of_nat n + 1) * sizeof_uint16) = 2 * Suc n"
    by (simp only:)
qed

lemma string_bound: "n < 536870912 \<Longrightarrow> \<not> (of_nat n :: u32) \<ge> 0x20000000"
  by (simp add: word_le_nat_alt unat_of_nat_small)

text \<open>
  What the two string writers do once the length is known and small: the length word, the
  allocation, and the bytes of the string with its terminator if there was room.
\<close>

lemma string_steps_ext:
  assumes inv: "bio_inv lo mid hi b" and n: "n < 536870912"
    and put: "bio_put_uint32 (of_nat n) (b, m) = (b1, m1)"
    and alloc: "bio_alloc b1 ((of_nat n + 1) * sizeof_uint16) = (p, b2)"
    and bs: "length bs = 2 * Suc n"
  shows "bio_ext (b, m) (b2, if p = NULL then m1 else store_bytes m1 p bs)"
proof -
  have ext1: "bio_ext (b, m) (b1, m1)"
    using put_uint32_ext [OF inv, where m = m and n = "of_nat n"] put by simp
  have sz: "unat ((of_nat n + 1) * sizeof_uint16 :: u32) + 3 < 4294967296"
    "length bs \<le> unat ((of_nat n + 1) * sizeof_uint16 :: u32)"
    using string_size [OF _ string_bound [OF n]] n bs by simp_all
  note ext2 = alloc_ext(1,2) [OF bio_ext_inv [OF inv ext1] alloc sz, of m1]
  show ?thesis
    using bio_ext_trans [OF ext1 ext2(1)] bio_ext_trans [OF ext1 ext2(2)] by simp
qed

lemma put_string16_x_steps:
  assumes inv: "bio_inv lo mid hi b" and a: "a \<noteq> NULL" and n: "length s < 536870912"
    and s: "cstr m a s" "no_wrap a (Suc (length s))" "region a (Suc (length s)) \<inter> bio_free b = {}"
    and put: "bio_put_uint32 (of_nat (length s)) (b, m) = (b1, m1)"
    and alloc: "bio_alloc b1 ((of_nat (length s) + 1) * sizeof_uint16) = (p, b2)"
  shows "bio_put_string16_x a (b, m) =
    Some (b2, if p = NULL then m1 else store_bytes m1 p (enc16 (map ucast s @ [0])))"
proof -
  have ext1: "bio_ext (b, m) (b1, m1)"
    using put_uint32_ext [OF inv, where m = m and n = "of_nat (length s)"] put by simp
  note inv1 = bio_ext_inv [OF inv ext1]
  have len: "c_strlen m a 0 = Some (of_nat (length s))"
    using c_strlen_cstr [of m a 0 s] s(1) by simp
  have "widen_copy m1 p a = Some (store_bytes m1 p (enc16 (map ucast s @ [0])))" if p: "p \<noteq> NULL"
  proof (rule widen_copy_cstr [OF _ s(2)])
    have sz: "unat ((of_nat (length s) + 1) * sizeof_uint16 :: u32) + 3 < 4294967296"
      "length (enc16 (map ucast s @ [0])) \<le> unat ((of_nat (length s) + 1) * sizeof_uint16 :: u32)"
      using string_size [OF _ string_bound [OF n]] n by simp_all
    have q: "p = io_data b1" "2 * Suc (length s) \<le> unat (io_data_avail b1)"
      using alloc_ext(3) [OF inv1 alloc sz p] by simp_all
    have "region p (2 * Suc (length s)) \<subseteq> bio_free b1"
      using q unfolding bio_free_def by (intro le_supI1 region_sub) auto
    then show "region a (Suc (length s)) \<inter> region p (2 * Suc (length s)) = {}"
      using s(3) bio_ext_free [OF ext1] by blast
    show "no_wrap p (2 * Suc (length s))"
      using q inv1 by (simp add: bio_inv_def no_wrap_def)
    show "cstr m1 a s" by (rule cstr_outside [OF bio_ext_agree [OF ext1] s(3,2,1)])
  qed
  with a len put alloc string_bound [OF n] show ?thesis
    by (simp add: bio_put_string16_x_def Let_def)
qed

lemma put_string16_steps:
  assumes inv: "bio_inv lo mid hi b" and a: "a \<noteq> NULL" and n: "length s < 536870912"
    and s: "cstr16 m a s" "no_wrap a (2 * Suc (length s))"
      "region a (2 * Suc (length s)) \<inter> bio_free b = {}"
    and put: "bio_put_uint32 (of_nat (length s)) (b, m) = (b1, m1)"
    and alloc: "bio_alloc b1 ((of_nat (length s) + 1) * sizeof_uint16) = (p, b2)"
  shows "bio_put_string16 a (b, m) =
    Some (b2, if p = NULL then m1 else store_bytes m1 p (enc16 (s @ [0])))"
proof -
  have ext1: "bio_ext (b, m) (b1, m1)"
    using put_uint32_ext [OF inv, where m = m and n = "of_nat (length s)"] put by simp
  have "cstr16 m1 a s" by (rule cstr16_outside [OF bio_ext_agree [OF ext1] s(3,2,1)])
  then have "load_bytes m1 a (unat ((of_nat (length s) + 1) * sizeof_uint16 :: u32)) = enc16 (s @ [0])"
    using enc16_load_u16s [of m1 a "Suc (length s)"] string_size(2) [OF _ string_bound [OF n]] n
    by (simp add: cstr16_def)
  with a put alloc string_bound [OF n] str16_len_cstr16 [of m a 0 s] s(1) show ?thesis
    by (simp add: bio_put_string16_def Let_def)
qed

lemma put_string16_x_ext:
  assumes inv: "bio_inv lo mid hi b" and arg: "str_arg a (b, m)"
  shows "\<exists>s'. bio_put_string16_x a (b, m) = Some s' \<and> bio_ext (b, m) s'"
proof (cases "a = NULL")
  case True
  then show ?thesis by (simp add: bio_put_string16_x_def put_uint32_ext [OF inv])
next
  case False
  with arg obtain s where s: "cstr m a s" "no_wrap a (Suc (length s))"
    "region a (Suc (length s)) \<inter> bio_free b = {}"
    by (auto simp: str_arg_def)
  show ?thesis
  proof (cases "length s < 536870912")
    case True
    obtain b1 m1 where put: "bio_put_uint32 (of_nat (length s)) (b, m) = (b1, m1)" by fastforce
    obtain p b2 where alloc: "bio_alloc b1 ((of_nat (length s) + 1) * sizeof_uint16) = (p, b2)"
      by fastforce
    from put_string16_x_steps [OF inv False True s put alloc] string_steps_ext [OF inv True put alloc]
    show ?thesis by simp
  next
    case big: False
    have "(of_nat (length s) :: u32) \<ge> 0x20000000"
      using big s(2) by (simp add: word_le_nat_alt no_wrap_def unat_of_nat_small)
    with False c_strlen_cstr [of m a 0 s] s(1) show ?thesis
      by (simp add: bio_put_string16_x_def put_uint32_ext [OF inv])
  qed
qed

lemma put_string16_ext:
  assumes inv: "bio_inv lo mid hi b" and arg: "str16_arg a (b, m)"
  shows "\<exists>s'. bio_put_string16 a (b, m) = Some s' \<and> bio_ext (b, m) s'"
proof (cases "a = NULL")
  case True
  then show ?thesis by (simp add: bio_put_string16_def put_uint32_ext [OF inv])
next
  case False
  with arg obtain s where s: "cstr16 m a s" "no_wrap a (2 * Suc (length s))"
    "region a (2 * Suc (length s)) \<inter> bio_free b = {}"
    by (auto simp: str16_arg_def)
  show ?thesis
  proof (cases "length s < 536870912")
    case True
    obtain b1 m1 where put: "bio_put_uint32 (of_nat (length s)) (b, m) = (b1, m1)" by fastforce
    obtain p b2 where alloc: "bio_alloc b1 ((of_nat (length s) + 1) * sizeof_uint16) = (p, b2)"
      by fastforce
    from put_string16_steps [OF inv False True s put alloc] string_steps_ext [OF inv True put alloc]
    show ?thesis by simp
  next
    case big: False
    have "(of_nat (length s) :: u32) \<ge> 0x20000000"
      using big s(2) by (simp add: word_le_nat_alt no_wrap_def unat_of_nat_small)
    with False str16_len_cstr16 [of m a 0 s] s(1) show ?thesis
      by (simp add: bio_put_string16_def put_uint32_ext [OF inv])
  qed
qed

subsection \<open>The writers' contract\<close>

locale bio_appender =
  fixes put :: "'v \<Rightarrow> binder_io \<times> mem \<Rightarrow> (binder_io \<times> mem) option"
    and arg_ok :: "'v \<Rightarrow> binder_io \<times> mem \<Rightarrow> bool"
  assumes put_returns:
      "bio_inv lo mid hi b \<Longrightarrow> arg_ok v (b, m) \<Longrightarrow>
         \<exists>s'. put v (b, m) = Some s' \<and> bio_ext (b, m) s'"
    and arg_later: "bio_ext s s' \<Longrightarrow> arg_ok v s \<Longrightarrow> arg_ok v s'"
begin

lemma put_all_returns:
  assumes "bio_inv lo mid hi b" and "\<forall>v\<in>set vs. arg_ok v (b, m)"
  shows "\<exists>s'. run_all put vs (b, m) = Some s' \<and> bio_ext (b, m) s'"
  using assms
proof (induction vs arbitrary: b m)
  case Nil
  then show ?case by (simp)
next
  case (Cons v vs)
  then obtain b1 m1 where 1: "put v (b, m) = Some (b1, m1)" "bio_ext (b, m) (b1, m1)"
    using put_returns [of lo mid hi b v m] by fastforce
  have "bio_inv lo mid hi b1" using Cons.prems(1) 1(2) by (rule bio_ext_inv)
  moreover have "\<forall>v\<in>set vs. arg_ok v (b1, m1)"
    using Cons.prems(2) arg_later [OF 1(2)] by simp
  ultimately obtain s' where "run_all put vs (b1, m1) = Some s'" "bio_ext (b1, m1) s'"
    using Cons.IH by blast
  with 1 show ?case by (auto intro: bio_ext_trans)
qed

lemma put_all_contained:
  assumes "bio_inv lo mid hi b" and "\<forall>v\<in>set vs. arg_ok v (b, m)"
  shows "\<exists>b' m'. run_all put vs (b, m) = Some (b', m') \<and> bio_inv lo mid hi b' \<and>
    (\<forall>x. unat x < lo \<or> hi \<le> unat x \<longrightarrow> m' x = m x)"
proof -
  from put_all_returns [OF assms] obtain b' m'
    where r: "run_all put vs (b, m) = Some (b', m')" and ext: "bio_ext (b, m) (b', m')"
    by auto
  have "m' x = m x" if "unat x < lo \<or> hi \<le> unat x" for x
    using bio_ext_agree [OF ext] bio_free_inside [OF assms(1), of x] that by (auto simp: agree_on_def)
  with r bio_ext_inv [OF assms(1) ext] show ?thesis by blast
qed

end

text \<open>One item of a message, as a caller of the \<open>bio_put_\<dots>\<close> family chooses it.\<close>

datatype bio_item =
    PutU32 u32
  | PutObj addr
  | PutRef u32
  | PutStr16 addr
  | PutStr16x addr

fun bio_put :: "bio_item \<Rightarrow> binder_io \<times> mem \<Rightarrow> (binder_io \<times> mem) option" where
  "bio_put (PutU32 n) s = Some (bio_put_uint32 n s)"
| "bio_put (PutObj p) s = Some (bio_put_obj p s)"
| "bio_put (PutRef h) s = Some (bio_put_ref h s)"
| "bio_put (PutStr16 a) s = bio_put_string16 a s"
| "bio_put (PutStr16x a) s = bio_put_string16_x a s"

fun item_ok :: "bio_item \<Rightarrow> binder_io \<times> mem \<Rightarrow> bool" where
  "item_ok (PutStr16 a) s = str16_arg a s"
| "item_ok (PutStr16x a) s = str_arg a s"
| "item_ok _ s = True"

lemma str_arg_later:
  assumes "bio_ext s s'" and "str_arg a s"
  shows "str_arg a s'"
proof -
  obtain b m b' m' where s: "s = (b, m)" "s' = (b', m')" by (cases s, cases s') auto
  with assms(1) have "agree_on (- bio_free b) m m'" and "bio_free b' \<subseteq> bio_free b"
    using bio_ext_free bio_ext_agree by auto
  with assms(2) s show ?thesis
    unfolding str_arg_def by (fastforce intro: cstr_outside [of "bio_free b" m])
qed

lemma str16_arg_later:
  assumes "bio_ext s s'" and "str16_arg a s"
  shows "str16_arg a s'"
proof -
  obtain b m b' m' where s: "s = (b, m)" "s' = (b', m')" by (cases s, cases s') auto
  with assms(1) have "agree_on (- bio_free b) m m'" and "bio_free b' \<subseteq> bio_free b"
    using bio_ext_free bio_ext_agree by auto
  with assms(2) s show ?thesis
    unfolding str16_arg_def by (fastforce intro: cstr16_outside [of "bio_free b" m])
qed

interpretation items: bio_appender bio_put item_ok
proof unfold_locales
  fix lo mid hi b v m
  assume "bio_inv lo mid hi b" and "item_ok v (b, m)"
  then show "\<exists>s'. bio_put v (b, m) = Some s' \<and> bio_ext (b, m) s'"
    by (cases v) (simp_all add: put_uint32_ext put_obj_ext put_ref_ext put_string16_ext
        put_string16_x_ext del: split_paired_Ex)
next
  fix s s' v
  assume "bio_ext s s'" and "item_ok v s"
  then show "item_ok v s'"
    by (cases v) (auto intro: str_arg_later str16_arg_later)
qed

subsection \<open>Properties\<close>

text \<open>C12: from a buffer set up by \<open>bio_init\<close>, any sequence of \<open>bio_put\<close> operations with
  valid string arguments returns, changes no byte outside the \<open>maxdata\<close> bytes the caller gave,
  and keeps the buffer well-formed.\<close>
theorem bio_puts_contained:
  assumes "0 < unat dat" and "unat dat + unat maxdata < 4294967296"
    and "4 * unat maxoffs \<le> unat maxdata"
    and "\<forall>v\<in>set items. item_ok v (bio_init b dat maxdata maxoffs, m)"
  shows "\<exists>b' m'. run_all bio_put items (bio_init b dat maxdata maxoffs, m) = Some (b', m') \<and>
    bio_inv (unat dat) (unat dat + 4 * unat maxoffs) (unat dat + unat maxdata) b' \<and>
    (\<forall>x. x \<notin> region dat (unat maxdata) \<longrightarrow> m' x = m x)"
  using items.put_all_contained [OF bio_init_inv [OF assms(1-3)] assms(4)]
  by (auto simp: in_region not_le not_less)

definition example_bio :: binder_io where
  "example_bio = \<lparr>io_data = 0, io_offs = 0, io_data_avail = 0, io_offs_avail = 0, io_data0 = 0,
     io_offs0 = 0, io_flags = 0, io_unused = 0\<rparr>"

definition example_mem :: mem where
  "example_mem = (\<lambda>_. 0)(1000 := 0x68, 1001 := 0x69)"

definition example_items :: "bio_item list" where
  "example_items = [PutU32 7, PutStr16x 1000, PutRef 5]"

lemma example_items_ok:
  "\<forall>v\<in>set example_items. item_ok v (bio_init example_bio 0x2000 128 4, example_mem)"
proof -
  have "cstr example_mem 1000 [0x68, 0x69]" by (simp add: example_mem_def)
  moreover have "region 1000 (Suc (length [0x68, 0x69 :: byte])) \<inter> bio_free (bio_init example_bio 0x2000 128 4) = {}"
    by (auto simp: bio_init_def sizeof_size_t_def bio_free_def in_region)
  moreover have "no_wrap 1000 (Suc (length [0x68, 0x69 :: byte]))" by (simp add: no_wrap_def)
  ultimately have "str_arg 1000 (bio_init example_bio 0x2000 128 4, example_mem)"
    unfolding str_arg_def prod.case by blast
  then show ?thesis by (simp add: example_items_def)
qed

lemma bio_puts_returns_example:
  "\<exists>b' m'. run_all bio_put example_items (bio_init example_bio 0x2000 128 4, example_mem) = Some (b', m')"
  using items.put_all_returns [OF bio_init_inv example_items_ok] by auto

theorem bio_puts_contained_witness:
  "\<exists>b' m'. run_all bio_put example_items (bio_init example_bio 0x2000 128 4, example_mem) = Some (b', m') \<and>
     (\<forall>x. x \<in> - region 0x2000 128 \<longrightarrow> m' x = example_mem x)"
  using bio_puts_contained [of "0x2000" 128 4 example_items example_bio example_mem] example_items_ok
  by auto

text \<open>The overflow mark is never lost: if a message starts overflowed, or one put of a
  sequence does not fit, the buffer after the whole sequence is marked, so that
  \<open>binder_call\<close> refuses it.\<close>
theorem bio_overflow_sticky:
  assumes "bio_inv lo mid hi b" and "\<forall>v\<in>set (xs @ ys). item_ok v (b, m)"
    and "run_all bio_put xs (b, m) = Some (b1, m1)" and "overflowed b1"
    and "run_all bio_put (xs @ ys) (b, m) = Some (b2, m2)"
  shows "overflowed b2"
proof -
  have ok: "\<forall>v\<in>set xs. item_ok v (b, m)" "\<forall>v\<in>set ys. item_ok v (b, m)"
    using assms(2) by auto
  from items.put_all_returns [OF assms(1) ok(1)] assms(3) have ext: "bio_ext (b, m) (b1, m1)"
    by simp
  have "\<forall>v\<in>set ys. item_ok v (b1, m1)" using ok(2) items.arg_later [OF ext] by blast
  from items.put_all_returns [OF bio_ext_inv [OF assms(1) ext] this] assms(3,5)
  have "bio_ext (b1, m1) (b2, m2)" by (simp add: run_all_append)
  then show ?thesis using assms(4) by (rule bio_ext_sticky)
qed

theorem bio_overflow_sticky_witness:
  "\<exists>b1 m1 b2 m2. run_all bio_put [PutU32 1, PutU32 2] (bio_init example_bio 0x2000 4 0, example_mem) = Some (b1, m1) \<and>
     overflowed b1 \<and>
     run_all bio_put [PutU32 1, PutU32 2, PutU32 3] (bio_init example_bio 0x2000 4 0, example_mem) = Some (b2, m2) \<and>
     overflowed b2"
proof -
  let ?b = "bio_init example_bio 0x2000 4 0"
  have inv: "bio_inv 8192 8192 8196 ?b"
    using bio_init_inv [of "0x2000" 4 0 example_bio] by simp
  let ?s1 = "the (run_all bio_put [PutU32 1, PutU32 2] (?b, example_mem))"
  let ?s2 = "the (run_all bio_put [PutU32 1, PutU32 2, PutU32 3] (?b, example_mem))"
  have "overflowed (fst ?s1)" by code_simp
  then have "overflowed (fst ?s2)"
    by (intro bio_overflow_sticky [OF inv, of "[PutU32 1, PutU32 2]" "[PutU32 3]" example_mem
          "fst ?s1" "snd ?s1" "fst ?s2" "snd ?s2"]) simp_all
  with \<open>overflowed (fst ?s1)\<close> show ?thesis
    by (intro exI [of _ "fst ?s1"] exI [of _ "snd ?s1"] exI [of _ "fst ?s2"] exI [of _ "snd ?s2"]) simp
qed

end
