(* ===== verification/Bio_Read.thy ===== *)
theory Bio_Read
  imports Bio_Write
begin

text \<open>
  The readers of \<^theory_text>\<open>Bio\<close> against the writers: \<open>delivered\<close> says that a receiver's
  buffer holds a copy of what a sender wrote (what the driver's copy of a transaction
  gives), \<open>reader_at\<close> adds the reading position, and the locale \<open>bio_codec\<close> is the contract
  of a put and its matching get. Its lemma is the round trip of whole messages. The last
  part bounds what \<open>bio_get_string16\<close> returns, and shows where the bound fails.
\<close>

subsection \<open>Reading bytes\<close>

lemma load32_bytes: "load_bytes m a 4 = le32 v \<Longrightarrow> load32 m a = v"
  by (simp add: load32_def le32_def un32_le32 add.assoc)

lemma le32_load32: "le32 (load32 m a) = load_bytes m a 4"
  by (simp add: load32_def le32_un32 add.assoc)

lemma encode_obj_load: "encode_obj (load_obj m a) = load_bytes m a 16"
  by (simp add: encode_obj_def load_obj_def le32_load32 add.assoc)

lemma load_bytes_slice:
  assumes "i + n \<le> k"
  shows "load_bytes m (a + of_nat i) n = take n (drop i (load_bytes m a k))"
proof -
  obtain j where k: "k = i + (n + j)" using assms le_Suc_ex add.assoc by metis
  show ?thesis by (simp add: k load_bytes_add)
qed

lemma bio_get_fits:
  "unat (align4 sz) \<le> unat (io_data_avail b) \<Longrightarrow>
     bio_get b sz = (io_data b, bio_advance b (align4 sz))"
  by (simp add: bio_get_def Let_def word_less_nat_alt)

lemma bio_get_full:
  "unat (io_data_avail b) < unat (align4 sz) \<Longrightarrow>
     bio_get b sz = (NULL, set_overflow (b\<lparr>io_data_avail := 0\<rparr>))"
  by (simp add: bio_get_def Let_def word_less_nat_alt)

lemma offs_search_iff:
  "offs_search m offs off n avail \<longleftrightarrow>
     (\<exists>j. n \<le> j \<and> j < avail \<and> load32 m (offs + 4 * of_nat j) = off)"
proof (induction m offs off n avail rule: offs_search.induct)
  case (1 m offs off n avail)
  have split: "n \<le> j \<and> j < avail \<and> Q \<longleftrightarrow>
      (j = n \<and> n < avail \<and> Q) \<or> (Suc n \<le> j \<and> j < avail \<and> Q)" for j Q
    by (auto simp: Suc_le_eq le_less)
  show ?case
  proof (cases "n < avail")
    case True
    show ?thesis
    proof (cases "load32 m (offs + 4 * of_nat n) = off")
      case found: True
      with True show ?thesis by (subst offs_search.simps) auto
    next
      case False
      with True 1 show ?thesis
        by (subst offs_search.simps) (use False in \<open>auto simp: split\<close>)
    qed
  next
    case False
    then show ?thesis by (subst offs_search.simps) simp
  qed
qed

subsection \<open>A message and its copy at the receiver\<close>

definition io_pos :: "binder_io \<Rightarrow> nat" where
  "io_pos b = unat (io_data b) - unat (io_data0 b)"

definition offs_pos :: "binder_io \<Rightarrow> nat" where
  "offs_pos b = unat (io_offs b) - unat (io_offs0 b)"

fun delivered :: "binder_io \<times> mem \<Rightarrow> binder_io \<Rightarrow> mem \<Rightarrow> bool" where
  "delivered (b, m) r mr \<longleftrightarrow>
     0 < unat (io_data0 r) \<and> unat (io_data0 r) + io_pos b < 4294967296 \<and>
     no_wrap (io_offs r) (offs_pos b) \<and> 4 * unat (io_offs_avail r) = offs_pos b \<and>
     load_bytes mr (io_data0 r) (io_pos b) = load_bytes m (io_data0 b) (io_pos b) \<and>
     load_bytes mr (io_offs r) (offs_pos b) = load_bytes m (io_offs0 b) (offs_pos b)"

fun reader_at :: "binder_io \<times> mem \<Rightarrow> nat \<Rightarrow> binder_io \<Rightarrow> mem \<Rightarrow> bool" where
  "reader_at (b, m) p r mr \<longleftrightarrow>
     delivered (b, m) r mr \<and> unat (io_data r) = unat (io_data0 r) + p \<and>
     p + unat (io_data_avail r) = io_pos b"

declare delivered.simps [simp del] reader_at.simps [simp del]

lemma reader_advance:
  assumes "reader_at s p r mr" and "unat sz \<le> unat (io_data_avail r)"
  shows "reader_at s (p + unat sz) (bio_advance r sz) mr"
  using assms
  by (cases s) (auto simp: reader_at.simps delivered.simps unat_add_nowrap unat_sub word_le_nat_alt)

lemma io_pos_inv: "bio_inv lo mid hi b \<Longrightarrow> io_pos b + mid = unat (io_data b)"
  by (auto simp: bio_inv_def io_pos_def)

lemma io_pos_ext:
  assumes "bio_ext (b, m) (b', m')"
  shows "io_pos b \<le> io_pos b'" and "offs_pos b \<le> offs_pos b'"
  using assms by (auto simp: bio_ext.simps io_pos_def offs_pos_def)

text \<open>Bytes written below the current end of the data are what the receiver reads.\<close>

lemma delivered_chunk:
  assumes inv: "bio_inv lo mid hi b1" and bs: "load_bytes m1 a n = bs"
    and a: "unat a = mid + p" "p + n \<le> io_pos b1"
    and ext: "bio_ext (b1, m1) (b, m)" and del: "delivered (b, m) r mr"
  shows "load_bytes mr (io_data0 r + of_nat p) n = bs"
proof -
  from io_pos_inv [OF inv] a inv have end_: "unat a + n \<le> unat (io_data b1)" "mid \<le> unat a"
    by (simp_all add: bio_inv_def)
  have "load_bytes m a n = load_bytes m1 a n"
  proof (rule load_bytes_agree [OF bio_ext_agree [OF ext]])
    show "region a n \<subseteq> - bio_free b1"
      using end_ inv by (auto simp: bio_free_def in_region bio_inv_def)
    show "no_wrap a n" using end_ inv by (simp add: no_wrap_def bio_inv_def)
  qed
  moreover have "a = io_data0 b + of_nat p"
  proof (rule addr_eqI)
    have "io_data0 b = io_data0 b1" using ext by (simp add: bio_ext.simps)
    then show "unat a = unat (io_data0 b + of_nat p)"
      using a inv end_ by (simp add: bio_inv_def unat_add_of_nat)
  qed
  moreover have "p + n \<le> io_pos b" using a(2) io_pos_ext(1) [OF ext] by simp
  ultimately show ?thesis
    using del bs by (simp add: load_bytes_slice [of p n "io_pos b"] delivered.simps)
qed

lemma delivered_offset:
  assumes inv: "bio_inv lo mid hi b0" and inv1: "bio_inv lo mid hi b1"
    and off: "load32 m1 (io_offs b0) = v"
    and adv: "unat (io_offs b0) + 4 \<le> unat (io_offs b1)"
    and ext: "bio_ext (b1, m1) (b, m)" and del: "delivered (b, m) r mr"
  shows "\<exists>j. j < unat (io_offs_avail r) \<and> load32 mr (io_offs r + 4 * of_nat j) = v"
proof -
  let ?q = "offs_pos b0"
  have o0: "io_offs0 b = io_offs0 b1" "io_offs0 b0 = io_offs0 b1"
    using ext inv inv1 by (auto simp: bio_ext.simps bio_inv_def intro: addr_eqI)
  have q: "unat (io_offs b0) = lo + ?q" "4 dvd ?q"
  proof -
    show "unat (io_offs b0) = lo + ?q" using inv by (auto simp: bio_inv_def offs_pos_def)
    from inv have "?q + 4 * unat (io_offs_avail b0) = mid - lo"
      by (auto simp: bio_inv_def offs_pos_def)
    moreover from inv have "4 dvd mid - lo" by (simp add: bio_inv_def whole_entries_def)
    ultimately have "4 dvd ?q + 4 * unat (io_offs_avail b0)" by simp
    then show "4 dvd ?q" by (simp add: dvd_add_left_iff)
  qed
  have le: "?q + 4 \<le> offs_pos b"
  proof -
    have "offs_pos b1 = unat (io_offs b1) - lo" using inv1 by (simp add: bio_inv_def offs_pos_def)
    with adv q(1) io_pos_ext(2) [OF ext] show ?thesis by linarith
  qed
  have "load_bytes m (io_offs b0) 4 = load_bytes m1 (io_offs b0) 4"
  proof (rule load_bytes_agree [OF bio_ext_agree [OF ext]])
    show "region (io_offs b0) 4 \<subseteq> - bio_free b1"
      using adv inv1 by (auto simp: bio_free_def in_region bio_inv_def)
    show "no_wrap (io_offs b0) 4" using adv inv1 by (simp add: no_wrap_def bio_inv_def)
  qed
  moreover have "io_offs b0 = io_offs0 b + of_nat ?q"
  proof (rule addr_eqI)
    have "unat (io_offs0 b) = lo" using o0 inv1 by (simp add: bio_inv_def)
    moreover have "lo + ?q < 4294967296"
      using q(1) unat_addr_less [of "io_offs b0"] by simp
    ultimately show "unat (io_offs b0) = unat (io_offs0 b + of_nat ?q)"
      using q(1) by (simp add: unat_add_of_nat)
  qed
  ultimately have "load_bytes m (io_offs0 b + of_nat ?q) 4 = le32 v"
    using off by (simp only: le32_load32 [symmetric])
  then have "load_bytes mr (io_offs r + of_nat ?q) 4 = le32 v"
    using del le by (simp only: load_bytes_slice [of ?q 4 "offs_pos b"] delivered.simps)
  then have "load32 mr (io_offs r + of_nat ?q) = v" by (rule load32_bytes)
  moreover obtain j where "?q = 4 * j" using q(2) by (elim dvdE)
  moreover have "j < unat (io_offs_avail r)"
    using le del \<open>?q = 4 * j\<close> by (simp add: delivered.simps)
  ultimately show ?thesis by auto
qed

lemma reader_chunk:
  assumes inv: "bio_inv lo mid hi b1" and bs: "load_bytes m1 a n = bs"
    and a: "unat a = mid + p" "p + n \<le> io_pos b1"
    and ext: "bio_ext (b1, m1) s" and at: "reader_at s p r mr"
  shows "load_bytes mr (io_data r) n = bs" and "n \<le> unat (io_data_avail r)"
    and "io_data r \<noteq> NULL"
proof -
  obtain b m where s: "s = (b, m)" by (cases s)
  from at have del: "delivered (b, m) r mr" and r: "unat (io_data r) = unat (io_data0 r) + p"
    and av: "p + unat (io_data_avail r) = io_pos b"
    by (simp_all add: s reader_at.simps)
  have "io_pos b1 \<le> io_pos b" using ext io_pos_ext(1) by (simp add: s)
  with a(2) av show "n \<le> unat (io_data_avail r)" by linarith
  from del r show "io_data r \<noteq> NULL" by (auto simp: delivered.simps)
  have "io_data r = io_data0 r + of_nat p"
    using r unat_addr_less [of "io_data r"] by (intro addr_eqI) (simp add: unat_add_of_nat)
  with delivered_chunk [OF inv bs a ext [unfolded s] del] show "load_bytes mr (io_data r) n = bs"
    by simp
qed

subsection \<open>Puts that did not overflow\<close>

lemma alloc_done:
  assumes "bio_alloc b sz = (p, b')" and "\<not> overflowed b'"
  shows "unat (align4 sz) \<le> unat (io_data_avail b)" and "p = io_data b"
    and "b' = bio_advance b (align4 sz)"
proof -
  show fits: "unat (align4 sz) \<le> unat (io_data_avail b)"
  proof (rule ccontr)
    assume "\<not> unat (align4 sz) \<le> unat (io_data_avail b)"
    with assms(1) have "b' = set_overflow b" by (simp add: bio_alloc_full)
    with assms(2) show False by simp
  qed
  show "p = io_data b" and "b' = bio_advance b (align4 sz)"
    using assms(1) by (auto simp: bio_alloc_fits [OF fits])
qed

lemma put_uint32_done:
  assumes "bio_inv lo mid hi b" and "bio_put_uint32 n (b, m) = (b', m')" and "\<not> overflowed b'"
  shows "4 \<le> unat (io_data_avail b)" and "b' = bio_advance b 4"
    and "m' = store32 m (io_data b) n"
proof -
  show fits: "4 \<le> unat (io_data_avail b)"
  proof (rule ccontr)
    assume "\<not> 4 \<le> unat (io_data_avail b)"
    with assms(2) have "b' = set_overflow b" by (simp add: put_uint32_full)
    with assms(3) show False by simp
  qed
  show "b' = bio_advance b 4" and "m' = store32 m (io_data b) n"
    using assms(2) by (auto simp: put_uint32_fits [OF assms(1) fits])
qed

lemma io_pos_advance:
  "bio_inv lo mid hi b \<Longrightarrow> unat sz \<le> unat (io_data_avail b) \<Longrightarrow>
     io_pos (bio_advance b sz) = io_pos b + unat sz"
  by (auto simp: io_pos_def bio_inv_def unat_add_nowrap)

lemma load_bytes_written:
  "bio_inv lo mid hi b \<Longrightarrow> length bs \<le> unat (io_data_avail b) \<Longrightarrow>
     load_bytes (store_bytes m (io_data b) bs) (io_data b) (length bs) = bs"
  by (rule load_bytes_store_same) (simp add: bio_inv_def no_wrap_def)

lemma uint32_codec:
  assumes inv: "bio_inv lo mid hi b0" and put: "bio_put_uint32 n (b0, m0) = (b1, m1)"
    and ok: "\<not> overflowed b1" and ext: "bio_ext (b1, m1) s"
    and at: "reader_at s (io_pos b0) r mr"
  shows "bio_get_uint32 mr r = (n, bio_advance r 4)"
    and "reader_at s (io_pos b1) (bio_advance r 4) mr"
    and "io_pos b1 = io_pos b0 + 4"
proof -
  note done_ = put_uint32_done [OF inv put ok]
  have "bio_ext (b0, m0) (b1, m1)" using put_uint32_ext [OF inv, where m = m0 and n = n] put by simp
  note inv1 = bio_ext_inv [OF inv this]
  show pos: "io_pos b1 = io_pos b0 + 4"
    using io_pos_advance [OF inv, of 4] done_ by simp
  have "load_bytes m1 (io_data b0) 4 = le32 n"
    using load_bytes_written [OF inv, of "le32 n" m0] done_ by (simp add: store32_def)
  note chunk = reader_chunk [OF inv1 this _ _ ext at]
  have c: "load_bytes mr (io_data r) 4 = le32 n" "4 \<le> unat (io_data_avail r)" "io_data r \<noteq> NULL"
    using chunk pos io_pos_inv [OF inv] by simp_all
  then show "bio_get_uint32 mr r = (n, bio_advance r 4)"
    using load32_bytes [OF c(1)] by (simp add: bio_get_uint32_def bio_get_fits)
  show "reader_at s (io_pos b1) (bio_advance r 4) mr"
    using reader_advance [OF at, of 4] c(2) pos by simp
qed

lemma load_u16s_butlast: "load_u16s m a (Suc (length us)) = us @ [x] \<Longrightarrow> load_u16s m a (length us) = us"
  by (induction us arbitrary: a) auto

lemma string_codec:
  assumes inv: "bio_inv lo mid hi b0"
    and put: "bio_put_uint32 (of_nat (length us)) (b0, m0) = (b1, m1)"
    and alloc: "bio_alloc b1 ((of_nat (length us) + 1) * sizeof_uint16) = (p, b2)"
    and m2: "m2 = store_bytes m1 p (enc16 (us @ [0]))"
    and len: "length us < 536870912" and ok: "\<not> overflowed b2"
    and ext: "bio_ext (b2, m2) s" and at: "reader_at s (io_pos b0) r mr"
  shows "\<exists>p' r'. bio_get_string16 mr r = (p', of_nat (length us), r') \<and> p' \<noteq> NULL \<and>
    load_u16s mr p' (length us) = us \<and> reader_at s (io_pos b2) r' mr"
proof -
  let ?sz = "(of_nat (length us) + 1) * sizeof_uint16 :: u32" and ?bs = "enc16 (us @ [0])"
  have sz: "unat ?sz = 2 * Suc (length us)"
    using len by (intro string_size) (simp_all add: word_le_nat_alt unat_of_nat_small)
  have bs: "unat ?sz + 3 < 4294967296" "length ?bs \<le> unat ?sz" using sz len by simp_all
  have "bio_ext (b0, m0) (b1, m1)"
    using put_uint32_ext [OF inv, where m = m0 and n = "of_nat (length us)"] put by simp
  note inv1 = bio_ext_inv [OF inv this]
  note done_ = alloc_done [OF alloc ok]
  have nz: "p \<noteq> NULL" using done_(2) bio_inv_nonnull [OF inv1] by simp
  have ext12: "bio_ext (b1, m1) (b2, m2)"
    unfolding m2 by (rule alloc_ext(2) [OF inv1 alloc bs nz])
  note inv2 = bio_ext_inv [OF inv1 ext12]
  from ext12 ok have ok1: "\<not> overflowed b1" using bio_ext_sticky by blast
  note u = uint32_codec [OF inv put ok1 bio_ext_trans [OF ext12 ext] at]
  let ?r = "bio_advance r 4"
  have pos: "io_pos b2 = io_pos b1 + unat (align4 ?sz)"
    using io_pos_advance [OF inv1 done_(1)] done_(3) by simp
  have le: "length ?bs \<le> unat (io_data_avail b1)" "2 * Suc (length us) \<le> unat (align4 ?sz)"
    using done_(1) align4_ge [OF bs(1)] sz by simp_all
  have "load_bytes m2 (io_data b1) (2 * Suc (length us)) = ?bs"
    using load_bytes_written [OF inv1 le(1), of m1] m2 done_(2) by simp
  note chunk = reader_chunk [OF inv2 this _ _ ext u(2)]
  have c: "load_bytes mr (io_data ?r) (2 * Suc (length us)) = ?bs" "io_data ?r \<noteq> NULL"
    using chunk pos le(2) io_pos_inv [OF inv1] by simp_all
  have "load_u16s mr (io_data ?r) (Suc (length us)) = us @ [0]"
    using load_u16s_enc16 [of mr "io_data ?r" "us @ [0]"] c(1) by simp
  note str = load_u16s_butlast [OF this]
  have av: "unat (align4 ?sz) \<le> unat (io_data_avail ?r)"
  proof -
    obtain b m where s: "s = (b, m)" by (cases s)
    have "io_pos b2 \<le> io_pos b" using ext io_pos_ext(1) by (simp add: s)
    with u(2) pos show ?thesis by (simp add: s reader_at.simps)
  qed
  have "bio_get_string16 mr r =
      (io_data ?r, of_nat (length us), bio_advance ?r (align4 ?sz))"
    by (simp only: bio_get_string16_def u(1) Let_def case_prod_conv bio_get_fits [OF av])
  moreover have "reader_at s (io_pos b2) (bio_advance ?r (align4 ?sz)) mr"
    unfolding pos by (rule reader_advance [OF u(2) av])
  ultimately show ?thesis using c(2) str by blast
qed

lemma alloc_obj_done:
  assumes inv: "bio_inv lo mid hi b" and alloc: "bio_alloc_obj b m = (p, b', m')"
    and ok: "\<not> overflowed b'"
  shows "p \<noteq> NULL" and "16 \<le> unat (io_data_avail b)" and "io_offs_avail b \<noteq> 0"
proof -
  show data: "16 \<le> unat (io_data_avail b)"
  proof (rule ccontr)
    assume "\<not> 16 \<le> unat (io_data_avail b)"
    with alloc have "b' = set_overflow b" by (simp add: alloc_obj_no_data)
    with ok show False by simp
  qed
  show offs: "io_offs_avail b \<noteq> 0"
  proof
    assume "io_offs_avail b = 0"
    with data alloc have "b' = set_overflow (bio_advance b 16)" by (auto simp: alloc_obj_no_offs)
    with ok show False by simp
  qed
  show "p \<noteq> NULL"
    using alloc bio_inv_nonnull [OF inv] by (simp add: alloc_obj_fits [OF inv data offs])
qed

lemma diff_as_pos:
  "unat (a :: addr) = unat b + p \<Longrightarrow> a - b = of_nat p"
proof -
  assume a: "unat a = unat b + p"
  then have "a = b + of_nat p"
    using unat_addr_less [of a] by (intro addr_eqI) (simp add: unat_add_of_nat)
  then show ?thesis by simp
qed

lemma object_codec:
  assumes inv: "bio_inv lo mid hi b0" and alloc: "bio_alloc_obj b0 m0 = (p, b1, m1)"
    and ok: "\<not> overflowed b1" and ext: "bio_ext (b1, store_obj m1 p ty h) s"
    and at: "reader_at s (io_pos b0) r mr"
  shows "bio_get_ref mr r = (if ty = BINDER_TYPE_HANDLE then h else 0, bio_advance r 16)"
    and "reader_at s (io_pos b1) (bio_advance r 16) mr"
proof -
  note done_ = alloc_obj_done [OF inv alloc ok]
  note ptr = alloc_obj_ptr [OF inv alloc done_(1)]
  note inv1 = bio_ext_inv [OF inv alloc_obj_ext [OF inv alloc]]
  let ?m2 = "store_obj m1 p ty h"
  have b1: "b1 = (bio_advance b0 16)\<lparr>io_offs_avail := io_offs_avail b0 - 1, io_offs := io_offs b0 + 4\<rparr>"
    and m1: "m1 = store32 m0 (io_offs b0) (io_data b0 - io_data0 b0)"
    using alloc by (auto simp: alloc_obj_fits [OF inv done_(2,3)])
  have pos: "io_pos b1 = io_pos b0 + 16"
    using io_pos_advance [OF inv, of 16] done_(2) by (simp add: b1 io_pos_def)
  have "encode_obj (load_obj ?m2 p) = load_bytes ?m2 p 16" by (rule encode_obj_load)
  note chunk = reader_chunk [OF inv1 this [symmetric] _ _ ext at]
  have c: "load_bytes mr (io_data r) 16 = encode_obj (load_obj ?m2 p)"
    "16 \<le> unat (io_data_avail r)" "io_data r \<noteq> NULL"
    using chunk ptr(1) pos io_pos_inv [OF inv] by simp_all
  have obj: "load_obj mr (io_data r) =
      \<lparr>fbo_type = ty, fbo_flags = 0x7f OR FLAT_BINDER_FLAG_ACCEPTS_FDS, fbo_handle = h, fbo_cookie = 0\<rparr>"
    using load_obj_encode [OF c(1)] load_obj_store_obj [OF ptr(3)] by simp
  have adv: "unat (io_offs b0) + 4 \<le> unat (io_offs b1)"
  proof -
    have "unat (io_offs b0) + 4 < 4294967296"
      using inv done_(3) unat_gt_0 [of "io_offs_avail b0"] by (simp add: bio_inv_def)
    then show ?thesis by (simp add: b1 unat_add_nowrap)
  qed
  have off: "load32 ?m2 (io_offs b0) = io_data b0 - io_data0 b0"
  proof -
    have "load32 ?m2 (io_offs b0) = load32 m1 (io_offs b0)"
    proof (rule load32_agree [OF store_obj_agree])
      show "no_wrap p 16" "unat p + 16 < 4294967296" using ptr(3) by (simp_all add: no_wrap_def)
      show "region (io_offs b0) 4 \<subseteq> - region p 16" and "no_wrap (io_offs b0) 4"
        using adv inv inv1 ptr(1) by (auto simp: in_region bio_inv_def no_wrap_def)
    qed
    then show ?thesis by (simp add: m1)
  qed
  obtain b m where s: "s = (b, m)" by (cases s)
  from at have del: "delivered (b, m) r mr" and r: "unat (io_data r) = unat (io_data0 r) + io_pos b0"
    by (simp_all add: s reader_at.simps)
  have "io_data b0 - io_data0 b0 = of_nat (io_pos b0)"
    using io_pos_inv [OF inv] inv by (intro diff_as_pos) (simp add: bio_inv_def)
  then have "io_data r - io_data0 r = io_data b0 - io_data0 b0"
    using diff_as_pos [OF r] by simp
  then have "offs_search mr (io_offs r) (io_data r - io_data0 r) 0 (unat (io_offs_avail r))"
    using delivered_offset [OF inv inv1 off adv ext [unfolded s] del]
    by (simp add: offs_search_iff)
  then have "bio_get_obj mr r = (io_data r, bio_advance r 16)"
    using c(2) by (simp add: bio_get_obj_def Let_def bio_get_fits proto_values)
  then show "bio_get_ref mr r = (if ty = BINDER_TYPE_HANDLE then h else 0, bio_advance r 16)"
    using c(3) by (simp add: bio_get_ref_def obj)
  show "reader_at s (io_pos b1) (bio_advance r 16) mr"
    using reader_advance [OF at, of 16] c(2) pos by simp
qed

subsection \<open>The contract of a writer and its reader\<close>

primrec read_all ::
  "('k \<Rightarrow> mem \<Rightarrow> binder_io \<Rightarrow> 'w \<times> binder_io) \<Rightarrow> 'k list \<Rightarrow> mem \<Rightarrow> binder_io \<Rightarrow>
     'w list \<times> binder_io" where
  "read_all get [] m r = ([], r)"
| "read_all get (k # ks) m r =
     (let (w, r) = get k m r; (ws, r) = read_all get ks m r in (w # ws, r))"

text \<open>
  \<open>sem v s w\<close>: the argument \<open>v\<close>, in the state \<open>s\<close> it is written from, stands for the value
  \<open>w\<close>. What \<open>put\<close> writes for \<open>v\<close>, \<open>get\<close> reads back as \<open>w\<close> from any copy of the finished
  message, leaving the reader where the next item starts.
\<close>

locale bio_codec = bio_appender put arg_ok
  for put :: "'v \<Rightarrow> binder_io \<times> mem \<Rightarrow> (binder_io \<times> mem) option"
    and arg_ok :: "'v \<Rightarrow> binder_io \<times> mem \<Rightarrow> bool" +
  fixes kind :: "'v \<Rightarrow> 'k"
    and get :: "'k \<Rightarrow> mem \<Rightarrow> binder_io \<Rightarrow> 'w \<times> binder_io"
    and sem :: "'v \<Rightarrow> binder_io \<times> mem \<Rightarrow> 'w \<Rightarrow> bool"
  assumes sem_arg: "sem v s w \<Longrightarrow> arg_ok v s"
    and sem_later: "bio_ext s s' \<Longrightarrow> sem v s w \<Longrightarrow> sem v s' w"
    and get_put: "bio_inv lo mid hi b0 \<Longrightarrow> sem v (b0, m0) w \<Longrightarrow> put v (b0, m0) = Some (b1, m1) \<Longrightarrow>
      \<not> overflowed b1 \<Longrightarrow> bio_ext (b1, m1) s \<Longrightarrow> reader_at s (io_pos b0) r mr \<Longrightarrow>
      \<exists>r'. get (kind v) mr r = (w, r') \<and> reader_at s (io_pos b1) r' mr"
begin

lemma read_all_put_all:
  assumes "bio_inv lo mid hi b0" and "list_all2 (\<lambda>v w. sem v (b0, m0) w) vs ws"
    and "run_all put vs (b0, m0) = Some (b1, m1)" and "\<not> overflowed b1"
    and "bio_ext (b1, m1) s" and "reader_at s (io_pos b0) r mr"
  shows "\<exists>r'. read_all get (map kind vs) mr r = (ws, r') \<and> reader_at s (io_pos b1) r' mr"
  using assms
proof (induction vs arbitrary: ws b0 m0 r)
  case Nil
  then show ?case by simp
next
  case (Cons v vs)
  from Cons.prems(2) obtain w ws' where ws: "ws = w # ws'" and w: "sem v (b0, m0) w"
    and rest: "list_all2 (\<lambda>v w. sem v (b0, m0) w) vs ws'"
    by (auto simp: list_all2_Cons1)
  from put_returns [OF Cons.prems(1) sem_arg [OF w]] obtain b m
    where put: "put v (b0, m0) = Some (b, m)" and ext: "bio_ext (b0, m0) (b, m)" by auto
  note inv = bio_ext_inv [OF Cons.prems(1) ext]
  have rest': "list_all2 (\<lambda>v w. sem v (b, m) w) vs ws'"
    using rest by (rule list_all2_mono) (rule sem_later [OF ext])
  have run: "run_all put vs (b, m) = Some (b1, m1)" using Cons.prems(3) put by simp
  have "\<forall>v\<in>set vs. arg_ok v (b, m)"
    using rest' sem_arg by (fastforce simp: list_all2_conv_all_nth in_set_conv_nth)
  from put_all_returns [OF inv this] run have ext1: "bio_ext (b, m) (b1, m1)" by simp
  with Cons.prems(4) have "\<not> overflowed b" using bio_ext_sticky by blast
  from get_put [OF Cons.prems(1) w put this bio_ext_trans [OF ext1 Cons.prems(5)] Cons.prems(6)]
  obtain r1 where r1: "get (kind v) mr r = (w, r1)" "reader_at s (io_pos b) r1 mr" by blast
  from Cons.IH [OF inv rest' run Cons.prems(4,5) r1(2)] r1(1) ws show ?case by auto
qed

end

text \<open>The values of a message and the reader for each kind of item; \<open>VNull\<close> is a string that
  is not there.\<close>

datatype bio_val = VU32 u32 | VStr "u16 list" | VNull | VRef u32
datatype bio_kind = KU32 | KStr | KRef

fun item_kind :: "bio_item \<Rightarrow> bio_kind" where
  "item_kind (PutU32 _) = KU32"
| "item_kind (PutObj _) = KRef"
| "item_kind (PutRef _) = KRef"
| "item_kind (PutStr16 _) = KStr"
| "item_kind (PutStr16x _) = KStr"

fun bio_get_item :: "bio_kind \<Rightarrow> mem \<Rightarrow> binder_io \<Rightarrow> bio_val \<times> binder_io" where
  "bio_get_item KU32 m r = (let (n, r) = bio_get_uint32 m r in (VU32 n, r))"
| "bio_get_item KStr m r =
     (let (p, len, r) = bio_get_string16 m r in
      (if p = NULL then VNull else VStr (load_u16s m p (unat len)), r))"
| "bio_get_item KRef m r = (let (h, r) = bio_get_ref m r in (VRef h, r))"

text \<open>
  A null string is excluded (its length word is not a length), and so is the null handle,
  which \<open>bio_put_ref\<close> writes without an offset entry. An object of the sender that the
  driver has not translated is no handle to the reader.
\<close>

fun item_sem :: "bio_item \<Rightarrow> binder_io \<times> mem \<Rightarrow> bio_val \<Rightarrow> bool" where
  "item_sem (PutU32 n) s w \<longleftrightarrow> w = VU32 n"
| "item_sem (PutObj p) s w \<longleftrightarrow> w = VRef 0"
| "item_sem (PutRef h) s w \<longleftrightarrow> h \<noteq> 0 \<and> w = VRef h"
| "item_sem (PutStr16 a) (b, m) w \<longleftrightarrow> a \<noteq> NULL \<and>
     (\<exists>us. w = VStr us \<and> length us < 536870912 \<and> cstr16 m a us \<and>
        no_wrap a (2 * Suc (length us)) \<and> region a (2 * Suc (length us)) \<inter> bio_free b = {})"
| "item_sem (PutStr16x a) (b, m) w \<longleftrightarrow> a \<noteq> NULL \<and>
     (\<exists>s. w = VStr (map ucast s) \<and> length s < 536870912 \<and> cstr m a s \<and>
        no_wrap a (Suc (length s)) \<and> region a (Suc (length s)) \<inter> bio_free b = {})"

lemma item_sem_ok: "item_sem v s w \<Longrightarrow> item_ok v s"
  by (cases s; cases v) (auto simp: str_arg_def str16_arg_def)

lemma item_sem_later:
  assumes "bio_ext s s'" and "item_sem v s w"
  shows "item_sem v s' w"
proof -
  obtain b m b' m' where s: "s = (b, m)" "s' = (b', m')" by (cases s, cases s') auto
  with assms(1) have "agree_on (- bio_free b) m m'" and "bio_free b' \<subseteq> bio_free b"
    using bio_ext_free bio_ext_agree by auto
  with assms(2) s show ?thesis
    by (cases v) (fastforce intro: cstr_outside [of "bio_free b" m] cstr16_outside [of "bio_free b" m])+
qed

lemma item_string_codec:
  assumes inv: "bio_inv lo mid hi b0" and us: "length us < 536870912" and ok: "\<not> overflowed b1"
    and steps: "\<And>b' m' p b''. bio_put_uint32 (of_nat (length us)) (b0, m0) = (b', m') \<Longrightarrow>
      bio_alloc b' ((of_nat (length us) + 1) * sizeof_uint16) = (p, b'') \<Longrightarrow>
      (b1, m1) = (b'', if p = NULL then m' else store_bytes m' p (enc16 (us @ [0])))"
    and ext: "bio_ext (b1, m1) s" and at: "reader_at s (io_pos b0) r mr"
  shows "\<exists>r'. bio_get_item KStr mr r = (VStr us, r') \<and> reader_at s (io_pos b1) r' mr"
proof -
  obtain b' m' where put: "bio_put_uint32 (of_nat (length us)) (b0, m0) = (b', m')" by fastforce
  obtain p b'' where alloc: "bio_alloc b' ((of_nat (length us) + 1) * sizeof_uint16) = (p, b'')"
    by fastforce
  from steps [OF put alloc] have b1: "b'' = b1"
    and m1: "m1 = (if p = NULL then m' else store_bytes m' p (enc16 (us @ [0])))" by auto
  note inv' = bio_ext_inv [OF inv]
  have "bio_ext (b0, m0) (b', m')"
    using put_uint32_ext [OF inv, where m = m0 and n = "of_nat (length us)"] put by simp
  then have "io_data b' \<noteq> NULL" using inv' bio_inv_nonnull by blast
  then have "p \<noteq> NULL" using alloc_done(2) [OF alloc] ok b1 by simp
  with m1 have m1: "m1 = store_bytes m' p (enc16 (us @ [0]))" by simp
  from string_codec [OF inv put alloc [unfolded b1] m1 us ok ext at] show ?thesis
    using us by (auto simp: unat_of_nat_small)
qed

lemma item_object_codec:
  assumes inv: "bio_inv lo mid hi b0" and ok: "\<not> overflowed b1"
    and steps: "\<And>p b' m'. bio_alloc_obj b0 m0 = (p, b', m') \<Longrightarrow>
      (b1, m1) = (if p = NULL then (b', m') else (b', store_obj m' p ty h))"
    and ext: "bio_ext (b1, m1) s" and at: "reader_at s (io_pos b0) r mr"
  shows "\<exists>r'. bio_get_item KRef mr r = (VRef (if ty = BINDER_TYPE_HANDLE then h else 0), r') \<and>
    reader_at s (io_pos b1) r' mr"
proof -
  obtain p b' m' where alloc: "bio_alloc_obj b0 m0 = (p, b', m')" by (cases "bio_alloc_obj b0 m0") auto
  from steps [OF alloc] have b': "b' = b1" by (auto split: if_splits)
  from alloc_obj_done(1) [OF inv alloc [unfolded b'] ok] steps [OF alloc]
  have m1: "m1 = store_obj m' p ty h" by simp
  from object_codec [OF inv alloc [unfolded b'] ok ext [unfolded m1] at] show ?thesis by auto
qed

interpretation message: bio_codec bio_put item_ok item_kind bio_get_item item_sem
proof unfold_locales
  fix lo mid hi b0 v m0 w b1 m1 s r mr
  assume inv: "bio_inv lo mid hi b0" and sem: "item_sem v (b0, m0) w"
    and put: "bio_put v (b0, m0) = Some (b1, m1)" and ok: "\<not> overflowed b1"
    and ext: "bio_ext (b1, m1) s" and at: "reader_at s (io_pos b0) r mr"
  show "\<exists>r'. bio_get_item (item_kind v) mr r = (w, r') \<and> reader_at s (io_pos b1) r' mr"
  proof (cases v)
    case (PutU32 n)
    with put have "bio_put_uint32 n (b0, m0) = (b1, m1)" by simp
    from uint32_codec [OF inv this ok ext at] PutU32 sem show ?thesis by simp
  next
    case (PutObj p)
    with put have "(b1, m1) = (if q = NULL then (b', m') else (b', store_obj m' q BINDER_TYPE_BINDER p))"
      if "bio_alloc_obj b0 m0 = (q, b', m')" for q b' m'
      using that by (simp add: bio_put_obj_def)
    from item_object_codec [OF inv ok this ext at] PutObj sem show ?thesis
      by (simp add: proto_values)
  next
    case (PutRef h)
    with put sem have "(b1, m1) = (if q = NULL then (b', m') else (b', store_obj m' q BINDER_TYPE_HANDLE h))"
      if "bio_alloc_obj b0 m0 = (q, b', m')" for q b' m'
      using that by (simp add: bio_put_ref_def)
    from item_object_codec [OF inv ok this ext at] PutRef sem show ?thesis by simp
  next
    case (PutStr16 a)
    with sem obtain us where us: "a \<noteq> NULL" "w = VStr us" "length us < 536870912" "cstr16 m0 a us"
      "no_wrap a (2 * Suc (length us))" "region a (2 * Suc (length us)) \<inter> bio_free b0 = {}"
      by auto
    from put PutStr16 have
      "(b1, m1) = (b'', if p = NULL then m' else store_bytes m' p (enc16 (us @ [0])))"
      if "bio_put_uint32 (of_nat (length us)) (b0, m0) = (b', m')"
        "bio_alloc b' ((of_nat (length us) + 1) * sizeof_uint16) = (p, b'')" for b' m' p b''
      using put_string16_steps [OF inv us(1,3,4,5,6) that] by simp
    from item_string_codec [OF inv us(3) ok this ext at] PutStr16 us(2) show ?thesis by simp
  next
    case (PutStr16x a)
    with sem obtain cs where cs: "a \<noteq> NULL" "w = VStr (map ucast cs)" "length cs < 536870912"
      "cstr m0 a cs" "no_wrap a (Suc (length cs))" "region a (Suc (length cs)) \<inter> bio_free b0 = {}"
      by auto
    let ?us = "map ucast cs :: u16 list"
    from put PutStr16x have
      "(b1, m1) = (b'', if p = NULL then m' else store_bytes m' p (enc16 (?us @ [0])))"
      if "bio_put_uint32 (of_nat (length ?us)) (b0, m0) = (b', m')"
        "bio_alloc b' ((of_nat (length ?us) + 1) * sizeof_uint16) = (p, b'')" for b' m' p b''
      using put_string16_x_steps [OF inv cs(1,3,4,5,6)] that by simp
    from item_string_codec [OF inv _ ok this ext at] PutStr16x cs(2,3) show ?thesis by simp
  qed
qed (auto intro: item_sem_ok item_sem_later)

text \<open>The receiver of a transaction whose sizes are the ones \<open>binder_call\<close> computes.\<close>

lemma receiver_starts:
  assumes "unat (txn_data_size t) = io_pos b" and "unat (txn_offsets_size t) = offs_pos b"
    and "4 dvd offs_pos b"
    and "0 < unat (txn_buffer t)" and "unat (txn_buffer t) + io_pos b < 4294967296"
    and "no_wrap (txn_offsets t) (offs_pos b)"
    and "load_bytes mr (txn_buffer t) (io_pos b) = load_bytes m (io_data0 b) (io_pos b)"
    and "load_bytes mr (txn_offsets t) (offs_pos b) = load_bytes m (io_offs0 b) (offs_pos b)"
  shows "reader_at (b, m) 0 (bio_init_from_txn r t) mr"
  using assms
  by (simp add: reader_at.simps delivered.simps bio_init_from_txn_def sizeof_size_t_def unat_div)

lemma offs_pos_whole: "bio_inv lo mid hi b \<Longrightarrow> 4 dvd offs_pos b"
proof -
  assume inv: "bio_inv lo mid hi b"
  then have "offs_pos b + 4 * unat (io_offs_avail b) = mid - lo" "4 dvd mid - lo"
    by (auto simp: bio_inv_def offs_pos_def whole_entries_def)
  then have "4 dvd offs_pos b + 4 * unat (io_offs_avail b)" by simp
  then show ?thesis by (simp add: dvd_add_left_iff)
qed

subsection \<open>How far a reader can go\<close>

definition io_end :: "binder_io \<Rightarrow> nat" where
  "io_end b = unat (io_data b) + unat (io_data_avail b)"

lemma bio_get_end:
  assumes "io_end b < 4294967296" and "bio_get b sz = (p, b')"
  shows "io_end b' \<le> io_end b" and "unat (io_data b) \<le> unat (io_data b')"
    and "p \<noteq> NULL \<Longrightarrow> p = io_data b \<and> unat p + unat (align4 sz) \<le> io_end b"
  using assms
  by (cases "unat (align4 sz) \<le> unat (io_data_avail b)";
      auto simp: bio_get_fits bio_get_full io_end_def unat_add_nowrap unat_sub word_le_nat_alt)+

lemma bio_get_uint32_end:
  assumes "io_end b < 4294967296" and "bio_get_uint32 m b = (n, b')"
  shows "io_end b' \<le> io_end b" and "unat (io_data b) \<le> unat (io_data b')"
  using assms bio_get_end [of b 4]
  by (auto simp: bio_get_uint32_def Let_def split: prod.splits)

lemma bio_get_string16_inside_end:
  assumes "io_end b < 4294967296" and "bio_get_string16 m b = (p, len, b')"
  shows "io_end b' \<le> io_end b" and "unat (io_data b) \<le> unat (io_data b')"
    and "p \<noteq> NULL \<Longrightarrow> unat len < 0x7FFFFFFE \<Longrightarrow>
      unat (io_data b) \<le> unat p \<and> unat p + 2 * Suc (unat len) \<le> io_end b"
proof -
  obtain b1 where 1: "bio_get_uint32 m b = (len, b1)"
    and 2: "bio_get b1 ((len + 1) * sizeof_uint16) = (p, b')"
    using assms(2) by (auto simp: bio_get_string16_def Let_def split: prod.splits)
  note e1 = bio_get_uint32_end [OF assms(1) 1]
  have "io_end b1 < 4294967296" using e1(1) assms(1) by linarith
  note e2 = bio_get_end [OF this 2]
  show "io_end b' \<le> io_end b" and "unat (io_data b) \<le> unat (io_data b')"
    using e1 e2(1,2) by linarith+
  assume p: "p \<noteq> NULL" and len: "unat len < 0x7FFFFFFE"
  have "unat ((len + 1) * sizeof_uint16) = 2 * Suc (unat len)"
    using len by (simp add: sizeof_uint16_def unat_word_ariths)
  then have "2 * Suc (unat len) \<le> unat (align4 ((len + 1) * sizeof_uint16))"
    using len align4_ge [of "(len + 1) * sizeof_uint16"] by simp
  with e2(3) [OF p] e1 show "unat (io_data b) \<le> unat p \<and> unat p + 2 * Suc (unat len) \<le> io_end b"
    by auto
qed

lemma bio_get_obj_end:
  assumes "io_end b < 4294967296" and "bio_get_obj m b = (p, b')"
  shows "io_end b' \<le> io_end b" and "unat (io_data b) \<le> unat (io_data b')"
    and "p \<noteq> NULL \<Longrightarrow> p = io_data b \<and> unat p + 16 \<le> io_end b"
  using assms bio_get_end [of b 16]
  by (auto simp: bio_get_obj_def Let_def proto_values split: if_splits) (simp_all add: io_end_def)

lemma bio_get_item_end:
  assumes "io_end b < 4294967296" and "bio_get_item k m b = (w, b')"
  shows "io_end b' \<le> io_end b \<and> unat (io_data b) \<le> unat (io_data b')"
  using assms
  by (cases k) (auto simp: bio_get_ref_def Let_def split: prod.splits if_splits
      dest: bio_get_uint32_end bio_get_string16_inside_end(1,2) bio_get_obj_end(1,2))

subsection \<open>A whole message, from its writer to its reader\<close>

text \<open>The receiver's memory \<open>mr\<close> holds the message \<open>(b, m)\<close> where its transaction \<open>t\<close> says: the
  driver has copied the bytes that \<open>binder_call\<close> names.\<close>

definition carried :: "binder_io \<times> mem \<Rightarrow> binder_transaction_data \<Rightarrow> mem \<Rightarrow> bool" where
  "carried = (\<lambda>(b, m) t mr.
     txn_data_size t = io_data b - io_data0 b \<and> txn_offsets_size t = io_offs b - io_offs0 b \<and>
     0 < unat (txn_buffer t) \<and> unat (txn_buffer t) + unat (txn_data_size t) < 4294967296 \<and>
     no_wrap (txn_offsets t) (unat (txn_offsets_size t)) \<and>
     load_bytes mr (txn_buffer t) (unat (txn_data_size t)) = load_bytes m (io_data0 b) (unat (txn_data_size t)) \<and>
     load_bytes mr (txn_offsets t) (unat (txn_offsets_size t)) = load_bytes m (io_offs0 b) (unat (txn_offsets_size t)))"

lemma message_carried:
  assumes "0 < unat dat" and "unat dat + unat maxdata < 4294967296"
    and "4 * unat maxoffs \<le> unat maxdata"
    and "list_all2 (\<lambda>v w. item_sem v (bio_init b dat maxdata maxoffs, m) w) items vals"
    and "run_all bio_put items (bio_init b dat maxdata maxoffs, m) = Some (b1, m1)"
    and "\<not> overflowed b1" and "carried (b1, m1) t mr"
  shows "\<exists>r'. read_all bio_get_item (map item_kind items) mr (bio_init_from_txn r t) = (vals, r') \<and>
    reader_at (b1, m1) (io_pos b1) r' mr"
proof -
  let ?b0 = "bio_init b dat maxdata maxoffs"
  note inv = bio_init_inv [OF assms(1-3), of b]
  have "\<forall>v\<in>set items. item_ok v (?b0, m)"
    using assms(4) item_sem_ok by (fastforce simp: list_all2_conv_all_nth in_set_conv_nth)
  from items.put_all_returns [OF inv this] assms(5) have ext: "bio_ext (?b0, m) (b1, m1)" by simp
  note inv1 = bio_ext_inv [OF inv ext]
  have sizes: "unat (txn_data_size t) = io_pos b1" "unat (txn_offsets_size t) = offs_pos b1"
    using inv1 assms(7)
    by (simp_all add: carried_def bio_inv_def io_pos_def offs_pos_def unat_sub word_le_nat_alt)
  have "reader_at (b1, m1) 0 (bio_init_from_txn r t) mr"
    by (rule receiver_starts [OF sizes offs_pos_whole [OF inv1]])
      (use assms(7) sizes in \<open>simp_all add: carried_def\<close>)
  moreover have "io_pos ?b0 = 0"
    using bio_init_fits(2) [OF assms(3)] by (simp add: io_pos_def bio_init_def Let_def)
  ultimately show ?thesis
    using message.read_all_put_all [OF inv assms(4-6) bio_ext_refl, of "bio_init_from_txn r t" mr]
    by auto
qed

subsection \<open>Properties\<close>

text \<open>C4: a message of words, handles other than 0, objects, and strings that are not NULL and have fewer
  than 2 ^ 29 characters (\<open>item_sem\<close>), written by any sequence of puts that did not overflow, sent with
  the sizes \<open>binder_call\<close> puts in the transaction and copied anywhere by the driver, is read back by
  the matching gets, item by item and value by value; an object that the driver has not turned into
  a handle reads as 0. Of the items left out, \<open>bio_put_ref\<close> writes the handle 0 without the offset
  entry that \<open>bio_get_ref\<close> needs, and a NULL string is written as a length word that is no length
  (\<open>bio_get_string16_wraps\<close>).\<close>
theorem message_roundtrip:
  assumes "0 < unat dat" and "unat dat + unat maxdata < 4294967296"
    and "4 * unat maxoffs \<le> unat maxdata"
    and "list_all2 (\<lambda>v w. item_sem v (bio_init b dat maxdata maxoffs, m) w) items vals"
    and "run_all bio_put items (bio_init b dat maxdata maxoffs, m) = Some (b1, m1)"
    and "\<not> overflowed b1"
    and "txn_data_size t = io_data b1 - io_data0 b1"
    and "txn_offsets_size t = io_offs b1 - io_offs0 b1"
    and "0 < unat (txn_buffer t)" and "unat (txn_buffer t) + unat (txn_data_size t) < 4294967296"
    and "no_wrap (txn_offsets t) (unat (txn_offsets_size t))"
    and "load_bytes mr (txn_buffer t) (unat (txn_data_size t)) =
      load_bytes m1 (io_data0 b1) (unat (txn_data_size t))"
    and "load_bytes mr (txn_offsets t) (unat (txn_offsets_size t)) =
      load_bytes m1 (io_offs0 b1) (unat (txn_offsets_size t))"
  shows "fst (read_all bio_get_item (map item_kind items) mr (bio_init_from_txn r t)) = vals"
proof -
  have "carried (b1, m1) t mr" using assms(7-13) by (simp add: carried_def)
  from message_carried [OF assms(1-6) this, of r] show ?thesis by auto
qed

definition example_sent :: "binder_io \<times> mem" where
  "example_sent = the (run_all bio_put example_items (bio_init example_bio 0x2000 128 4, example_mem))"

definition example_txn :: binder_transaction_data where
  "example_txn = \<lparr>txn_target = 0, txn_cookie = 0, txn_code = 1, txn_flags = 0, txn_sender_pid = 0,
     txn_sender_euid = 0, txn_data_size = 32, txn_offsets_size = 4, txn_buffer = 0x2010,
     txn_offsets = 0x2000\<rparr>"

theorem message_roundtrip_witness:
  "fst (read_all bio_get_item (map item_kind example_items) (snd example_sent)
     (bio_init_from_txn example_bio example_txn)) = [VU32 7, VStr [0x68, 0x69], VRef 5]"
proof -
  let ?s = "(bio_init example_bio 0x2000 128 4, example_mem)"
  have "cstr example_mem 1000 [0x68, 0x69]" by (simp add: example_mem_def)
  moreover have "region 1000 (Suc (length [0x68, 0x69 :: byte])) \<inter> bio_free (fst ?s) = {}"
    by (auto simp: bio_init_def sizeof_size_t_def bio_free_def in_region)
  ultimately have "item_sem (PutStr16x 1000) ?s (VStr [0x68, 0x69])"
    by (auto simp: no_wrap_def intro!: exI [of _ "[0x68, 0x69] :: byte list"])
  then have sem: "list_all2 (\<lambda>v w. item_sem v ?s w) example_items [VU32 7, VStr [0x68, 0x69], VRef 5]"
    by (simp add: example_items_def)
  have run: "run_all bio_put example_items ?s = Some (fst example_sent, snd example_sent)"
    using bio_puts_returns_example by (auto simp: example_sent_def)
  have "\<not> overflowed (fst example_sent)" "io_data (fst example_sent) = 0x2030"
    "io_data0 (fst example_sent) = 0x2010" "io_offs (fst example_sent) = 0x2004"
    "io_offs0 (fst example_sent) = 0x2000"
    by code_simp+
  then show ?thesis
    by (intro message_roundtrip [OF _ _ _ sem run]) (simp_all add: example_txn_def no_wrap_def)
qed

text \<open>For a length word below 0x7FFFFFFE, the string pointer \<open>bio_get_string16\<close> returns has
  all its \<open>len + 1\<close> units inside the received data.\<close>
theorem bio_get_string16_inside:
  assumes "unat (io_data b) + unat (io_data_avail b) < 4294967296"
    and "bio_get_string16 m b = (p, len, b')" and "p \<noteq> NULL" and "unat len < 0x7FFFFFFE"
  shows "region p (2 * Suc (unat len)) \<subseteq> region (io_data b) (unat (io_data_avail b))"
  using bio_get_string16_inside_end(3) [of b m p len b'] assms
  by (intro region_sub) (auto simp: io_end_def)

definition example_reader :: binder_io where
  "example_reader = \<lparr>io_data = 0x100, io_offs = 0, io_data_avail = 12, io_offs_avail = 0,
     io_data0 = 0x100, io_offs0 = 0, io_flags = 1, io_unused = 0\<rparr>"

definition example_incoming :: mem where
  "example_incoming = store_bytes (\<lambda>_. 0) 0x100 [2, 0, 0, 0, 0x68, 0, 0x69, 0]"

theorem bio_get_string16_inside_witness:
  "\<exists>p len b'. bio_get_string16 example_incoming example_reader = (p, len, b') \<and> len = 2 \<and>
     region p (2 * Suc (unat len)) \<subseteq> region 0x100 12"
proof -
  have "fst (bio_get_string16 example_incoming example_reader) = 0x104"
    "fst (snd (bio_get_string16 example_incoming example_reader)) = 2" by code_simp+
  then obtain b' where "bio_get_string16 example_incoming example_reader = (0x104, 2, b')"
    by (metis prod.collapse)
  with bio_get_string16_inside [OF _ this] show ?thesis by (simp add: example_reader_def)
qed

text \<open>C19: the bound fails above it. \<open>(len + 1) * sizeof(uint16_t)\<close> is computed in a 32-bit
  \<open>size_t\<close>: a message that ends right after the length word 0xFFFFFFFF yields a non-NULL string
  pointer to the end of the data, with length 0xFFFFFFFF and no overflow mark, so the caller may
  read past everything that was received.\<close>
theorem bio_get_string16_wraps:
  assumes "unat (io_data b) + 4 < 4294967296" and "io_data b \<noteq> NULL" and "io_data_avail b = 4"
    and "load32 m (io_data b) = 0xFFFFFFFF" and "\<not> overflowed b"
  shows "\<exists>b'. bio_get_string16 m b = (io_data b + 4, 0xFFFFFFFF, b') \<and>
    io_data b + 4 \<noteq> NULL \<and> io_data_avail b' = 0 \<and> \<not> overflowed b' \<and>
    region (io_data b + 4) 2 \<inter> region (io_data b) (unat (io_data_avail b)) = {}"
proof -
  have u: "unat (io_data b + 4) = unat (io_data b) + 4"
    using assms(1) by (simp add: unat_add_nowrap)
  then have nz: "io_data b + 4 \<noteq> NULL" by (metis add_is_0 unsigned_0 zero_neq_numeral)
  have "bio_get_string16 m b = (io_data b + 4, 0xFFFFFFFF, bio_advance (bio_advance b 4) 0)"
    using assms by (simp add: bio_get_string16_def bio_get_uint32_def bio_get_fits Let_def
        sizeof_uint16_def align4_def bio_get_def)
  with nz u assms show ?thesis
    by (auto simp: in_region overflowed_def)
qed

theorem bio_get_string16_wraps_witness:
  "\<exists>b'. bio_get_string16 (store32 (\<lambda>_. 0) 0x100 0xFFFFFFFF) (example_reader\<lparr>io_data_avail := 4\<rparr>) =
     (0x104, 0xFFFFFFFF, b') \<and> io_data_avail b' = 0 \<and> \<not> overflowed b'"
  using bio_get_string16_wraps [of "example_reader\<lparr>io_data_avail := 4\<rparr>" "store32 (\<lambda>_. 0) 0x100 0xFFFFFFFF"]
  by (auto simp: example_reader_def overflowed_def BIO_F_OVERFLOW_def)

text \<open>C20: no sequence of gets, whatever the message holds, moves a reader past the end of the
  received data or backwards.\<close>
theorem readers_stay_inside:
  assumes "unat (io_data b) + unat (io_data_avail b) < 4294967296"
    and "snd (read_all bio_get_item kinds m b) = b'"
  shows "unat (io_data b) \<le> unat (io_data b') \<and>
    unat (io_data b') + unat (io_data_avail b') \<le> unat (io_data b) + unat (io_data_avail b)"
  using assms
proof (induction kinds arbitrary: b)
  case Nil
  then show ?case by simp
next
  case (Cons k kinds)
  obtain w b1 where 1: "bio_get_item k m b = (w, b1)" by fastforce
  note e = bio_get_item_end [OF Cons.prems(1) [folded io_end_def] 1]
  then have "io_end b1 < 4294967296" using Cons.prems(1) by (simp add: io_end_def)
  from Cons.IH [OF this [unfolded io_end_def]] Cons.prems(2) 1 e show ?case
    by (auto simp: io_end_def split: prod.splits)
qed

theorem readers_stay_inside_witness:
  "\<exists>b'. snd (read_all bio_get_item [KStr, KU32, KRef] example_incoming example_reader) = b' \<and>
     0x100 \<le> unat (io_data b') \<and> unat (io_data b') + unat (io_data_avail b') \<le> 0x10C"
  using readers_stay_inside [of example_reader "[KStr, KU32, KRef]" example_incoming, OF _ refl]
  by (simp add: example_reader_def)

end
