(* ===== verification/Binder_Run.thy ===== *)
theory Binder_Run
  imports Binder_Parse Bio_Read
begin

text \<open>
  The process layer of \<open>binder.c\<close> against a kernel that keeps to the documented protocol:
  \<open>honest_kernel\<close> says that a \<open>BINDER_WRITE_READ\<close> answers with whole return commands that fit
  the read buffer, writes message buffers into the mapped area only, and reports deaths only
  with cookies the process has registered. \<open>env_step\<close> is what such calls may change. The
  locale \<open>binder_service\<close> is the contract between \<open>binder_parse\<close> and a handler.
\<close>

subsection \<open>The kernel's side of the protocol\<close>

text \<open>The cookies of the death notifications asked for so far.\<close>

primrec cookie_of :: "request \<Rightarrow> addr list" where
  "cookie_of Open = []"
| "cookie_of (Close d) = []"
| "cookie_of (Free a) = []"
| "cookie_of (Mmap d n) = []"
| "cookie_of (Munmap a n) = []"
| "cookie_of (GetVersion d) = []"
| "cookie_of (SetContextMgr d) = []"
| "cookie_of (SetMaxThreads d n) = []"
| "cookie_of (WriteRead d bwr m) =
     (let w = write_buffer bwr in
      if length w = 12 \<and> take 4 w = le32 BC_REQUEST_DEATH_NOTIFICATION
      then [un32 (w ! 8) (w ! 9) (w ! 10) (w ! 11)] else [])"

definition death_cookies :: "request list \<Rightarrow> addr list" where
  "death_cookies rs = concat (map cookie_of rs)"

lemma death_cookies_append [simp]:
  "death_cookies (rs @ rs') = death_cookies rs @ death_cookies rs'"
  "death_cookies [] = []" "death_cookies (rq # rs) = cookie_of rq @ death_cookies rs"
  by (simp_all add: death_cookies_def)

text \<open>The references to remote objects taken and given back so far.\<close>

datatype ref_change = Acquired u32 | Released u32

primrec ref_of :: "request \<Rightarrow> ref_change list" where
  "ref_of Open = []"
| "ref_of (Close d) = []"
| "ref_of (Free a) = []"
| "ref_of (Mmap d n) = []"
| "ref_of (Munmap a n) = []"
| "ref_of (GetVersion d) = []"
| "ref_of (SetContextMgr d) = []"
| "ref_of (SetMaxThreads d n) = []"
| "ref_of (WriteRead d bwr m) =
     (let w = write_buffer bwr; h = un32 (w ! 4) (w ! 5) (w ! 6) (w ! 7) in
      if length w = 8 \<and> take 4 w = le32 BC_ACQUIRE then [Acquired h]
      else if length w = 8 \<and> take 4 w = le32 BC_RELEASE then [Released h]
      else [])"

definition ref_changes :: "request list \<Rightarrow> ref_change list" where
  "ref_changes rs = concat (map ref_of rs)"

lemma ref_changes_append [simp]:
  "ref_changes (rs @ rs') = ref_changes rs @ ref_changes rs'"
  "ref_changes [] = []" "ref_changes (rq # rs) = ref_of rq @ ref_changes rs"
  by (simp_all add: ref_changes_def)

text \<open>The message of a transaction lies in the mapped area.\<close>

definition txn_in :: "addr set \<Rightarrow> binder_transaction_data \<Rightarrow> bool" where
  "txn_in area t \<longleftrightarrow> unat (txn_buffer t) + unat (txn_data_size t) < 4294967296 \<and>
     region (txn_buffer t) (unat (txn_data_size t)) \<subseteq> area"

fun br_ok :: "addr set \<Rightarrow> addr set \<Rightarrow> br \<Rightarrow> bool" where
  "br_ok cookies area (DeadBinder d) = (d \<in> cookies)"
| "br_ok cookies area (Transaction t) = txn_in area t"
| "br_ok cookies area c = True"

definition speaks :: "addr set \<Rightarrow> addr set \<Rightarrow> nat \<Rightarrow> answer \<Rightarrow> bool" where
  "speaks cookies area n ans \<longleftrightarrow>
     length (ans_read ans) \<le> n \<and>
     (\<exists>cs. ans_read ans = encode_brs cs \<and> (\<forall>c\<in>set cs. br_ok cookies area c)) \<and>
     (\<forall>(a, bs)\<in>set (ans_deliver ans). no_wrap a (length bs) \<and> region a (length bs) \<subseteq> area)"

definition honest_kernel :: "'g image \<Rightarrow> addr set \<Rightarrow> bool" where
  "honest_kernel im area \<longleftrightarrow>
     (\<forall>h d bwr m. speaks (set (death_cookies h)) area (unat (read_size bwr))
        (kernel im (h @ [WriteRead d bwr m])))"

subsection \<open>What system calls change\<close>

definition env_step :: "addr set \<Rightarrow> 'g process \<Rightarrow> 'g process \<Rightarrow> bool" where
  "env_step S p p' \<longleftrightarrow>
     blocks p' = blocks p \<and> globals p' = globals p \<and> budget p' \<le> budget p \<and>
     (\<exists>rs. requests p' = requests p @ rs) \<and> agree_on (- S) (pmem p) (pmem p')"

lemma env_step_refl [simp]: "env_step S p p"
  by (simp add: env_step_def)

lemma env_step_trans [trans]: "env_step S p p' \<Longrightarrow> env_step S p' p'' \<Longrightarrow> env_step S p p''"
  unfolding env_step_def by (auto intro: agree_on_trans)

lemma env_step_mono: "env_step S p p' \<Longrightarrow> S \<subseteq> T \<Longrightarrow> env_step T p p'"
  unfolding env_step_def by (auto intro: agree_on_mono)

lemma deliver_agree:
  "(\<forall>(a, bs)\<in>set ds. no_wrap a (length bs) \<and> region a (length bs) \<subseteq> area) \<Longrightarrow>
     agree_on (- area) m (deliver ds m)"
proof (induction ds arbitrary: m)
  case (Cons d ds)
  then have "agree_on (- area) m (store_bytes m (fst d) (snd d))"
    by (intro agree_on_store_bytes) auto
  moreover have "agree_on (- area) (store_bytes m (fst d) (snd d)) (deliver (d # ds) m)"
    using Cons by simp
  ultimately show ?case by (rule agree_on_trans)
qed simp

text \<open>After a read, the buffer holds whole commands.\<close>

definition holds_commands :: "addr set \<Rightarrow> addr set \<Rightarrow> 'g process \<Rightarrow> addr \<Rightarrow> u32 \<Rightarrow> nat \<Rightarrow> bool" where
  "holds_commands cookies area p a k n \<longleftrightarrow>
     (\<exists>cs. k = of_nat (length (encode_brs cs)) \<and> length (encode_brs cs) \<le> n \<and>
        load_bytes (pmem p) a (length (encode_brs cs)) = encode_brs cs \<and>
        (\<forall>c\<in>set cs. br_ok cookies area c))"

lemma br_ok_mono: "br_ok C area c \<Longrightarrow> C \<subseteq> D \<Longrightarrow> br_ok D area c"
  by (cases c) auto

lemma holds_commands_mono:
  "holds_commands C area p a k n \<Longrightarrow> C \<subseteq> D \<Longrightarrow> holds_commands D area p a k n"
  unfolding holds_commands_def using br_ok_mono by blast

text \<open>What an answered \<open>BINDER_WRITE_READ\<close>, the last call of the log \<open>h\<close>, leaves in memory.\<close>

definition mem_after :: "'g image \<Rightarrow> request list \<Rightarrow> mem" where
  "mem_after im h = (case last h of
     WriteRead d bwr m \<Rightarrow>
       store_bytes (deliver (ans_deliver (kernel im h)) m) (read_buffer bwr) (ans_read (kernel im h))
   | _ \<Rightarrow> (\<lambda>_. 0))"

definition holds_answer :: "'g image \<Rightarrow> addr set \<Rightarrow> addr set \<Rightarrow> 'g process \<Rightarrow> addr \<Rightarrow> u32 \<Rightarrow> nat \<Rightarrow> bool" where
  "holds_answer im cookies area p a k n \<longleftrightarrow> pmem p = mem_after im (requests p) \<and>
     (\<exists>cs. ans_read (kernel im (requests p)) = encode_brs cs \<and> k = of_nat (length (encode_brs cs)) \<and>
        length (encode_brs cs) \<le> n \<and> load_bytes (pmem p) a (length (encode_brs cs)) = encode_brs cs \<and>
        (\<forall>c\<in>set cs. br_ok cookies area c))"

lemma holds_answer_commands: "holds_answer im cookies area p a k n \<Longrightarrow> holds_commands cookies area p a k n"
  by (auto simp: holds_answer_def holds_commands_def)

lemma ioctl_answer_wp:
  assumes honest: "honest_kernel im area"
    and room: "no_wrap (read_buffer bwr) (unat (read_size bwr))"
    and S: "area \<subseteq> S" "region (read_buffer bwr) (unat (read_size bwr)) \<subseteq> S"
  shows "wp (ioctl_write_read im bs bwr p)
    (\<lambda>(res, bwr') p'. env_step S p p' \<and> budget p' < budget p \<and> threads p' = threads p \<and>
       requests p' = requests p @ [WriteRead (fd bs) bwr (pmem p)] \<and>
       res = ans_ret (kernel im (requests p')) \<and>
       holds_answer im (set (death_cookies (requests p))) area p' (read_buffer bwr) (read_consumed bwr')
         (unat (read_size bwr)) \<and>
       write_buffer bwr' = write_buffer bwr \<and> write_size bwr' = write_size bwr)
    (\<lambda>p'. env_step S p p' \<and> requests p' = requests p @ [WriteRead (fd bs) bwr (pmem p)])"
proof -
  let ?rq = "WriteRead (fd bs) bwr (pmem p)"
  let ?ans = "kernel im (requests p @ [?rq])"
  let ?m = "deliver (ans_deliver ?ans) (pmem p)"
  have sp: "speaks (set (death_cookies (requests p))) area (unat (read_size bwr)) ?ans"
    using honest by (simp add: honest_kernel_def)
  then have len: "length (ans_read ?ans) \<le> unat (read_size bwr)"
    and dl: "agree_on (- area) (pmem p) ?m"
    by (auto simp: speaks_def intro: deliver_agree)
  note nw = no_wrap_mono [OF room len]
  have sub: "region (read_buffer bwr) (length (ans_read ?ans)) \<subseteq> S"
    using len S(2) region_sub [of "read_buffer bwr" "read_buffer bwr" "length (ans_read ?ans)"
        "unat (read_size bwr)"] by auto
  have "agree_on (- S) (pmem p) (store_bytes ?m (read_buffer bwr) (ans_read ?ans))"
    using S(1) sub
    by (intro agree_on_trans [OF agree_on_mono [OF dl] agree_on_store_bytes [OF nw]]) auto
  moreover have "holds_answer im (set (death_cookies (requests p))) area q (read_buffer bwr)
      (of_nat (length (ans_read ?ans))) (unat (read_size bwr))"
    if "requests q = requests p @ [?rq]" "pmem q = store_bytes ?m (read_buffer bwr) (ans_read ?ans)" for q
    using sp that load_bytes_store_same [OF nw, of ?m] by (auto simp: holds_answer_def speaks_def mem_after_def)
  ultimately show ?thesis
    by (auto simp: ioctl_write_read_def syscall_def log_request_def Let_def env_step_def)
qed

lemma ioctl_wp:
  assumes "honest_kernel im area"
    and "no_wrap (read_buffer bwr) (unat (read_size bwr))"
    and "area \<subseteq> S" "region (read_buffer bwr) (unat (read_size bwr)) \<subseteq> S"
  shows "wp (ioctl_write_read im bs bwr p)
    (\<lambda>(res, bwr') p'. env_step S p p' \<and> budget p' < budget p \<and> threads p' = threads p \<and>
       requests p' = requests p @ [WriteRead (fd bs) bwr (pmem p)] \<and>
       holds_commands (set (death_cookies (requests p))) area p' (read_buffer bwr) (read_consumed bwr')
         (unat (read_size bwr)) \<and>
       write_buffer bwr' = write_buffer bwr \<and> write_size bwr' = write_size bwr)
    (\<lambda>p'. env_step S p p' \<and> requests p' = requests p @ [WriteRead (fd bs) bwr (pmem p)])"
  by (rule wp_mono [OF ioctl_answer_wp [OF assms]]) (auto intro: holds_answer_commands)

text \<open>A \<open>binder_write\<close> reads nothing back.\<close>

lemma binder_write_wp:
  assumes "honest_kernel im area" and "area \<subseteq> S"
  shows "wp (binder_write im bs dat p)
    (\<lambda>_ p'. env_step S p p' \<and> budget p' < budget p \<and> threads p' = threads p \<and>
       requests p' = requests p @ [WriteRead (fd bs)
         \<lparr>write_size = of_nat (length dat), write_consumed = 0, write_buffer = dat,
          read_size = 0, read_consumed = 0, read_buffer = 0\<rparr> (pmem p)])
    (\<lambda>p'. env_step S p p' \<and> requests p' = requests p @ [WriteRead (fd bs)
         \<lparr>write_size = of_nat (length dat), write_consumed = 0, write_buffer = dat,
          read_size = 0, read_consumed = 0, read_buffer = 0\<rparr> (pmem p)])"
  unfolding binder_write_def wp_and_then
  by (rule wp_mono [OF ioctl_wp [OF assms(1) _ assms(2)]]) (auto simp: no_wrap_def)

definition write_request :: "binder_state \<Rightarrow> byte list \<Rightarrow> mem \<Rightarrow> request" where
  "write_request bs dat m = WriteRead (fd bs)
     \<lparr>write_size = of_nat (length dat), write_consumed = 0, write_buffer = dat,
      read_size = 0, read_consumed = 0, read_buffer = 0\<rparr> m"

definition sends :: "addr set \<Rightarrow> request \<Rightarrow> 'g process \<Rightarrow> 'g process \<Rightarrow> bool" where
  "sends S rq p p' \<longleftrightarrow> env_step S p p' \<and> budget p' < budget p \<and> threads p' = threads p \<and>
     requests p' = requests p @ [rq]"

definition sending :: "addr set \<Rightarrow> request \<Rightarrow> 'g process \<Rightarrow> 'g process \<Rightarrow> bool" where
  "sending S rq p p' \<longleftrightarrow> env_step S p p' \<and> requests p' = requests p @ [rq]"

lemma binder_write_sends:
  assumes "honest_kernel im area" and "area \<subseteq> S"
  shows "wp (binder_write im bs dat p) (\<lambda>_. sends S (write_request bs dat (pmem p)) p)
    (sending S (write_request bs dat (pmem p)) p)"
  by (rule wp_mono [OF binder_write_wp [OF assms]]) (auto simp: sends_def sending_def write_request_def)

lemma one_command_wp:
  assumes "honest_kernel im area" and "area \<subseteq> S"
  shows
    "wp (binder_acquire im bs h p)
       (\<lambda>_. sends S (write_request bs (le32 BC_ACQUIRE @ le32 h) (pmem p)) p)
       (sending S (write_request bs (le32 BC_ACQUIRE @ le32 h) (pmem p)) p)"
    "wp (binder_release im bs h p)
       (\<lambda>_. sends S (write_request bs (le32 BC_RELEASE @ le32 h) (pmem p)) p)
       (sending S (write_request bs (le32 BC_RELEASE @ le32 h) (pmem p)) p)"
    "wp (binder_link_to_death im bs h d p)
       (\<lambda>_. sends S (write_request bs (le32 BC_REQUEST_DEATH_NOTIFICATION @
          encode_handle_cookie \<lparr>hc_handle = h, hc_cookie = d\<rparr>) (pmem p)) p)
       (sending S (write_request bs (le32 BC_REQUEST_DEATH_NOTIFICATION @
          encode_handle_cookie \<lparr>hc_handle = h, hc_cookie = d\<rparr>) (pmem p)) p)"
  unfolding binder_acquire_def binder_release_def binder_link_to_death_def wp_and_then wp_returns
  by (rule binder_write_sends [OF assms])+

lemma ref_of_write [simp]:
  "ref_of (write_request bs (le32 BC_ACQUIRE @ le32 h) m) = [Acquired h]"
  "ref_of (write_request bs (le32 BC_RELEASE @ le32 h) m) = [Released h]"
  "ref_of (write_request bs (le32 BC_FREE_BUFFER @ le32 a) m) = []"
  by (simp_all add: write_request_def le32_def un32_le32 nth_append bc_values)

lemma no_cookie [simp]:
  "cookie_of (write_request bs (le32 BC_ACQUIRE @ le32 h) m) = []"
  "cookie_of (write_request bs (le32 BC_RELEASE @ le32 h) m) = []"
  "cookie_of (write_request bs (le32 c) m) = []"
  "cookie_of (write_request bs (reply_frame im reply buf res) m) = []"
  by (simp_all add: write_request_def reply_frame_def Let_def)

lemma death_cookie_requested [simp]:
  "cookie_of (write_request bs (le32 BC_REQUEST_DEATH_NOTIFICATION @
     encode_handle_cookie \<lparr>hc_handle = h, hc_cookie = d\<rparr>) m) = [d]"
  by (simp add: write_request_def encode_handle_cookie_def le32_def un32_le32 nth_append)

lemma binder_send_reply_wp:
  assumes "honest_kernel im area" and "area \<subseteq> S" and "region (reply_status im) 4 \<subseteq> S"
    and "no_wrap (reply_status im) 4"
  shows "wp (binder_send_reply im bs reply buf res p)
    (\<lambda>_ p'. env_step S p p' \<and> budget p' < budget p \<and> threads p' = threads p \<and>
       requests p' = requests p @ [write_request bs (reply_frame im reply buf res)
         (store32 (pmem p) (reply_status im) (of_int res))])
    (\<lambda>p'. env_step S p p' \<and> requests p' = requests p @
       [write_request bs (reply_frame im reply buf res)
         (store32 (pmem p) (reply_status im) (of_int res))])"
proof -
  let ?q = "p\<lparr>pmem := store32 (pmem p) (reply_status im) (of_int res)\<rparr>"
  have "env_step S p ?q"
    using agree_on_store32 [OF assms(4), of "- S"] assms(3) by (auto simp: env_step_def)
  then have step: "env_step S ?q p' \<Longrightarrow> env_step S p p'" for p' by (rule env_step_trans)
  show ?thesis
    unfolding binder_send_reply_def wp_and_then wp_returns
    by (rule wp_mono [OF binder_write_sends [OF assms(1,2)]]) (auto simp: sends_def sending_def dest: step)
qed

subsection \<open>Calls\<close>

definition failed_reply :: binder_io where
  "failed_reply = zero_io\<lparr>io_flags := BIO_F_IOERROR\<rparr>"

lemma call_failed_returns: "call_failed p = returns (-1, failed_reply) p"
  by (simp add: call_failed_def failed_reply_def zero_io_def)

lemma call_status_first: "call_status cs r \<noteq> r \<Longrightarrow> call_status cs r = 0 \<Longrightarrow> first_reply cs \<noteq> None"
proof (induction cs arbitrary: r)
  case (Cons c cs)
  show ?case
  proof (cases "first_reply (c # cs) = None")
    case True
    then have "first_reply cs = None" "\<And>t. c \<noteq> Reply t" by (auto split: br.splits)
    moreover have "call_status cs r' = 0 \<Longrightarrow> r' = 0 \<or> first_reply cs \<noteq> None" for r'
      using Cons.IH [of r'] by auto
    ultimately show ?thesis using Cons.prems by (cases c) fastforce+
  qed simp
qed simp

lemma call_status_range: "call_status cs r \<in> {r, 0, -1}"
proof (induction cs arbitrary: r)
  case (Cons c cs)
  then show ?case by (cases c) (simp_all, (metis insertE insertI1 insertI2 empty_iff)+)
qed simp

lemma call_status_none: "call_status cs r = r \<Longrightarrow> r \<noteq> 0 \<Longrightarrow> r \<noteq> -1 \<Longrightarrow> first_reply cs = None"
proof (induction cs arbitrary: r)
  case (Cons c cs)
  have "call_status cs r' \<in> {r', 0, -1}" for r' by (rule call_status_range)
  from this [of 0] this [of "-1"] Cons show ?case by (cases c) auto
qed simp

text \<open>A client's process: it never asks for death notifications.\<close>

definition is_client :: "'g process \<Rightarrow> bool" where
  "is_client p \<longleftrightarrow> death_cookies (requests p) = []"

text \<open>
  What an answer of the driver means to a call: it goes on waiting, it has the reply \<open>t\<close>, or the call
  has failed. An answer stands for one list of return commands only (\<open>encode_brs_inject\<close>).
\<close>

definition undecided :: "answer \<Rightarrow> bool" where
  "undecided ans \<longleftrightarrow> 0 \<le> ans_ret ans \<and> (\<exists>cs. ans_read ans = encode_brs cs \<and> call_status cs 1 = 1)"

definition replied :: "answer \<Rightarrow> binder_transaction_data \<Rightarrow> bool" where
  "replied ans t \<longleftrightarrow> 0 \<le> ans_ret ans \<and>
     (\<exists>cs. ans_read ans = encode_brs cs \<and> call_status cs 1 = 0 \<and> first_reply cs = Some t)"

definition rejected :: "answer \<Rightarrow> bool" where
  "rejected ans \<longleftrightarrow> ans_ret ans < 0 \<or> (\<exists>cs. ans_read ans = encode_brs cs \<and> call_status cs 1 = -1)"

text \<open>The system calls of one \<open>binder_call\<close> after the log \<open>h\<close>: they write its frame and read into its
  buffer, and only an undecided answer is followed by another one.\<close>

definition call_request :: "'g image \<Rightarrow> byte list \<Rightarrow> request \<Rightarrow> bool" where
  "call_request im w rq \<longleftrightarrow>
     (\<exists>d bwr m. rq = WriteRead d bwr m \<and> read_buffer bwr = call_readbuf im \<and> write_buffer bwr = w)"

primrec call_log :: "'g image \<Rightarrow> byte list \<Rightarrow> request list \<Rightarrow> request list \<Rightarrow> bool" where
  "call_log im w h [] \<longleftrightarrow> True"
| "call_log im w h (rq # rs) \<longleftrightarrow> call_request im w rq \<and>
     (rs \<noteq> [] \<longrightarrow> undecided (kernel im (h @ [rq]))) \<and> call_log im w (h @ [rq]) rs"

definition calls_only :: "'g image \<Rightarrow> byte list \<Rightarrow> 'g process \<Rightarrow> 'g process \<Rightarrow> bool" where
  "calls_only im w p p' \<longleftrightarrow> (\<exists>rs. requests p' = requests p @ rs \<and> call_log im w (requests p) rs)"

lemma call_log_requests: "call_log im w h rs \<Longrightarrow> rq \<in> set rs \<Longrightarrow> call_request im w rq"
  by (induction rs arbitrary: h) auto

lemma calls_only_refl [simp]: "requests p' = requests p \<Longrightarrow> calls_only im w p p'"
  by (auto simp: calls_only_def intro: exI [of _ "[]"])

text \<open>Such a frame is no command about deaths or references.\<close>

lemma call_request_frame:
  assumes "call_request im (call_frame im' msg target code) rq"
  shows "cookie_of rq = []" and "ref_of rq = []"
  using assms by (auto simp: call_request_def call_frame_def Let_def)

lemma call_log_frame:
  assumes "call_log im (call_frame im' msg target code) h rs"
  shows "death_cookies rs = []" and "ref_changes rs = []"
  using call_log_requests [OF assms] call_request_frame by (fastforce simp: death_cookies_def ref_changes_def)+

lemma calls_only_frame:
  assumes "calls_only im (call_frame im' msg target code) p p'"
  shows "death_cookies (requests p') = death_cookies (requests p)" and "ref_changes (requests p') = ref_changes (requests p)"
  using assms call_log_frame by (fastforce simp: calls_only_def)+

lemma not_dead_binder_ok: "br_ok {} area c \<Longrightarrow> not_dead_binder c"
  by (cases c) auto

text \<open>How a call ends after the log \<open>h\<close>: its reply is set up from the transaction in the last answer, or
  that answer has failed it.\<close>

definition call_result :: "'g image \<Rightarrow> binder_io \<Rightarrow> request list \<Rightarrow> int \<Rightarrow> binder_io \<Rightarrow> bool" where
  "call_result im reply h res rep \<longleftrightarrow>
     res = 0 \<and> (\<exists>t. replied (kernel im h) t \<and> rep = bio_init_from_txn reply t) \<or>
     res = -1 \<and> rejected (kernel im h) \<and> rep = failed_reply"

definition call_ends ::
  "'g image \<Rightarrow> binder_state \<Rightarrow> byte list \<Rightarrow> binder_io \<Rightarrow> 'g process \<Rightarrow> int \<Rightarrow> binder_io \<Rightarrow> 'g process \<Rightarrow> bool" where
  "call_ends im bs w reply p res rep p' \<longleftrightarrow>
     (\<exists>bwr rs. requests p' = requests p @ WriteRead (fd bs) bwr (pmem p) # rs \<and>
        call_log im w (requests p) (WriteRead (fd bs) bwr (pmem p) # rs)) \<and>
     pmem p' = mem_after im (requests p') \<and>
     (\<exists>n. threads p' = threads p @ replicate n \<lparr>btd_bs = bs, btd_func = NULL\<rparr>) \<and>
     call_result im reply (requests p') res rep"

lemma call_ends_calls: "call_ends im bs w reply p res rep p' \<Longrightarrow> calls_only im w p p'"
  by (auto simp: call_ends_def calls_only_def)

lemma call_loop_wp:
  assumes honest: "honest_kernel im area"
    and S: "area \<subseteq> S" "region (call_readbuf im) 128 \<subseteq> S"
    and room: "unat (call_readbuf im) + 128 < 4294967296"
    and "is_client p" and w: "write_buffer bwr = call_frame im' msg target code"
  shows "wp (call_loop im bs bwr reply p)
    (\<lambda>(res, rep) p'. env_step S p p' \<and> call_ends im bs (write_buffer bwr) reply p res rep p')
    (\<lambda>p'. env_step S p p' \<and> calls_only im (write_buffer bwr) p p')"
  using assms(5,6)
proof (induction "budget p" arbitrary: p bwr rule: less_induct)
  case less
  let ?w = "call_frame im' msg target code"
  let ?b = "bwr\<lparr>read_size := sizeof_readbuf, read_consumed := 0, read_buffer := call_readbuf im\<rparr>"
  let ?rq = "WriteRead (fd bs) ?b (pmem p)"
  have rs: "unat sizeof_readbuf = 128" by (simp add: sizeof_readbuf_def)
  have rq: "call_request im ?w ?rq" using less.prems(2) by (auto simp: call_request_def)
  then have one: "requests p' = requests p @ [?rq] \<Longrightarrow> calls_only im ?w p p'" for p'
    by (auto simp: calls_only_def)
  have io: "wp (ioctl_write_read im bs ?b p)
    (\<lambda>(res, bwr') p'. env_step S p p' \<and> budget p' < budget p \<and> threads p' = threads p \<and>
       requests p' = requests p @ [?rq] \<and> res = ans_ret (kernel im (requests p')) \<and>
       holds_answer im {} area p' (call_readbuf im) (read_consumed bwr') 128 \<and> write_buffer bwr' = ?w)
    (\<lambda>p'. env_step S p p' \<and> calls_only im ?w p p')"
    using less.prems rs room S
    by (intro wp_mono [OF ioctl_answer_wp [OF honest _ S(1), of ?b bs p]])
      (auto simp: is_client_def no_wrap_def one)
  show ?case
    unfolding call_loop.simps [of im bs bwr reply p] wp_and_then less.prems(2)
  proof (rule wp_mono [OF io], goal_cases)
    case (1 v p')
    obtain res bwr' where v: "v = (res, bwr')" by (cases v)
    with 1 have p': "env_step S p p'" "budget p' < budget p" "threads p' = threads p"
      "requests p' = requests p @ [?rq]" "res = ans_ret (kernel im (requests p'))"
      "holds_answer im {} area p' (call_readbuf im) (read_consumed bwr') 128" "write_buffer bwr' = ?w"
      by auto
    from p'(6) obtain cs where ans: "ans_read (kernel im (requests p')) = encode_brs cs"
      and cs: "read_consumed bwr' = of_nat (length (encode_brs cs))"
      "length (encode_brs cs) \<le> 128"
      "load_bytes (pmem p') (call_readbuf im) (length (encode_brs cs)) = encode_brs cs"
      "\<forall>c\<in>set cs. br_ok {} area c" and mem: "pmem p' = mem_after im (requests p')"
      by (auto simp: holds_answer_def)
    then have "\<forall>c\<in>set cs. not_dead_binder c" using not_dead_binder_ok by blast
    note cs = cs(1-3) this
    let ?p2 = "p'\<lparr>threads := threads p' @ replicate (loopers cs) \<lparr>btd_bs = bs, btd_func = NULL\<rparr>\<rparr>"
    have parse: "binder_parse im bs (Some reply) (call_readbuf im) (read_consumed bwr') NULL p' =
        returns (call_status cs 1, reply_after cs reply) ?p2"
      using cs room unfolding cs(1) by (intro binder_parse_client_run) auto
    have p2: "env_step S p ?p2" "calls_only im ?w p ?p2" "budget ?p2 < budget p"
      using p' one [of ?p2] by (auto simp: env_step_def)
    then have client: "is_client ?p2" using less.prems(1) calls_only_frame(1) [OF p2(2)] by (simp add: is_client_def)
    have ends: "call_ends im bs ?w reply p r rep q"
      if "call_result im reply (requests q) r rep" "requests q = requests p'" "pmem q = pmem p'"
        "threads q = threads p' @ replicate n \<lparr>btd_bs = bs, btd_func = NULL\<rparr>" for r rep q n
      using that p'(3,4) rq mem by (auto simp: call_ends_def)
    show ?case
    proof (cases "res < 0")
      case True
      then have "rejected (kernel im (requests p'))" using p'(5) by (simp add: rejected_def)
      then have "call_ends im bs ?w reply p (-1) failed_reply p'"
        by (intro ends [of _ _ _ 0]) (simp_all add: call_result_def)
      with True p'(1) show ?thesis by (simp add: v call_failed_returns)
    next
      case False
      then have ret: "0 \<le> ans_ret (kernel im (requests p'))" using p'(5) by simp
      consider "call_status cs 1 = 0" | "call_status cs 1 = -1" | "call_status cs 1 = 1"
        using call_status_range [of cs 1] by auto
      then show ?thesis
      proof cases
        case 1
        then obtain t where t: "first_reply cs = Some t" using call_status_first [of cs 1] by auto
        then have "replied (kernel im (requests p')) t" using ans ret 1 by (auto simp: replied_def)
        then have "call_ends im bs ?w reply p 0 (reply_after cs reply) ?p2"
          by (intro ends) (auto simp: call_result_def reply_after_def t)
        with False 1 p2(1) show ?thesis by (simp add: v parse)
      next
        case 2
        then have "rejected (kernel im (requests p'))" using ans by (auto simp: rejected_def)
        then have "call_ends im bs ?w reply p (-1) failed_reply ?p2"
          by (intro ends) (simp_all add: call_result_def)
        with False 2 p2(1) show ?thesis by (simp add: v parse call_failed_returns)
      next
        case 3
        then have und: "undecided (kernel im (requests p @ [?rq]))" using ans ret p'(4) by (auto simp: undecided_def)
        have "first_reply cs = None"
          using 3 cs(4) call_status_none [of cs 1] by simp
        then have rep: "reply_after cs reply = reply" by (simp add: reply_after_def)
        have more: "calls_only im ?w p q" if "calls_only im ?w ?p2 q" for q
          using that rq und p'(4) by (fastforce simp: calls_only_def)
        have ended: "call_ends im bs ?w reply p r rep q" if end_: "call_ends im bs ?w reply ?p2 r rep q" for r rep q
        proof -
          from end_ obtain b l where l: "requests q = requests p' @ WriteRead (fd bs) b (pmem p') # l"
            "call_log im ?w (requests p') (WriteRead (fd bs) b (pmem p') # l)"
            by (auto simp: call_ends_def)
          then have "requests q = requests p @ ?rq # WriteRead (fd bs) b (pmem p') # l"
            "call_log im ?w (requests p) (?rq # WriteRead (fd bs) b (pmem p') # l)"
            using rq und p'(4) by simp_all
          moreover obtain n where "threads q = threads ?p2 @ replicate n \<lparr>btd_bs = bs, btd_func = NULL\<rparr>"
            using end_ unfolding call_ends_def by blast
          then have "threads q = threads p @ replicate (loopers cs + n) \<lparr>btd_bs = bs, btd_func = NULL\<rparr>"
            using p'(3) by (simp add: replicate_add)
          ultimately show ?thesis using end_ unfolding call_ends_def by blast
        qed
        have "wp (call_loop im bs bwr' reply ?p2)
            (\<lambda>(res, rep) p''. env_step S p p'' \<and> call_ends im bs ?w reply p res rep p'')
            (\<lambda>p''. env_step S p p'' \<and> calls_only im ?w p p'')"
          by (rule wp_mono [OF less.hyps [OF p2(3) client p'(7)]])
            (auto simp: p'(7) intro: env_step_trans [OF p2(1)] more ended)
        with False 3 rep show ?thesis by (simp add: v parse)
      qed
    qed
  qed simp
qed

lemma binder_call_wp:
  assumes "honest_kernel im area" and "area \<subseteq> S" and "region (call_readbuf im) 128 \<subseteq> S"
    and "unat (call_readbuf im) + 128 < 4294967296" and "is_client p"
  shows "wp (binder_call im bs msg reply target code p)
    (\<lambda>(res, rep) p'. env_step S p p' \<and>
       (if overflowed msg then res = -1 \<and> rep = failed_reply \<and> p' = p
        else call_ends im bs (call_frame im msg target code) reply p res rep p'))
    (\<lambda>p'. env_step S p p' \<and> calls_only im (call_frame im msg target code) p p')"
proof -
  let ?w = "call_frame im msg target code"
  have "write_buffer (empty_write\<lparr>write_size := n, write_buffer := ?w\<rparr>) = ?w" for n by simp
  from call_loop_wp [OF assms this] show ?thesis
    by (auto simp: binder_call_def Let_def call_failed_returns overflowed_def)
qed

lemma binder_call_calls:
  assumes "honest_kernel im area" and "area \<subseteq> S" and "region (call_readbuf im) 128 \<subseteq> S"
    and "unat (call_readbuf im) + 128 < 4294967296" and "is_client p"
  shows "wp (binder_call im bs msg reply target code p)
    (\<lambda>(res, rep) p'. env_step S p p' \<and> calls_only im (call_frame im msg target code) p p')
    (\<lambda>p'. env_step S p p' \<and> calls_only im (call_frame im msg target code) p p')"
  by (rule wp_mono [OF binder_call_wp [OF assms]]) (auto intro: call_ends_calls split: if_splits)

lemma shared_flag [simp]:
  "io_flags (bio_init_from_txn r t) AND BIO_F_SHARED = 1" "io_flags failed_reply AND BIO_F_SHARED = 0"
  by (simp_all add: bio_init_from_txn_def failed_reply_def bio_flag_defs)

subsection \<open>Handlers\<close>

text \<open>
  A server: its image, the address of the handler it passes to \<open>binder_loop\<close>, the address of
  its death callback, the mapped area, and the memory that is shared between the kernel, the
  message buffers and \<open>binder_parse\<close>, all of which lies in \<open>srv_shared\<close>.
\<close>

record 'g server =
  srv_image :: "'g image"
  srv_func :: addr
  srv_death :: addr
  srv_area :: "addr set"
  srv_shared :: "addr set"

definition rdata_area :: "'g image \<Rightarrow> addr set" where
  "rdata_area im = region (parse_rdata im) 256"

definition readbuf_area :: "'g image \<Rightarrow> addr set" where
  "readbuf_area im = region (loop_readbuf im) 128"

definition status_area :: "'g image \<Rightarrow> addr set" where
  "status_area im = region (reply_status im) 4"

definition laid_out :: "'g server \<Rightarrow> bool" where
  "laid_out srv \<longleftrightarrow> (let im = srv_image srv in
     honest_kernel im (srv_area srv) \<and> srv_func srv \<noteq> NULL \<and>
     srv_area srv \<union> rdata_area im \<union> readbuf_area im \<union> status_area im \<subseteq> srv_shared srv \<and>
     readbuf_area im \<inter> (srv_area srv \<union> rdata_area im \<union> status_area im) = {} \<and>
     unat (loop_readbuf im) + 128 < 4294967296 \<and> no_wrap (reply_status im) 4 \<and>
     0 < unat (parse_rdata im) \<and> unat (parse_rdata im) + 256 < 4294967296)"

text \<open>What a handler may do: it does not write to the read buffer.\<close>

definition calm :: "addr set \<Rightarrow> 'g process \<Rightarrow> 'g process \<Rightarrow> bool" where
  "calm K p p' \<longleftrightarrow> agree_on K (pmem p) (pmem p') \<and> budget p' \<le> budget p \<and>
     set (death_cookies (requests p)) \<subseteq> set (death_cookies (requests p'))"

lemma calm_refl [simp]: "calm K p p"
  by (simp add: calm_def)

lemma calm_trans [trans]: "calm K p p' \<Longrightarrow> calm K p' p'' \<Longrightarrow> calm K p p''"
  by (auto simp: calm_def intro: agree_on_trans)

lemma calm_agree: "calm K p p' \<Longrightarrow> agree_on K (pmem p) (pmem p')"
  by (simp add: calm_def)

lemma calm_env: "env_step S p p' \<Longrightarrow> K \<inter> S = {} \<Longrightarrow> calm K p p'"
  by (auto simp: calm_def env_step_def intro: agree_on_mono)

text \<open>The message and the reply that \<open>binder_parse\<close> gives a handler.\<close>

definition msg_for :: "'g image \<Rightarrow> addr \<Rightarrow> 'g process \<Rightarrow> binder_io" where
  "msg_for im txn p = bio_init_from_txn (junk_io im) (load_txn (pmem p) txn)"

definition reply_for :: "'g image \<Rightarrow> binder_io" where
  "reply_for im = bio_init (junk_io im) (parse_rdata im) 256 4"

text \<open>
  What \<open>binder_parse\<close> and the server loops need of a handler and of the death callbacks: from
  every state that satisfies the program's invariant they get somewhere, keep it, and leave
  the read buffer alone. The invariant may not depend on shared memory.
\<close>

lemma empty_write_buffer [simp]: "write_buffer empty_write = []"
  by (simp add: empty_write_def)

locale binder_service =
  fixes set_up :: "'g server \<Rightarrow> bool" and inv :: "'g server \<Rightarrow> 'g process \<Rightarrow> bool"
  assumes layout: "set_up srv \<Longrightarrow> laid_out srv"
    and inv_env: "set_up srv \<Longrightarrow> inv srv p \<Longrightarrow> env_step (srv_shared srv) p p' \<Longrightarrow>
        death_cookies (requests p') = death_cookies (requests p) \<Longrightarrow> inv srv p'"
    and handles: "set_up srv \<Longrightarrow> inv srv p \<Longrightarrow> txn_in (srv_area srv) (load_txn (pmem p) txn) \<Longrightarrow>
        \<exists>h. handler_code (srv_image srv) (srv_func srv) = Some h \<and>
          wp (h bs txn (msg_for (srv_image srv) txn p) (reply_for (srv_image srv)) p)
             (\<lambda>_ p'. inv srv p' \<and> calm (readbuf_area (srv_image srv)) p p') (inv srv)"
    and buries: "set_up srv \<Longrightarrow> inv srv p \<Longrightarrow> d \<in> set (death_cookies (requests p)) \<Longrightarrow>
        wp (parse_dead_binder (srv_image srv) bs d p)
           (\<lambda>_ p'. inv srv p' \<and> calm (readbuf_area (srv_image srv)) p p') (inv srv)"
begin

lemma honest: "set_up srv \<Longrightarrow> honest_kernel (srv_image srv) (srv_area srv)"
  using layout by (simp add: laid_out_def Let_def)

lemma areas:
  assumes "set_up srv"
  shows "srv_area srv \<subseteq> srv_shared srv" and "status_area (srv_image srv) \<subseteq> srv_shared srv"
    and "readbuf_area (srv_image srv) \<subseteq> srv_shared srv"
    and "readbuf_area (srv_image srv) \<inter> (srv_area srv \<union> status_area (srv_image srv)) = {}"
    and "unat (loop_readbuf (srv_image srv)) + 128 < 4294967296" and "no_wrap (reply_status (srv_image srv)) 4"
    and "srv_func srv \<noteq> NULL"
  using layout [OF assms] by (auto simp: laid_out_def Let_def)

lemma transaction_keeps:
  assumes srv: "set_up srv" and "inv srv p" and "txn_in (srv_area srv) (load_txn (pmem p) txn)"
  shows "wp (parse_transaction (srv_image srv) bs (srv_func srv) txn p)
    (\<lambda>_ p'. inv srv p' \<and> calm (readbuf_area (srv_image srv)) p p') (inv srv)"
proof -
  let ?K = "readbuf_area (srv_image srv)" and ?S = "srv_area srv \<union> status_area (srv_image srv)"
  have S: "?S \<subseteq> srv_shared srv" using areas [OF srv] by simp
  obtain h where h: "handler_code (srv_image srv) (srv_func srv) = Some h"
    "wp (h bs txn (msg_for (srv_image srv) txn p) (reply_for (srv_image srv)) p)
        (\<lambda>_ p'. inv srv p' \<and> calm ?K p p') (inv srv)"
    using handles [OF assms] by blast
  have "wp (binder_send_reply (srv_image srv) bs reply buf res q)
      (\<lambda>_ p'. inv srv p' \<and> calm ?K p p') (inv srv)"
    if q: "inv srv q" "calm ?K p q" for reply buf res q
  proof (rule wp_mono [OF binder_send_reply_wp [OF honest [OF srv], of ?S]])
    fix v p'
    assume p': "env_step ?S q p' \<and> budget p' < budget q \<and> threads p' = threads q \<and>
       requests p' = requests q @ [write_request bs (reply_frame (srv_image srv) reply buf res)
         (store32 (pmem q) (reply_status (srv_image srv)) (of_int res))]"
    then have "calm ?K q p'" using calm_env areas(4) [OF srv] by blast
    then show "inv srv p' \<and> calm ?K p p'"
      using p' q inv_env [OF srv q(1) env_step_mono [OF _ S]] by (auto intro: calm_trans)
  qed (use areas [OF srv] inv_env [OF srv q(1) env_step_mono [OF _ S]] in \<open>auto simp: status_area_def\<close>)
  then show ?thesis
    using areas(7) [OF srv] h
    by (auto simp: parse_transaction_def Let_def msg_for_def reply_for_def elim!: wp_mono)
qed

lemma command_keeps:
  assumes srv: "set_up srv" and "inv srv p"
    and "\<forall>c\<in>set cs. br_ok (set (death_cookies (requests p0))) (srv_area srv) c"
    and "calm (readbuf_area (srv_image srv)) p0 p" and "c \<in> set cs"
    and "load_bytes (pmem p) (ps_ptr st) (length (encode_br c)) = encode_br c"
  shows "wp (run_br (srv_image srv) bs (srv_func srv) c st p)
    (\<lambda>_ p'. (inv srv p' \<and> calm (readbuf_area (srv_image srv)) p0 p') \<and>
       agree_on (readbuf_area (srv_image srv)) (pmem p) (pmem p')) (inv srv)"
proof (cases c)
  case (Transaction t)
  have "load_txn (pmem p) (ps_ptr st + 4) = t"
    using assms(6) Transaction by (intro load_txn_payload [of _ _ BR_TRANSACTION]) simp
  then have t: "txn_in (srv_area srv) (load_txn (pmem p) (ps_ptr st + 4))"
    using assms(3,5) Transaction by auto
  have "wp (parse_transaction (srv_image srv) bs (srv_func srv) (ps_ptr st + 4) p)
    (\<lambda>_ p'. (inv srv p' \<and> calm (readbuf_area (srv_image srv)) p0 p') \<and>
       agree_on (readbuf_area (srv_image srv)) (pmem p) (pmem p')) (inv srv)"
    by (rule wp_mono [OF transaction_keeps [OF srv assms(2) t]])
      (auto intro: calm_trans [OF assms(4)] dest: calm_agree)
  then show ?thesis by (simp add: Transaction run_br_def Let_def)
next
  case (DeadBinder d)
  have "d \<in> set (death_cookies (requests p))"
    using assms(3-5) DeadBinder by (fastforce simp: calm_def)
  then have "wp (parse_dead_binder (srv_image srv) bs d p)
    (\<lambda>_ p'. (inv srv p' \<and> calm (readbuf_area (srv_image srv)) p0 p') \<and>
       agree_on (readbuf_area (srv_image srv)) (pmem p) (pmem p')) (inv srv)"
    by (intro wp_mono [OF buries [OF srv assms(2)]])
      (auto intro: calm_trans [OF assms(4)] dest: calm_agree)
  then show ?thesis by (simp add: DeadBinder run_br_def Let_def)
next
  case SpawnLooper
  then show ?thesis
    using inv_env [OF srv assms(2)] assms(4)
    by (auto simp: run_br_def Let_def calm_def env_step_def)
qed (use assms(2,4) in \<open>auto simp: run_br_def Let_def\<close>)

lemma parse_keeps:
  assumes srv: "set_up srv" and "inv srv p"
    and "holds_commands (set (death_cookies (requests p))) (srv_area srv) p (loop_readbuf (srv_image srv)) n 128"
  shows "wp (binder_parse (srv_image srv) bs None (loop_readbuf (srv_image srv)) n (srv_func srv) p)
    (\<lambda>_ p'. inv srv p' \<and> budget p' \<le> budget p) (inv srv)"
proof -
  let ?K = "readbuf_area (srv_image srv)" and ?a = "loop_readbuf (srv_image srv)"
  let ?st = "\<lparr>ps_ptr = ?a, ps_r = 1, ps_bio = False, ps_rep = junk_io (srv_image srv)\<rparr>"
  from assms(3) obtain cs where n: "n = of_nat (length (encode_brs cs))"
    and len: "length (encode_brs cs) \<le> 128"
    and bytes: "load_bytes (pmem p) ?a (length (encode_brs cs)) = encode_brs cs"
    and ok: "\<forall>c\<in>set cs. br_ok (set (death_cookies (requests p))) (srv_area srv) c"
    by (auto simp: holds_commands_def)
  have sub: "region ?a (length (encode_brs cs)) \<subseteq> ?K"
    using len unfolding readbuf_area_def by (intro region_sub) simp_all
  have step: "wp (run_br (srv_image srv) bs (srv_func srv) c st q)
      (\<lambda>_ p'. (inv srv p' \<and> calm ?K p p') \<and> agree_on ?K (pmem q) (pmem p')) (inv srv)"
    if "c \<in> set cs" "inv srv q \<and> calm ?K p q"
      "load_bytes (pmem q) (ps_ptr st) (length (encode_br c)) = encode_br c" for c st q
    using command_keeps [OF srv _ ok _ that(1,3)] that(2) by blast
  have loop: "parse_loop (srv_image srv) bs (srv_func srv) (ps_ptr ?st + of_nat (length (encode_brs cs))) ?st p =
      and_then (run_brs (srv_image srv) bs (srv_func srv) cs ?st p) (\<lambda>st. returns (ps_r st, ps_rep st)) \<and>
    wp (run_brs (srv_image srv) bs (srv_func srv) cs ?st p)
      (\<lambda>_ p'. (inv srv p' \<and> calm ?K p p') \<and> agree_on ?K (pmem p) (pmem p')) (inv srv)"
    by (rule parse_loop_encoded [where I = "\<lambda>p'. inv srv p' \<and> calm ?K p p'", OF step])
      (use bytes len areas(5) [OF srv] assms(2) sub in simp_all)
  have "wp (run_brs (srv_image srv) bs (srv_func srv) cs ?st p) (\<lambda>_ p'. inv srv p' \<and> budget p' \<le> budget p) (inv srv)"
    by (rule wp_mono [OF conjunct2 [OF loop]]) (auto simp: calm_def)
  then show ?thesis using conjunct1 [OF loop] by (simp add: binder_parse_def n)
qed

lemma serve_keeps:
  assumes srv: "set_up srv" and "inv srv p" and "write_buffer bwr = []"
  shows "wp (serve (srv_image srv) bs (srv_func srv) bwr p) (\<lambda>_. inv srv) (inv srv)"
  using assms(2,3)
proof (induction "budget p" arbitrary: p bwr rule: less_induct)
  case less
  let ?a = "loop_readbuf (srv_image srv)"
  let ?b = "bwr\<lparr>read_size := sizeof_readbuf, read_consumed := 0, read_buffer := ?a\<rparr>"
  have rs: "unat sizeof_readbuf = 128" by (simp add: sizeof_readbuf_def)
  have io: "wp (ioctl_write_read (srv_image srv) bs ?b p)
    (\<lambda>(res, bwr') p'. inv srv p' \<and> budget p' < budget p \<and> write_buffer bwr' = [] \<and>
       holds_commands (set (death_cookies (requests p'))) (srv_area srv) p' ?a (read_consumed bwr') 128)
    (inv srv)"
    using rs areas [OF srv] less.prems(2)
    by (intro wp_mono [OF ioctl_wp [OF honest [OF srv] _ areas(1) [OF srv], of ?b bs p]])
      (auto simp: no_wrap_def readbuf_area_def dest: inv_env [OF srv less.prems(1)]
        elim!: holds_commands_mono)
  show ?case
    unfolding serve.simps [of "srv_image srv" bs "srv_func srv" bwr p] wp_and_then
  proof (rule wp_mono [OF io], goal_cases)
    case (1 v p')
    obtain res bwr' where v: "v = (res, bwr')" by (cases v)
    with 1 have p': "inv srv p'" "budget p' < budget p" "write_buffer bwr' = []"
      "holds_commands (set (death_cookies (requests p'))) (srv_area srv) p' ?a (read_consumed bwr') 128"
      by auto
    have "wp (binder_parse (srv_image srv) bs None ?a (read_consumed bwr') (srv_func srv) p')
        (\<lambda>v p''. (fst v = 0 \<longrightarrow> inv srv p'') \<and> (fst v < 0 \<longrightarrow> inv srv p'') \<and>
           (fst v \<noteq> 0 \<and> \<not> fst v < 0 \<longrightarrow>
              wp (serve (srv_image srv) bs (srv_func srv) bwr' p'') (\<lambda>_. inv srv) (inv srv))) (inv srv)"
      using p'(2,3) by (rule_tac wp_mono [OF parse_keeps [OF srv p'(1,4)]]) (auto intro: less.hyps)
    with p'(1) show ?case by (simp add: v case_prod_beta)
  qed simp
qed

lemma loop_keeps:
  assumes srv: "set_up srv" and "inv srv p"
  shows "wp (enter_loop cmd (srv_image srv) bs (srv_func srv) p) (\<lambda>_. inv srv) (inv srv)"
proof -
  let ?q = "p\<lparr>pmem := store32 (pmem p) (loop_readbuf (srv_image srv)) cmd\<rparr>"
  have "region (loop_readbuf (srv_image srv)) 4 \<subseteq> readbuf_area (srv_image srv)"
    unfolding readbuf_area_def by (rule region_sub) simp_all
  then have "env_step (srv_shared srv) p ?q"
    using agree_on_store32 [of "loop_readbuf (srv_image srv)" "- srv_shared srv" "pmem p" cmd] areas [OF srv]
    by (auto simp: env_step_def no_wrap_def)
  from inv_env [OF srv assms(2) this] have "inv srv ?q" by simp
  then show ?thesis
    unfolding enter_loop_def wp_and_then
    by (intro wp_mono [OF binder_write_sends [OF honest [OF srv] areas(1) [OF srv]]])
      (auto simp: sends_def sending_def intro!: serve_keeps [OF srv] intro: inv_env [OF srv])
qed

end

lemma reply_for_room:
  assumes "laid_out srv"
  shows "\<exists>lo mid hi. bio_inv lo mid hi (reply_for (srv_image srv))"
    and "bio_free (reply_for (srv_image srv)) \<subseteq> rdata_area (srv_image srv)"
proof -
  let ?a = "parse_rdata (srv_image srv)"
  have inv: "bio_inv (unat ?a) (unat ?a + 4 * unat (4 :: u32)) (unat ?a + unat (256 :: u32)) (reply_for (srv_image srv))"
    unfolding reply_for_def
    using assms by (intro bio_init_inv) (auto simp: laid_out_def Let_def)
  then show "\<exists>lo mid hi. bio_inv lo mid hi (reply_for (srv_image srv))" by blast
  show "bio_free (reply_for (srv_image srv)) \<subseteq> rdata_area (srv_image srv)"
    using bio_free_inside [OF inv] by (auto simp: rdata_area_def in_region)
qed

subsection \<open>The concrete kernel is honest\<close>

lemma speaks_example:
  "length (encode_brs cs) \<le> n \<Longrightarrow> \<forall>c\<in>set cs. br_ok C area c \<Longrightarrow>
     \<forall>(a, bs)\<in>set ds. no_wrap a (length bs) \<and> region a (length bs) \<subseteq> area \<Longrightarrow>
     speaks C area n (example_answer cs ds)"
  by (fastforce simp: speaks_def example_answer_def)

lemma example_honest: "honest_kernel example_image (region 0x80000 0x20000)"
proof -
  have "speaks C (region 0x80000 0x20000) (unat (read_size bwr)) (example_kernel_step (WriteRead d bwr m))"
    for C d bwr m
    by (auto simp: no_wrap_def in_region intro!: speaks_example)
  then show ?thesis by (simp add: honest_kernel_def example_image_def)
qed

subsection \<open>Properties\<close>

text \<open>C11: against a kernel that keeps to the protocol, \<open>binder_call\<close> never loops for ever: it
  waits for the driver or returns. A message that has overflowed is not sent: the result is -1 and
  nothing changes. Otherwise it makes one or more system calls with its frame, the first with the
  memory as it found it, each further one after an answer that decides nothing; the last answer
  decides: if it holds a reply, the result is 0 and the reply structure is set up from the
  transaction of the first reply in it, if it fails the call, the result is -1 and the reply all
  zero but for \<open>BIO_F_IOERROR\<close>. Memory is then what that answer left, changed in the read buffer and
  the mapped area only; the threads the driver asked for are added, and nothing else changes.\<close>
theorem binder_call_outcome:
  assumes "honest_kernel im area" and "unat (call_readbuf im) + 128 < 4294967296"
    and "is_client p"
  shows "wp (binder_call im bs msg reply target code p)
    (\<lambda>(res, rep) p'. env_step (area \<union> region (call_readbuf im) 128) p p' \<and>
       (if overflowed msg then res = -1 \<and> rep = failed_reply \<and> p' = p
        else call_ends im bs (call_frame im msg target code) reply p res rep p'))
    (env_step (area \<union> region (call_readbuf im) 128) p)"
  by (rule wp_mono [OF binder_call_wp [OF assms(1) Un_upper1 Un_upper2 assms(2,3)]]) auto

theorem binder_call_outcome_witness:
  "wp (binder_call example_image example_bs zero_io zero_io 0 2 example_process)
     (\<lambda>(res, rep) p'. env_step (region 0x80000 0x20000 \<union> region 0x2000 128) example_process p' \<and>
        res = 0 \<and> rep = bio_init_from_txn zero_io example_reply_txn)
     (env_step (region 0x80000 0x20000 \<union> region 0x2000 128) example_process)"
proof -
  let ?cs = "[Noop, TransactionComplete, Reply example_reply_txn]"
  let ?frame = "call_frame example_image zero_io 0 2"
  have "res = 0 \<and> rep = bio_init_from_txn zero_io example_reply_txn"
    if "call_ends example_image example_bs ?frame zero_io example_process res rep p'" for res rep p'
  proof -
    from that obtain b rs where h: "requests p' = requests example_process @ WriteRead 3 b (pmem example_process) # rs"
      and log: "call_log example_image ?frame (requests example_process) (WriteRead 3 b (pmem example_process) # rs)"
      by (auto simp: call_ends_def example_bs_def)
    let ?h = "requests p'"
    have "last ?h \<in> set (WriteRead 3 b (pmem example_process) # rs)" using h by simp
    from call_log_requests [OF log this] obtain d bwr m where "last ?h = WriteRead d bwr m" by (auto simp: call_request_def)
    then have ans: "kernel example_image ?h = example_answer ?cs [(0x80000, le32 9)] \<or>
        kernel example_image ?h = example_answer [] []"
      by (simp add: example_image_def)
    have "call_result example_image zero_io ?h res rep" using that by (simp add: call_ends_def)
    then show ?thesis using ans
      by (auto simp: call_result_def replied_def rejected_def example_answer_def encode_brs_inject simp del: encode_brs_simps)
  qed
  then show ?thesis
    using binder_call_outcome [OF example_honest, of example_process example_bs zero_io zero_io 0 2]
    by (auto simp: example_image_def example_process_def is_client_def zero_io_def overflowed_def elim!: wp_mono)
qed

text \<open>A message that overflowed is never sent: \<open>binder_call\<close> fails without a system call.\<close>
lemma binder_call_refuses_overflow:
  assumes "overflowed msg"
  shows "binder_call im bs msg reply target code p = returns (-1, failed_reply) p"
  using assms by (simp add: binder_call_def call_failed_returns overflowed_def)

text \<open>\<open>binder_done\<close> can safely be called after a failed call, as \<open>binder.h\<close> promises: it then
  does nothing at all. After a call that succeeded it frees exactly the reply's buffer and
  clears the flags, so that a second \<open>binder_done\<close> does nothing.\<close>
theorem binder_done_frees_once:
  assumes "honest_kernel im area"
    and "res = (0 :: int) \<and> rep = bio_init_from_txn reply t \<or> res = -1 \<and> rep = failed_reply"
  shows "(res \<noteq> 0 \<longrightarrow> binder_done im bs rep p = returns rep p) \<and>
    (res = 0 \<longrightarrow> wp (binder_done im bs rep p)
       (\<lambda>rep' p'. requests p' = requests p @
            [write_request bs (le32 BC_FREE_BUFFER @ le32 (io_data0 rep)) (pmem p)] \<and>
          binder_done im bs rep' p' = returns rep' p')
       (env_step area p))"
  using assms(2) binder_write_sends [OF assms(1) order_refl, of bs "le32 BC_FREE_BUFFER @ le32 (io_data0 rep)" p]
  by (auto simp: binder_done_def sends_def sending_def elim!: wp_mono)

theorem binder_done_frees_once_witness:
  "binder_done example_image example_bs failed_reply example_process = returns failed_reply example_process \<and>
   wp (binder_done example_image example_bs (bio_init_from_txn zero_io example_reply_txn) example_process)
     (\<lambda>rep' p'. length (requests p') = 1 \<and> binder_done example_image example_bs rep' p' = returns rep' p')
     (env_step (region 0x80000 0x20000) example_process)"
proof
  from binder_done_frees_once [OF example_honest, of "-1" failed_reply zero_io example_reply_txn example_bs example_process]
  show "binder_done example_image example_bs failed_reply example_process = returns failed_reply example_process"
    by simp
  from binder_done_frees_once [OF example_honest, of 0 "bio_init_from_txn zero_io example_reply_txn" zero_io
      example_reply_txn example_bs example_process]
  show "wp (binder_done example_image example_bs (bio_init_from_txn zero_io example_reply_txn) example_process)
     (\<lambda>rep' p'. length (requests p') = 1 \<and> binder_done example_image example_bs rep' p' = returns rep' p')
     (env_step (region 0x80000 0x20000) example_process)"
    by (auto simp: example_process_def elim!: wp_mono)
qed

text \<open>C15: what a handled transaction sends back: \<open>binder_send_reply\<close> makes one system call whose
  52 bytes are a command to free the request's buffer followed by a reply. A zero status
  replies with the bytes the handler put in the reply; any other status replies with a status
  code, and the four bytes the kernel finds behind the pointer are that status.\<close>
theorem binder_send_reply_sends:
  assumes "honest_kernel im area" and "no_wrap (reply_status im) 4"
  shows "wp (binder_send_reply im bs reply buf res p)
    (\<lambda>_ p'. \<exists>t m. requests p' = requests p @
         [write_request bs (le32 BC_FREE_BUFFER @ le32 buf @ le32 BC_REPLY @ encode_txn t) m] \<and>
       (res = 0 \<longrightarrow> txn_flags t = 0 \<and> txn_buffer t = io_data0 reply \<and>
          txn_data_size t = io_data reply - io_data0 reply \<and> txn_offsets t = io_offs0 reply \<and>
          txn_offsets_size t = io_offs reply - io_offs0 reply) \<and>
       (res \<noteq> 0 \<longrightarrow> txn_flags t = TF_STATUS_CODE \<and> txn_data_size t = 4 \<and> txn_offsets_size t = 0 \<and>
          load32 m (txn_buffer t) = of_int res) \<and>
       agree_on (- region (reply_status im) 4) (pmem p) m)
    (\<lambda>p'. env_step (area \<union> region (reply_status im) 4) p p')"
proof (rule wp_mono [OF binder_send_reply_wp [OF assms(1), of "area \<union> region (reply_status im) 4"]])
  fix v p'
  assume "env_step (area \<union> region (reply_status im) 4) p p' \<and> budget p' < budget p \<and>
     threads p' = threads p \<and> requests p' = requests p @ [write_request bs (reply_frame im reply buf res)
         (store32 (pmem p) (reply_status im) (of_int res))]"
  then show "\<exists>t m. requests p' = requests p @
         [write_request bs (le32 BC_FREE_BUFFER @ le32 buf @ le32 BC_REPLY @ encode_txn t) m] \<and>
       (res = 0 \<longrightarrow> txn_flags t = 0 \<and> txn_buffer t = io_data0 reply \<and>
          txn_data_size t = io_data reply - io_data0 reply \<and> txn_offsets t = io_offs0 reply \<and>
          txn_offsets_size t = io_offs reply - io_offs0 reply) \<and>
       (res \<noteq> 0 \<longrightarrow> txn_flags t = TF_STATUS_CODE \<and> txn_data_size t = 4 \<and> txn_offsets_size t = 0 \<and>
          load32 m (txn_buffer t) = of_int res) \<and>
       agree_on (- region (reply_status im) 4) (pmem p) m"
    unfolding reply_frame_def Let_def
    by (intro exI conjI) (auto intro: agree_on_store32 [OF assms(2)])
qed (use assms(2) in auto)

theorem binder_send_reply_sends_witness:
  "wp (binder_send_reply example_image example_bs zero_io 0x80000 (-1) example_process)
    (\<lambda>_ p'. \<exists>t m. requests p' = [write_request example_bs
         (le32 BC_FREE_BUFFER @ le32 0x80000 @ le32 BC_REPLY @ encode_txn t) m] \<and>
       txn_flags t = TF_STATUS_CODE \<and> load32 m (txn_buffer t) = -1)
    (\<lambda>p'. True)"
  by (rule wp_mono [OF binder_send_reply_sends [OF example_honest]])
    (auto simp: example_image_def example_process_def no_wrap_def)

text \<open>\<open>binder_open\<close> returns a descriptor that is open, of the right protocol version and
  mapped, or NULL; on NULL the block it allocated has been freed. \<open>binder_close\<close> then unmaps,
  closes and frees exactly what a successful \<open>binder_open\<close> acquired.\<close>
theorem binder_open_close:
  assumes "allocator im (blocks p) sizeof_binder_state \<notin> fst ` set (blocks p)"
  shows "wp (binder_open im n p)
    (\<lambda>r p'. case r of
        None \<Rightarrow> blocks p' = blocks p
      | Some bs \<Rightarrow> 0 \<le> fd bs \<and> mapped bs \<noteq> MAP_FAILED \<and> mapsize bs = n \<and>
          requests p' = requests p @ [Open, GetVersion (fd bs), Mmap (fd bs) n] \<and>
          ans_version (kernel im (requests p @ [Open, GetVersion (fd bs)])) =
            BINDER_CURRENT_PROTOCOL_VERSION \<and>
          blocks (binder_close bs p') = blocks p \<and>
          requests (binder_close bs p') = requests p' @
            [Munmap (mapped bs) n, Close (fd bs), Free (bs_at bs)])
    (\<lambda>_. True)"
proof -
  have "filter (\<lambda>b. fst b \<noteq> allocator im (blocks p) sizeof_binder_state) (blocks p) = blocks p"
    using assms by (intro filter_True) force
  then show ?thesis
    by (simp add: binder_open_def Let_def malloc_def syscall_def log_request_def fail_open_def
        fail_map_def free_block_def binder_close_def)
qed

theorem binder_open_close_witness:
  "wp (binder_open example_image 0x20000 example_process)
    (\<lambda>r p'. case r of
        None \<Rightarrow> blocks p' = []
      | Some bs \<Rightarrow> 0 \<le> fd bs \<and> blocks (binder_close bs p') = [])
    (\<lambda>_. True)"
  by (rule wp_mono [OF binder_open_close])
    (auto simp: example_process_def split: option.splits)

text \<open>\<open>binder_open\<close> leaks the device descriptor when the driver speaks another protocol
  version: it returns NULL after opening the device, and no \<open>close\<close> is ever made (the label
  \<open>fail_open\<close> frees the block only).\<close>
theorem binder_open_leaks:
  assumes "allocator im (blocks p) sizeof_binder_state = a" and "a \<noteq> NULL"
    and "ans_ret (kernel im (requests p @ [Open])) = d" and "0 \<le> d"
    and "ans_version (kernel im (requests p @ [Open, GetVersion d])) \<noteq> BINDER_CURRENT_PROTOCOL_VERSION"
    and "2 \<le> budget p"
  shows "\<exists>p'. binder_open im n p = returns None p' \<and>
    requests p' = requests p @ [Open, GetVersion d, Free a] \<and> Close d \<notin> set (drop (length (requests p)) (requests p'))"
  using assms
  by (auto simp: binder_open_def Let_def malloc_def syscall_def log_request_def fail_open_def
      free_block_def)

definition old_kernel_image :: "unit image" where
  "old_kernel_image = example_image\<lparr>kernel := \<lambda>h. (example_kernel_step (last h))\<lparr>ans_version := 8\<rparr>\<rparr>"

theorem binder_open_leaks_witness:
  "\<exists>p'. binder_open old_kernel_image 0x20000 example_process = returns None p' \<and>
    requests p' = [Open, GetVersion 3, Free 0x100000]"
  using binder_open_leaks [of old_kernel_image example_process "0x100000" 3 "0x20000"]
  by (auto simp: old_kernel_image_def example_image_def example_process_def example_answer_def
      BINDER_CURRENT_PROTOCOL_VERSION_def)

end
