(* ===== verification/Service_Manager.thy ===== *)
theory Service_Manager
  imports Binder_Run
begin

text \<open>
  \<open>service_manager.c\<close>: the registry of services, a singly linked list of \<open>struct svcinfo\<close>
  blocks in the heap, and the handler of the transactions that find, add and list services.
  The static variables are \<open>svcmgr_globals\<close>; the nodes are bytes of the process's memory at
  their C offsets. \<open>ALOGE\<close> and \<open>ALOGI\<close> only print; the calls of \<open>str8\<close> in their arguments
  do change its static buffer and are kept. \<open>fn\<close> is the address of \<open>svcinfo_death\<close>, which
  \<open>do_add_service\<close> stores in every node.
\<close>

subsection \<open>State\<close>

record svcmgr_globals =
  svclist :: addr
  svcmgr_handle :: u32
  str8_buf :: "byte list"

type_synonym svcmgr = "svcmgr_globals process"

definition AID_USER :: u32 where "AID_USER = 100000"
definition AID_ISOLATED_START :: u32 where "AID_ISOLATED_START = 99000"
definition AID_ISOLATED_END :: u32 where "AID_ISOLATED_END = 99999"

text \<open>The fields of \<open>struct svcinfo\<close>; the name follows them.\<close>

definition si_next :: "mem \<Rightarrow> addr \<Rightarrow> addr" where "si_next m si = load32 m si"
definition si_handle :: "mem \<Rightarrow> addr \<Rightarrow> u32" where "si_handle m si = load32 m (si + 4)"
definition si_death :: "addr \<Rightarrow> addr" where "si_death si = si + 8"
definition si_allow_isolated :: "mem \<Rightarrow> addr \<Rightarrow> u32" where "si_allow_isolated m si = load32 m (si + 16)"
definition si_len :: "mem \<Rightarrow> addr \<Rightarrow> u32" where "si_len m si = load32 m (si + 20)"
definition si_name :: "addr \<Rightarrow> addr" where "si_name si = si + 24"
definition sizeof_svcinfo :: nat where "sizeof_svcinfo = 24"

subsection \<open>Strings\<close>

text \<open>\<open>str8\<close>: \<open>room\<close> is \<open>max\<close>, which counts down, \<open>i\<close> is \<open>p - buf\<close>.\<close>

primrec str8_loop :: "mem \<Rightarrow> addr \<Rightarrow> nat \<Rightarrow> nat \<Rightarrow> byte list \<Rightarrow> nat \<times> byte list" where
  "str8_loop m x 0 i buf = (i, buf)"
| "str8_loop m x (Suc room) i buf =
     (if load16 m x = 0 then (i, buf)
      else str8_loop m (x + 2) room (Suc i) (buf[i := ucast (load16 m x)]))"

definition str8 :: "mem \<Rightarrow> addr \<Rightarrow> u32 \<Rightarrow> byte list \<Rightarrow> byte list" where
  "str8 m x x_len buf =
     (let room = (if x_len < 127 then x_len else 127);
          (i, buf) = (if x \<noteq> NULL then str8_loop m x (unat room) 0 buf else (0, buf))
      in buf[i := 0])"

definition call_str8 :: "addr \<Rightarrow> u32 \<Rightarrow> svcmgr \<Rightarrow> svcmgr" where
  "call_str8 x x_len p =
     p\<lparr>globals := (globals p)\<lparr>str8_buf := str8 (pmem p) x x_len (str8_buf (globals p))\<rparr>\<rparr>"

partial_function (option) str16eq :: "mem \<Rightarrow> addr \<Rightarrow> addr \<Rightarrow> int option" where
  "str16eq m a b =
     (if load16 m a \<noteq> 0 \<and> m b \<noteq> 0 then
        if load16 m a \<noteq> ucast (m b) then Some 0 else str16eq m (a + 2) (b + 1)
      else if load16 m a \<noteq> 0 \<or> m b \<noteq> 0 then Some 0 else Some 1)"

subsection \<open>Permission checks\<close>

definition check_mac_perms :: "u32 \<Rightarrow> string \<Rightarrow> string \<Rightarrow> byte list \<Rightarrow> bool" where
  "check_mac_perms spid tctx perm name = True"

definition check_mac_perms_from_getcon :: "u32 \<Rightarrow> string \<Rightarrow> bool" where
  "check_mac_perms_from_getcon spid perm = True"

definition check_mac_perms_from_lookup :: "u32 \<Rightarrow> string \<Rightarrow> byte list \<Rightarrow> bool" where
  "check_mac_perms_from_lookup spid perm name = True"

definition svc_can_register :: "addr \<Rightarrow> u32 \<Rightarrow> u32 \<Rightarrow> svcmgr \<Rightarrow> int \<times> svcmgr" where
  "svc_can_register name name_len spid p =
     (let p = call_str8 name name_len p in
      (if check_mac_perms_from_lookup spid ''add'' (str8_buf (globals p)) then 1 else 0, p))"

definition svc_can_list :: "u32 \<Rightarrow> int" where
  "svc_can_list spid = (if check_mac_perms_from_getcon spid ''list'' then 1 else 0)"

definition svc_can_find :: "addr \<Rightarrow> u32 \<Rightarrow> u32 \<Rightarrow> svcmgr \<Rightarrow> int \<times> svcmgr" where
  "svc_can_find name name_len spid p =
     (let p = call_str8 name name_len p in
      (if check_mac_perms_from_lookup spid ''find'' (str8_buf (globals p)) then 1 else 0, p))"

subsection \<open>The list of services\<close>

text \<open>\<open>memcmp\<close> as the code uses it: whether two ranges of bytes are equal.\<close>

definition mem_equal :: "mem \<Rightarrow> addr \<Rightarrow> addr \<Rightarrow> u32 \<Rightarrow> bool" where
  "mem_equal m a b n \<longleftrightarrow> load_bytes m a (unat n) = load_bytes m b (unat n)"

text \<open>The loop of \<open>find_svc\<close>; None if the list never ends.\<close>

partial_function (option) find_from :: "mem \<Rightarrow> addr \<Rightarrow> addr \<Rightarrow> u32 \<Rightarrow> addr option" where
  "find_from m si s16 len =
     (if si = NULL then Some NULL
      else if len = si_len m si \<and> mem_equal m s16 (si_name si) (len * sizeof_uint16) then Some si
      else find_from m (si_next m si) s16 len)"

definition find_svc :: "addr \<Rightarrow> u32 \<Rightarrow> svcmgr \<Rightarrow> addr option" where
  "find_svc s16 len p = find_from (pmem p) (svclist (globals p)) s16 len"

definition svcinfo_death ::
  "svcmgr_globals image \<Rightarrow> binder_state \<Rightarrow> addr \<Rightarrow> svcmgr \<Rightarrow> (unit, svcmgr_globals) outcome" where
  "svcinfo_death im bs si p =
     (let p = call_str8 (si_name si) (si_len (pmem p) si) p in
      if si_handle (pmem p) si \<noteq> 0 then
        and_then (binder_release im bs (si_handle (pmem p) si) p) (\<lambda>_ p.
          returns () (p\<lparr>pmem := store32 (pmem p) (si + 4) 0\<rparr>))
      else returns () p)"

definition svcmgr_id :: "u16 list" where
  "svcmgr_id = map of_char ''android.os.IServiceManager''"

definition do_find_service ::
  "addr \<Rightarrow> u32 \<Rightarrow> u32 \<Rightarrow> u32 \<Rightarrow> svcmgr \<Rightarrow> (u32, svcmgr_globals) outcome" where
  "do_find_service s len uid spid p =
     (let (can, p) = svc_can_find s len spid p in
      if can = 0 then returns 0 (call_str8 s len p)
      else case find_svc s len p of
        None \<Rightarrow> None
      | Some si \<Rightarrow>
          if si \<noteq> NULL \<and> si_handle (pmem p) si \<noteq> 0 then
            if si_allow_isolated (pmem p) si = 0 \<and>
               (let appid = uid mod AID_USER in
                AID_ISOLATED_START \<le> appid \<and> appid \<le> AID_ISOLATED_END)
            then returns 0 p
            else returns (si_handle (pmem p) si) p
          else returns 0 p)"

text \<open>The initialisation of a node, in the order of the code: handle, length, name, the
  terminating zero, the death callback and its argument, \<open>allow_isolated\<close>, the link.\<close>

definition init_svcinfo :: "mem \<Rightarrow> addr \<Rightarrow> addr \<Rightarrow> addr \<Rightarrow> u32 \<Rightarrow> u32 \<Rightarrow> u32 \<Rightarrow> addr \<Rightarrow> mem" where
  "init_svcinfo m si fn s len handle allow_isolated next =
     (let m = store32 m (si + 4) handle;
          m = store32 m (si + 20) len;
          m = store_bytes m (si_name si) (load_bytes m s (unat ((len + 1) * sizeof_uint16)));
          m = store16 m (si_name si + len * sizeof_uint16) 0;
          m = store32 m (si_death si) fn;
          m = store32 m (si_death si + 4) si;
          m = store32 m (si + 16) allow_isolated
      in store32 m si next)"

text \<open>The end of \<open>do_add_service\<close>, common to both branches.\<close>

definition watch_service ::
  "svcmgr_globals image \<Rightarrow> binder_state \<Rightarrow> u32 \<Rightarrow> addr \<Rightarrow> svcmgr \<Rightarrow> (int, svcmgr_globals) outcome" where
  "watch_service im bs handle si p =
     and_then (binder_acquire im bs handle p) (\<lambda>_ p.
       and_then (binder_link_to_death im bs handle (si_death si) p) (\<lambda>_. returns 0))"

definition do_add_service ::
  "svcmgr_globals image \<Rightarrow> addr \<Rightarrow> binder_state \<Rightarrow> addr \<Rightarrow> u32 \<Rightarrow> u32 \<Rightarrow> u32 \<Rightarrow> u32 \<Rightarrow> u32 \<Rightarrow> svcmgr \<Rightarrow>
     (int, svcmgr_globals) outcome" where
  "do_add_service im fn bs s len handle uid allow_isolated spid p =
     (if handle = 0 \<or> len = 0 \<or> 127 < len then returns (-1) p
      else let (can, p) = svc_can_register s len spid p in
      if can = 0 then returns (-1) (call_str8 s len p)
      else case find_svc s len p of
        None \<Rightarrow> None
      | Some si \<Rightarrow>
          if si \<noteq> NULL then
            and_then (if si_handle (pmem p) si \<noteq> 0 then svcinfo_death im bs si (call_str8 s len p)
                      else returns () p) (\<lambda>_ p.
              watch_service im bs handle si (p\<lparr>pmem := store32 (pmem p) (si + 4) handle\<rparr>))
          else
            let (si, p) = malloc im (sizeof_svcinfo + unat ((len + 1) * sizeof_uint16)) p in
            if si = NULL then returns (-1) (call_str8 s len p)
            else
              let p = p\<lparr>pmem := init_svcinfo (pmem p) si fn s len handle allow_isolated (svclist (globals p)),
                        globals := (globals p)\<lparr>svclist := si\<rparr>\<rparr>
              in watch_service im bs handle si p)"

subsection \<open>The handler\<close>

text \<open>\<open>while ((n-- > 0) && si) si = si->next\<close>.\<close>

primrec walk_list :: "mem \<Rightarrow> nat \<Rightarrow> addr \<Rightarrow> addr" where
  "walk_list m 0 si = si"
| "walk_list m (Suc n) si = (if si = NULL then si else walk_list m n (si_next m si))"

definition svcmgr_handler :: "svcmgr_globals image \<Rightarrow> addr \<Rightarrow> svcmgr_globals binder_handler" where
  "svcmgr_handler im fn bs txn msg reply p =
     (let t = load_txn (pmem p) txn in
      if txn_target t \<noteq> svcmgr_handle (globals p) then returns (-1, msg, reply) p
      else if txn_code t = PING_TRANSACTION then returns (0, msg, reply) p
      else
        let (strict_policy, msg) = bio_get_uint32 (pmem p) msg;
            (s, len, msg) = bio_get_string16 (pmem p) msg
        in
        if s = NULL then returns (-1, msg, reply) p
        else if len \<noteq> 26 \<or> load_bytes (pmem p) s 52 \<noteq> enc16 svcmgr_id then
          returns (-1, msg, reply) (call_str8 s len p)
        else if txn_code t = SVC_MGR_GET_SERVICE \<or> txn_code t = SVC_MGR_CHECK_SERVICE then
          let (s, len, msg) = bio_get_string16 (pmem p) msg in
          if s = NULL then returns (-1, msg, reply) p
          else and_then (do_find_service s len (txn_sender_euid t) (txn_sender_pid t) p) (\<lambda>handle p.
            let (reply, m) = (if handle = 0 then bio_put_uint32 0 (reply, pmem p)
                              else bio_put_ref handle (reply, pmem p))
            in returns (0, msg, reply) (p\<lparr>pmem := m\<rparr>))
        else if txn_code t = SVC_MGR_ADD_SERVICE then
          let (s, len, msg) = bio_get_string16 (pmem p) msg in
          if s = NULL then returns (-1, msg, reply) p
          else
            let (handle, msg) = bio_get_ref (pmem p) msg;
                (n, msg) = bio_get_uint32 (pmem p) msg;
                allow_isolated = (if n \<noteq> 0 then 1 else 0)
            in and_then (do_add_service im fn bs s len handle (txn_sender_euid t) allow_isolated
                           (txn_sender_pid t) p) (\<lambda>res p.
                 if res \<noteq> 0 then returns (-1, msg, reply) p
                 else let (reply, m) = bio_put_uint32 0 (reply, pmem p)
                      in returns (0, msg, reply) (p\<lparr>pmem := m\<rparr>))
        else if txn_code t = SVC_MGR_LIST_SERVICES then
          let (n, msg) = bio_get_uint32 (pmem p) msg in
          if svc_can_list (txn_sender_pid t) = 0 then returns (-1, msg, reply) p
          else
            let si = walk_list (pmem p) (unat n) (svclist (globals p)) in
            if si \<noteq> NULL then
              case bio_put_string16 (si_name si) (reply, pmem p) of
                None \<Rightarrow> None
              | Some (reply, m) \<Rightarrow> returns (0, msg, reply) (p\<lparr>pmem := m\<rparr>)
            else returns (-1, msg, reply) p
        else returns (-1, msg, reply) p)"

text \<open>\<open>main\<close>; \<open>handler\<close> is the address of \<open>svcmgr_handler\<close>.\<close>

definition svcmgr_main :: "svcmgr_globals image \<Rightarrow> addr \<Rightarrow> svcmgr \<Rightarrow> (int, svcmgr_globals) outcome" where
  "svcmgr_main im handler p =
     and_then (binder_open im (128 * 1024) p) (\<lambda>r p.
       case r of
         None \<Rightarrow> returns (-1) p
       | Some bs \<Rightarrow> and_then (binder_become_context_manager im bs p) (\<lambda>r p.
           if r \<noteq> 0 then returns (-1) p
           else and_then (binder_loop im bs handler
                  (p\<lparr>globals := (globals p)\<lparr>svcmgr_handle := BINDER_SERVICE_MANAGER\<rparr>\<rparr>))
             (\<lambda>_. returns 0)))"

declare find_from.simps [code] str16eq.simps [code]

end
