(* ===== verification/Registry.thy ===== *)
theory Registry
  imports Service_Manager
begin

text \<open>
  The registry that the linked list of \<^theory_text>\<open>Service_Manager\<close> represents: a list of \<open>svc\<close> records,
  newest first. \<open>svc_list\<close> ties it to memory, \<open>registry\<close> adds what keeps it intact: the nodes
  are disjoint allocated blocks away from every memory that the kernel and the message buffers
  write, the names are distinct, and the only death notifications asked for are those of
  nodes. The lemmas give the meaning of \<open>find_svc\<close>, \<open>do_find_service\<close>, \<open>svcinfo_death\<close> and
  \<open>do_add_service\<close> as operations on that list.
\<close>

subsection \<open>Objects in memory\<close>

lemma field_at:
  assumes "no_wrap a N" and "k + n \<le> N" and "0 < n"
  shows "unat (a + of_nat k) = unat a + k" and "region (a + of_nat k) n \<subseteq> region a N"
    and "no_wrap (a + of_nat k) n"
proof -
  show u: "unat (a + of_nat k) = unat a + k"
    using assms by (intro unat_add_of_nat) (simp add: no_wrap_def)
  show "region (a + of_nat k) n \<subseteq> region a N" using assms(2) u by (intro region_sub) simp_all
  show "no_wrap (a + of_nat k) n" using assms u by (simp add: no_wrap_def)
qed

lemma load32_store_bytes_apart:
  "no_wrap a (length bs) \<Longrightarrow> no_wrap b 4 \<Longrightarrow>
     unat b + 4 \<le> unat a \<or> unat a + length bs \<le> unat b \<Longrightarrow>
     load32 (store_bytes m a bs) b = load32 m b"
  by (rule load32_agree [OF agree_on_store_bytes, of _ _ "region b 4"]) (auto simp: in_region)

lemma load_bytes_store_bytes_apart:
  "no_wrap a (length bs) \<Longrightarrow> no_wrap b n \<Longrightarrow>
     unat b + n \<le> unat a \<or> unat a + length bs \<le> unat b \<Longrightarrow>
     load_bytes (store_bytes m a bs) b n = load_bytes m b n"
  by (rule load_bytes_agree [OF agree_on_store_bytes, of _ _ "region b n"]) (auto simp: in_region)

lemma load_u16s_bytes:
  "load_bytes m a (2 * n) = load_bytes m' b (2 * n) \<longleftrightarrow> load_u16s m a n = load_u16s m' b n"
proof
  assume "load_bytes m a (2 * n) = load_bytes m' b (2 * n)"
  then have "load_bytes m a (2 * length (load_u16s m' b n)) = enc16 (load_u16s m' b n)"
    by (simp add: enc16_load_u16s)
  from load_u16s_enc16 [OF this] show "load_u16s m a n = load_u16s m' b n" by simp
next
  assume "load_u16s m a n = load_u16s m' b n"
  then show "load_bytes m a (2 * n) = load_bytes m' b (2 * n)"
    using enc16_load_u16s [of m a n] enc16_load_u16s [of m' b n] by simp
qed

lemma load_u16s_snoc: "load_u16s m a (Suc n) = load_u16s m a n @ [load16 m (a + 2 * of_nat n)]"
proof (induction n arbitrary: a)
  case (Suc n)
  have "load_u16s m a (Suc (Suc n)) = load16 m a # load_u16s m (a + 2) (Suc n)"
    by (rule load_u16s.simps)
  also have "\<dots> = load16 m a # load_u16s m (a + 2) n @ [load16 m (a + 2 + 2 * of_nat n)]"
    by (simp only: Suc)
  finally show ?case by (simp add: algebra_simps del: load_u16s.simps(2)) simp
qed simp

subsection \<open>Nodes\<close>

record svc =
  svc_at :: addr
  svc_name :: "u16 list"
  svc_handle :: u32
  svc_isolated :: u32

definition svc_size :: "svc \<Rightarrow> nat" where
  "svc_size s = sizeof_svcinfo + 2 * Suc (length (svc_name s))"

abbreviation svc_region :: "svc \<Rightarrow> addr set" where
  "svc_region s \<equiv> region (svc_at s) (svc_size s)"

definition svc_shape :: "svc \<Rightarrow> bool" where
  "svc_shape s \<longleftrightarrow> svc_at s \<noteq> NULL \<and> 0 < length (svc_name s) \<and> length (svc_name s) \<le> 127 \<and>
     no_wrap (svc_at s) (svc_size s)"

definition svc_node :: "mem \<Rightarrow> addr \<Rightarrow> svc \<Rightarrow> bool" where
  "svc_node m fn s \<longleftrightarrow> (let a = svc_at s; n = length (svc_name s) in
     si_handle m a = svc_handle s \<and> load32 m (si_death a) = fn \<and> load32 m (si_death a + 4) = a \<and>
     si_allow_isolated m a = svc_isolated s \<and> si_len m a = of_nat n \<and>
     load_u16s m (si_name a) (Suc n) = svc_name s @ [0])"

primrec svc_list :: "mem \<Rightarrow> addr \<Rightarrow> addr \<Rightarrow> svc list \<Rightarrow> bool" where
  "svc_list m fn a [] \<longleftrightarrow> a = NULL"
| "svc_list m fn a (s # ss) \<longleftrightarrow>
     a = svc_at s \<and> svc_shape s \<and> svc_node m fn s \<and> svc_list m fn (si_next m a) ss"

primrec apart :: "addr set \<Rightarrow> svc list \<Rightarrow> bool" where
  "apart S [] \<longleftrightarrow> True"
| "apart S (s # ss) \<longleftrightarrow>
     svc_region s \<inter> S = {} \<and> (\<forall>R\<in>(\<lambda>t. svc_region t) ` set ss. svc_region s \<inter> R = {}) \<and> apart S ss"

definition registry :: "addr \<Rightarrow> addr set \<Rightarrow> svc list \<Rightarrow> svcmgr \<Rightarrow> bool" where
  "registry fn S ss p \<longleftrightarrow>
     svc_list (pmem p) fn (svclist (globals p)) ss \<and> apart S ss \<and> distinct (map svc_name ss) \<and>
     (\<lambda>s. (svc_at s, svc_size s)) ` set ss \<subseteq> set (blocks p) \<and>
     length (str8_buf (globals p)) = 128 \<and>
     set (death_cookies (requests p)) \<subseteq> si_death ` svc_at ` set ss"

lemmas si_defs = si_next_def si_handle_def si_death_def si_allow_isolated_def si_len_def si_name_def

text \<open>A node is a matter of its own bytes.\<close>

lemma svc_node_agree:
  assumes "svc_shape s" and "agree_on (svc_region s) m m'"
  shows "svc_node m' fn s \<longleftrightarrow> svc_node m fn s" and "si_next m' (svc_at s) = si_next m (svc_at s)"
proof -
  let ?a = "svc_at s" and ?n = "length (svc_name s)"
  have nw: "no_wrap ?a (svc_size s)" using assms(1) by (simp add: svc_shape_def)
  have f: "load32 m' (?a + of_nat k) = load32 m (?a + of_nat k)" if "k \<le> 20" for k
    using that assms(2) field_at(2,3) [OF nw, of k 4]
    by (intro load32_agree [of "svc_region s"]) (auto simp: svc_size_def sizeof_svcinfo_def)
  have name: "load_u16s m' (?a + of_nat 24) (Suc ?n) = load_u16s m (?a + of_nat 24) (Suc ?n)"
    using assms(2) field_at(2,3) [OF nw, of 24 "2 * Suc ?n"]
    by (intro load_u16s_agree [of "svc_region s"]) (auto simp: svc_size_def sizeof_svcinfo_def)
  show "svc_node m' fn s \<longleftrightarrow> svc_node m fn s"
    using f [of 4] f [of 8] f [of 12] f [of 16] f [of 20] name
    by (simp add: svc_node_def si_defs Let_def add.assoc del: load_u16s.simps)
  show "si_next m' ?a = si_next m ?a" using f [of 0] by (simp add: si_defs)
qed

lemma svc_list_agree:
  assumes "\<forall>s\<in>set ss. agree_on (svc_region s) m m'" and "svc_list m fn a ss"
  shows "svc_list m' fn a ss"
  using assms
  by (induction ss arbitrary: a) (auto simp: svc_node_agree)

lemma svc_list_shape: "svc_list m fn a ss \<Longrightarrow> s \<in> set ss \<Longrightarrow> svc_shape s \<and> svc_node m fn s"
  by (induction ss arbitrary: a) auto

lemma apart_S: "apart S ss \<Longrightarrow> s \<in> set ss \<Longrightarrow> svc_region s \<inter> S = {}"
  by (induction ss) auto

text \<open>What the kernel and the message buffers do leaves the registry alone.\<close>

lemma registry_stable:
  assumes "registry fn S ss p" and "agree_on (- S) (pmem p) (pmem p')"
    and "svclist (globals p') = svclist (globals p)" and "length (str8_buf (globals p')) = 128"
    and "set (blocks p) \<subseteq> set (blocks p')"
    and "set (death_cookies (requests p')) \<subseteq> si_death ` svc_at ` set ss"
  shows "registry fn S ss p'"
proof -
  have "\<forall>s\<in>set ss. agree_on (svc_region s) (pmem p) (pmem p')"
    using assms(1,2) apart_S by (auto simp: registry_def intro!: agree_on_mono [of "- S"])
  with assms show ?thesis by (auto simp: registry_def intro: svc_list_agree)
qed

subsection \<open>Looking up\<close>

definition reg_find :: "svc list \<Rightarrow> u16 list \<Rightarrow> svc option" where
  "reg_find ss name = find (\<lambda>s. svc_name s = name) ss"

lemma node_matches:
  assumes "svc_shape s" and "svc_node m fn s"
  shows "len = si_len m (svc_at s) \<and> mem_equal m a (si_name (svc_at s)) (len * sizeof_uint16) \<longleftrightarrow>
    load_u16s m a (unat len) = svc_name s"
proof -
  let ?n = "length (svc_name s)"
  have n: "?n \<le> 127" "si_len m (svc_at s) = of_nat ?n" using assms
    by (simp_all add: svc_shape_def svc_node_def Let_def)
  have "load_u16s m (si_name (svc_at s)) (Suc ?n) = svc_name s @ [0]"
    using assms by (simp add: svc_node_def Let_def)
  note name = load_u16s_butlast [OF this]
  have un: "unat (of_nat ?n :: u32) = ?n" using n(1) by (simp add: unat_of_nat_small)
  have len: "len = of_nat ?n \<longleftrightarrow> unat len = ?n" using un by (auto intro: addr_eqI)
  show ?thesis
  proof (cases "unat len = ?n")
    case True
    have "unat (len * sizeof_uint16) = 2 * ?n"
      using True n(1) by (simp add: sizeof_uint16_def unat_word_ariths)
    then show ?thesis
      using True len n(2) load_u16s_bytes [of m a ?n m "si_name (svc_at s)"] name
      by (simp add: mem_equal_def)
  next
    case False
    then have "load_u16s m a (unat len) \<noteq> svc_name s" using length_load_u16s by metis
    with False len n(2) show ?thesis by simp
  qed
qed

lemma find_from_list:
  assumes "svc_list m fn a ss"
  shows "find_from m a s16 len =
    Some (case reg_find ss (load_u16s m s16 (unat len)) of None \<Rightarrow> NULL | Some s \<Rightarrow> svc_at s)"
  using assms
proof (induction ss arbitrary: a)
  case Nil
  then show ?case by (subst find_from.simps) (simp add: reg_find_def)
next
  case (Cons s ss)
  then have s: "svc_shape s" "svc_node m fn s" "a = svc_at s" "a \<noteq> NULL"
    by (auto simp: svc_shape_def)
  with node_matches [OF s(1,2), of len s16] Cons show ?case
    by (subst find_from.simps) (auto simp: reg_find_def)
qed

lemma find_svc_registry:
  "registry fn S ss p \<Longrightarrow> find_svc s16 len p =
    Some (case reg_find ss (load_u16s (pmem p) s16 (unat len)) of None \<Rightarrow> NULL | Some s \<Rightarrow> svc_at s)"
  using find_from_list [of "pmem p" fn "svclist (globals p)" ss s16 len]
  by (simp add: find_svc_def registry_def)

lemma reg_find_Some:
  "reg_find ss name = Some s \<Longrightarrow> s \<in> set ss \<and> svc_name s = name"
  by (auto simp: reg_find_def find_Some_iff)

lemma reg_find_None: "reg_find ss name = None \<longleftrightarrow> name \<notin> svc_name ` set ss"
  by (auto simp: reg_find_def find_None_iff)

text \<open>The static buffer of \<open>str8\<close>.\<close>

lemma length_str8_loop [simp]: "length (snd (str8_loop m x n i buf)) = length buf"
  by (induction n arbitrary: x i buf) auto

lemma length_str8_result: "str8_loop m x n i buf = (j, buf') \<Longrightarrow> length buf' = length buf"
  by (metis length_str8_loop snd_conv)

lemma length_str8 [simp]: "length (str8 m x n buf) = length buf"
  by (auto simp: str8_def Let_def length_str8_result split: prod.split)

lemma call_str8_simps [simp]:
  "pmem (call_str8 x n p) = pmem p" "blocks (call_str8 x n p) = blocks p"
  "requests (call_str8 x n p) = requests p" "budget (call_str8 x n p) = budget p"
  "threads (call_str8 x n p) = threads p" "svclist (globals (call_str8 x n p)) = svclist (globals p)"
  "svcmgr_handle (globals (call_str8 x n p)) = svcmgr_handle (globals p)"
  "length (str8_buf (globals (call_str8 x n p))) = length (str8_buf (globals p))"
  by (simp_all add: call_str8_def)

lemma registry_call_str8 [simp]: "registry fn S ss (call_str8 x n p) = registry fn S ss p"
  by (simp add: registry_def)

lemma permitted [simp]:
  "svc_can_find s len spid p = (1, call_str8 s len p)"
  "svc_can_register s len spid p = (1, call_str8 s len p)" "svc_can_list spid = 1"
  by (simp_all add: svc_can_find_def svc_can_register_def svc_can_list_def Let_def
      check_mac_perms_from_lookup_def check_mac_perms_from_getcon_def)

definition is_isolated :: "u32 \<Rightarrow> bool" where
  "is_isolated uid \<longleftrightarrow> uid mod 100000 \<in> {99000..99999}"

text \<open>What a client with the given uid sees of a service.\<close>

definition visible :: "svc list \<Rightarrow> u16 list \<Rightarrow> u32 \<Rightarrow> u32" where
  "visible ss name uid =
     (case reg_find ss name of
        None \<Rightarrow> 0
      | Some s \<Rightarrow> if svc_isolated s = 0 \<and> is_isolated uid then 0 else svc_handle s)"

lemma do_find_service_registry:
  assumes "registry fn S ss p"
  shows "do_find_service s len uid spid p =
    returns (visible ss (load_u16s (pmem p) s (unat len)) uid) (call_str8 s len p)"
proof -
  let ?name = "load_u16s (pmem p) s (unat len)"
  have reg: "registry fn S ss (call_str8 s len p)" using assms by simp
  have isol: "(let appid = uid mod AID_USER in AID_ISOLATED_START \<le> appid \<and> appid \<le> AID_ISOLATED_END)
      \<longleftrightarrow> is_isolated uid"
    by (simp add: Let_def is_isolated_def AID_USER_def AID_ISOLATED_START_def AID_ISOLATED_END_def)
  show ?thesis
  proof (cases "reg_find ss ?name")
    case None
    with find_svc_registry [OF reg, of s len] show ?thesis
      by (simp add: do_find_service_def visible_def)
  next
    case (Some t)
    then have t: "t \<in> set ss" by (simp add: reg_find_Some)
    with assms have "svc_shape t" "svc_node (pmem p) fn t"
      using svc_list_shape unfolding registry_def by blast+
    then have f: "svc_at t \<noteq> NULL" "si_handle (pmem p) (svc_at t) = svc_handle t"
      "si_allow_isolated (pmem p) (svc_at t) = svc_isolated t"
      by (simp_all add: svc_shape_def svc_node_def Let_def)
    show ?thesis
      using find_svc_registry [OF reg, of s len] Some f
      by (simp add: do_find_service_def visible_def isol del: Let_def)
  qed
qed

subsection \<open>Changing a handle\<close>

definition reg_set :: "svc list \<Rightarrow> u16 list \<Rightarrow> u32 \<Rightarrow> svc list" where
  "reg_set ss name h = map (\<lambda>s. if svc_name s = name then s\<lparr>svc_handle := h\<rparr> else s) ss"

lemma svc_size_handle [simp]: "svc_size (s\<lparr>svc_handle := h\<rparr>) = svc_size s"
  by (simp add: svc_size_def)

lemma svc_shape_handle [simp]: "svc_shape (s\<lparr>svc_handle := h\<rparr>) = svc_shape s"
  by (simp add: svc_shape_def)

lemma reg_set_names [simp]:
  "map svc_name (reg_set ss name h) = map svc_name ss"
  "svc_at ` set (reg_set ss name h) = svc_at ` set ss"
  "(\<lambda>s. (svc_at s, svc_size s)) ` set (reg_set ss name h) = (\<lambda>s. (svc_at s, svc_size s)) ` set ss"
  "(\<lambda>s. svc_region s) ` set (reg_set ss name h) = (\<lambda>s. svc_region s) ` set ss"
  by (induction ss) (auto simp: reg_set_def)

lemma reg_set_simps [simp]:
  "reg_set [] name h = []"
  "reg_set (s # ss) name h =
     (if svc_name s = name then s\<lparr>svc_handle := h\<rparr> else s) # reg_set ss name h"
  by (simp_all add: reg_set_def)

lemma reg_set_other: "name \<notin> svc_name ` set ss \<Longrightarrow> reg_set ss name h = ss"
  by (induction ss) auto

lemma reg_set_same:
  "distinct (map svc_name ss) \<Longrightarrow> s \<in> set ss \<Longrightarrow> reg_set ss (svc_name s) (svc_handle s) = ss"
proof (induction ss)
  case (Cons t ss)
  then show ?case by (cases "t = s") (auto simp: reg_set_other)
qed simp

lemma reg_set_set [simp]: "reg_set (reg_set ss name h) name h' = reg_set ss name h'"
  by (induction ss) auto

lemma apart_reg_set [simp]: "apart S (reg_set ss name h) = apart S ss"
  by (induction ss) auto

lemma store_handle:
  assumes "svc_shape s"
  shows "agree_on (- svc_region s) m (store32 m (svc_at s + 4) h)"
    and "svc_node m fn s \<Longrightarrow> svc_node (store32 m (svc_at s + 4) h) fn (s\<lparr>svc_handle := h\<rparr>)"
    and "si_next (store32 m (svc_at s + 4) h) (svc_at s) = si_next m (svc_at s)"
proof -
  let ?a = "svc_at s" and ?n = "length (svc_name s)"
  have nw: "no_wrap ?a (svc_size s)" and sz: "svc_size s = 26 + 2 * ?n"
    using assms by (simp_all add: svc_shape_def svc_size_def sizeof_svcinfo_def)
  have at: "unat (?a + of_nat k) = unat ?a + k" "no_wrap (?a + of_nat k) 4"
    "region (?a + of_nat k) 4 \<subseteq> svc_region s" if "k \<le> 20" for k
    using field_at [OF nw, of k 4] that by (auto simp: sz)
  have at4: "no_wrap (?a + 4) 4" "unat (?a + 4) = unat ?a + 4" "region (?a + 4) 4 \<subseteq> svc_region s"
    using at [of 4] by simp_all
  show "agree_on (- svc_region s) m (store32 m (?a + 4) h)"
    using at4 by (intro agree_on_store32) auto
  have f: "load32 (store32 m (?a + 4) h) (?a + of_nat k) = load32 m (?a + of_nat k)"
    if "k = 0 \<or> 8 \<le> k" "k \<le> 20" for k
    unfolding store32_def using at [OF that(2)] at4 that
    by (intro load32_store_bytes_apart) auto
  have "load_bytes (store32 m (?a + 4) h) (?a + of_nat 24) (2 * Suc ?n) =
      load_bytes m (?a + of_nat 24) (2 * Suc ?n)"
    unfolding store32_def using field_at(1,3) [OF nw, of 24 "2 * Suc ?n"] at4
    by (intro load_bytes_store_bytes_apart) (auto simp: sz)
  then have name: "load_u16s (store32 m (?a + 4) h) (?a + of_nat 24) (Suc ?n) =
      load_u16s m (?a + of_nat 24) (Suc ?n)"
    unfolding load_u16s_bytes .
  show "svc_node (store32 m (?a + 4) h) fn (s\<lparr>svc_handle := h\<rparr>)" if "svc_node m fn s"
    using that f [of 8] f [of 12] f [of 16] f [of 20] name
    by (simp add: svc_node_def si_defs Let_def add.assoc del: load_u16s.simps)
  show "si_next (store32 m (?a + 4) h) ?a = si_next m ?a" using f [of 0] by (simp add: si_defs)
qed

lemma svc_list_set_handle:
  assumes "svc_list m fn a ss" and "apart S ss" and "distinct (map svc_name ss)" and "s \<in> set ss"
  shows "svc_list (store32 m (svc_at s + 4) h) fn a (reg_set ss (svc_name s) h)"
  using assms
proof (induction ss arbitrary: a)
  case (Cons t ss)
  show ?case
  proof (cases "t = s")
    case True
    note sh = store_handle [where s = s and m = m and h = h]
    from Cons.prems True have s: "svc_shape s" "svc_node m fn s" "svc_list m fn (si_next m a) ss"
      "a = svc_at s" by auto
    have "\<forall>u\<in>set ss. agree_on (svc_region u) m (store32 m (svc_at s + 4) h)"
      using Cons.prems(2) True sh(1) [OF s(1)] by (auto intro: agree_on_mono)
    with s(3) have "svc_list (store32 m (svc_at s + 4) h) fn (si_next m a) ss"
      by (auto intro: svc_list_agree)
    moreover have "reg_set ss (svc_name s) h = ss"
      using Cons.prems(3) True by (intro reg_set_other) auto
    ultimately show ?thesis using True s sh(2,3) by simp
  next
    case False
    with Cons.prems have s: "s \<in> set ss" "svc_name t \<noteq> svc_name s" "svc_region t \<inter> svc_region s = {}"
      "svc_shape t" "svc_node m fn t" "svc_list m fn (si_next m a) ss" "a = svc_at t"
      by auto
    have "svc_shape s" using svc_list_shape [OF s(6,1)] by simp
    from agree_on_mono [OF store_handle(1) [OF this], of "svc_region t" m h] s(3)
    have ag: "agree_on (svc_region t) m (store32 m (svc_at s + 4) h)" by auto
    from Cons.IH [OF s(6)] Cons.prems s(1)
    have "svc_list (store32 m (svc_at s + 4) h) fn (si_next m a) (reg_set ss (svc_name s) h)"
      by simp
    with s svc_node_agree [OF s(4) ag] show ?thesis by simp
  qed
qed simp

lemma registry_set_handle:
  assumes "registry fn S ss p" and "s \<in> set ss"
  shows "registry fn S (reg_set ss (svc_name s) h) (p\<lparr>pmem := store32 (pmem p) (svc_at s + 4) h\<rparr>)"
  using assms by (auto simp: registry_def intro: svc_list_set_handle)

subsection \<open>A new node\<close>

lemma load_le32_same: "no_wrap a 4 \<Longrightarrow> load32 (store_bytes m a (le32 v)) a = v"
  using load32_store32_same [of m a v] by (simp add: store32_def)

lemma init_svcinfo_node:
  fixes si s fn nx :: addr and name :: "u16 list" and len handle isol :: u32 and m :: mem
  defines "n \<equiv> length name" and "m' \<equiv> init_svcinfo m si fn s len handle isol nx"
  assumes nw: "no_wrap si (26 + 2 * n)" and len: "unat len = n" "n \<le> 127"
    and name: "load_u16s m s n = name"
    and src: "no_wrap s (2 * n)" "region s (2 * n) \<inter> region si (26 + 2 * n) = {}"
  shows "svc_node m' fn \<lparr>svc_at = si, svc_name = name, svc_handle = handle, svc_isolated = isol\<rparr>"
    and "si_next m' si = nx" and "agree_on (- region si (26 + 2 * n)) m m'"
proof -
  have at: "unat (si + of_nat k) = unat si + k" "no_wrap (si + of_nat k) b"
    "region (si + of_nat k) b \<subseteq> region si (26 + 2 * n)" if "k + b \<le> 26 + 2 * n" "0 < b" for k b
    using field_at [OF nw that] by auto
  have u: "unat (si + 4) = unat si + 4" "unat (si + 8) = unat si + 8" "unat (si + 12) = unat si + 12"
    "unat (si + 16) = unat si + 16" "unat (si + 20) = unat si + 20" "unat (si + 24) = unat si + 24"
    using at(1) [of 4 1] at(1) [of 8 1] at(1) [of 12 1] at(1) [of 16 1] at(1) [of 20 1] at(1) [of 24 1]
    by simp_all
  have lw: "len * sizeof_uint16 = of_nat (2 * n)" and l2: "unat ((len + 1) * sizeof_uint16) = 2 * Suc n"
    using len by (auto intro!: addr_eqI simp: sizeof_uint16_def unat_word_ariths unat_of_nat_small)
  define m1 where "m1 = store_bytes m (si + 4) (le32 handle)"
  define m2 where "m2 = store_bytes m1 (si + 20) (le32 len)"
  define src where "src = load_bytes m2 s (2 * Suc n)"
  define z where "z = si + 24 + of_nat (2 * n)"
  define m3 where "m3 = store_bytes m2 (si + 24) src"
  define m4 where "m4 = store_bytes m3 z (le16 0)"
  have uz: "unat z = unat si + 24 + 2 * n"
    using at(1) [of "24 + 2 * n" 2] by (simp add: z_def add.assoc)
  have lsrc [simp]: "length src = 2 * Suc n" by (simp add: src_def)
  define m5 where "m5 = store_bytes m4 (si + 8) (le32 fn)"
  define m6 where "m6 = store_bytes m5 (si + 12) (le32 si)"
  define m7 where "m7 = store_bytes m6 (si + 16) (le32 isol)"
  have m': "m' = store_bytes m7 si (le32 nx)"
    unfolding m'_def init_svcinfo_def Let_def store32_def store16_def si_defs lw l2
      m1_def m2_def m3_def m4_def m5_def m6_def m7_def src_def z_def
    by (simp add: add.assoc)
  note nwd = nw [unfolded no_wrap_def]
  have inside: "agree_on (- region si (26 + 2 * n)) q (store_bytes q a bs)"
    if "unat si \<le> unat a" "unat a + length bs \<le> unat si + (26 + 2 * n)" for q a bs
    using that nwd region_sub [of si a "length bs" "26 + 2 * n"]
    by (intro agree_on_store_bytes) (auto simp: no_wrap_def)
  have a2: "agree_on (- region si (26 + 2 * n)) m m2"
    unfolding m2_def m1_def using u
    by (intro agree_on_trans [OF inside inside]) simp_all
  have "agree_on (- region si (26 + 2 * n)) m2 m4"
    unfolding m4_def m3_def using u uz
    by (intro agree_on_trans [OF inside inside]) simp_all
  moreover have "agree_on (- region si (26 + 2 * n)) m4 m6"
    unfolding m6_def m5_def using u
    by (intro agree_on_trans [OF inside inside]) simp_all
  moreover have "agree_on (- region si (26 + 2 * n)) m6 m'"
    unfolding m' m7_def using u
    by (intro agree_on_trans [OF inside inside]) simp_all
  ultimately show "agree_on (- region si (26 + 2 * n)) m m'"
    using a2 by (blast intro: agree_on_trans)
  note apart = load32_store_bytes_apart no_wrap_def u uz
  have f: "load32 m' (si + 4) = handle" "load32 m' (si + 8) = fn" "load32 m' (si + 12) = si"
    "load32 m' (si + 16) = isol" "load32 m' (si + 20) = len" "load32 m' si = nx"
    unfolding m' m7_def m6_def m5_def m4_def m3_def m2_def m1_def
    using nwd by (simp_all add: apart load_le32_same)
  have str: "load_bytes m' (si + 24) (2 * n) = load_bytes m3 (si + 24) (2 * n)"
    unfolding m' m7_def m6_def m5_def m4_def
    using nwd by (simp add: load_bytes_store_bytes_apart no_wrap_def u uz del: load_bytes_numeral)
  have "load_bytes m3 (si + 24) (length src) = src"
    unfolding m3_def using nwd u by (intro load_bytes_store_same) (simp add: no_wrap_def)
  then have "load_bytes m3 (si + 24) (2 * Suc n) = load_bytes m2 s (2 * Suc n)"
    unfolding lsrc by (simp only: src_def)
  then have "load_bytes m3 (si + 24) (2 * n) @ load_bytes m3 (si + 24 + of_nat (2 * n)) 2 =
      load_bytes m2 s (2 * n) @ load_bytes m2 (s + of_nat (2 * n)) 2"
    using load_bytes_add [of m3 "si + 24" "2 * n" 2] load_bytes_add [of m2 s "2 * n" 2] by simp
  then have "load_bytes m3 (si + 24) (2 * n) = load_bytes m2 s (2 * n)" by simp
  moreover have "load_bytes m2 s (2 * n) = load_bytes m s (2 * n)"
    using src by (intro load_bytes_agree [OF a2]) auto
  ultimately have "load_bytes m' (si + 24) (2 * n) = load_bytes m s (2 * n)" using str by simp
  then have nm: "load_u16s m' (si + 24) n = name" using name by (simp only: load_u16s_bytes)
  have "load_bytes m' z 2 = load_bytes m4 z 2"
    unfolding m' m7_def m6_def m5_def
    using nwd by (simp add: load_bytes_store_bytes_apart no_wrap_def u uz del: load_bytes_numeral)
  also have "\<dots> = le16 0"
    unfolding m4_def using load_bytes_store_same [of z "le16 0" m3] nwd uz
    by (simp add: no_wrap_def del: load_bytes_numeral)
  finally have "load16 m' z = 0" by (simp add: load16_def le16_def un16_def)
  then have "load_u16s m' (si + 24) (Suc n) = name @ [0]"
    unfolding load_u16s_snoc nm z_def by simp
  moreover have "of_nat n = len" using len by (auto intro: addr_eqI simp: unat_of_nat_small)
  ultimately show "svc_node m' fn \<lparr>svc_at = si, svc_name = name, svc_handle = handle, svc_isolated = isol\<rparr>"
    using f by (simp add: svc_node_def si_defs Let_def n_def [symmetric] add.assoc del: load_u16s.simps)
  show "si_next m' si = nx" using f by (simp add: si_defs)
qed

subsection \<open>Operations with system calls\<close>

text \<open>\<open>malloc\<close>: NULL, or a block that does not overlap any allocated one, nor memory that is
  not heap.\<close>

definition malloc_ok :: "'g image \<Rightarrow> addr set \<Rightarrow> bool" where
  "malloc_ok im S \<longleftrightarrow> (\<forall>bl n. let a = allocator im bl n in a \<noteq> NULL \<longrightarrow>
     no_wrap a n \<and> region a n \<inter> S = {} \<and> (\<forall>(b, k)\<in>set bl. region a n \<inter> region b k = {}))"

lemma calm_mem: "agree_on K (pmem p) m \<Longrightarrow> calm K p (p\<lparr>pmem := m\<rparr>)"
  by (simp add: calm_def)

lemma calm_call_str8 [simp]:
  "calm K (call_str8 x n p) p' = calm K p p'" "calm K p (call_str8 x n p') = calm K p p'"
  by (simp_all add: calm_def)

lemma sends_calm: "sends area rq p p' \<Longrightarrow> K \<inter> area = {} \<Longrightarrow> calm K p p'"
  by (auto simp: calm_def sends_def env_step_def intro: agree_on_mono)

lemma registry_sending:
  assumes "registry fn S ss p" and "sending area rq p p'" and "area \<subseteq> S"
    and "set (cookie_of rq) \<subseteq> si_death ` svc_at ` set ss"
  shows "registry fn S ss p'"
proof (rule registry_stable [OF assms(1)])
  show "agree_on (- S) (pmem p) (pmem p')"
    using assms(2,3) by (auto simp: sending_def env_step_def intro: agree_on_mono)
qed (use assms in \<open>auto simp: sending_def env_step_def registry_def\<close>)

lemma sends_sending: "sends area rq p p' \<Longrightarrow> sending area rq p p'"
  by (simp add: sends_def sending_def)

lemma registry_names: "registry fn S ss p \<Longrightarrow> distinct (map svc_name ss)"
  by (simp add: registry_def)

lemma registry_node:
  assumes "registry fn S ss p" and "t \<in> set ss"
  shows "svc_at t \<noteq> NULL" and "si_handle (pmem p) (svc_at t) = svc_handle t"
    and "load32 (pmem p) (si_death (svc_at t)) = fn"
    and "load32 (pmem p) (si_death (svc_at t) + 4) = svc_at t"
    and "svc_shape t" and "svc_node (pmem p) fn t"
    and "svc_region t \<inter> S = {}" and "(svc_at t, svc_size t) \<in> set (blocks p)"
proof -
  show sh: "svc_shape t" and nd: "svc_node (pmem p) fn t"
    using assms svc_list_shape unfolding registry_def by blast+
  then show "svc_at t \<noteq> NULL" "si_handle (pmem p) (svc_at t) = svc_handle t"
    "load32 (pmem p) (si_death (svc_at t)) = fn" "load32 (pmem p) (si_death (svc_at t) + 4) = svc_at t"
    by (simp_all add: svc_shape_def svc_node_def Let_def)
  show "svc_region t \<inter> S = {}" "(svc_at t, svc_size t) \<in> set (blocks p)"
    using assms apart_S unfolding registry_def by blast+
qed

lemma set_handle_step:
  assumes "registry fn S ss p" and "t \<in> set ss" and "K \<subseteq> S"
  shows "registry fn S (reg_set ss (svc_name t) h) (p\<lparr>pmem := store32 (pmem p) (svc_at t + 4) h\<rparr>)"
    and "calm K p (p\<lparr>pmem := store32 (pmem p) (svc_at t + 4) h\<rparr>)"
proof -
  note n = registry_node [OF assms(1,2)]
  show "registry fn S (reg_set ss (svc_name t) h) (p\<lparr>pmem := store32 (pmem p) (svc_at t + 4) h\<rparr>)"
    by (rule registry_set_handle [OF assms(1,2)])
  show "calm K p (p\<lparr>pmem := store32 (pmem p) (svc_at t + 4) h\<rparr>)"
    using n(7) assms(3) by (intro calm_mem agree_on_mono [OF store_handle(1) [OF n(5)]]) auto
qed

lemma svcinfo_death_wp:
  assumes "registry fn S ss p" and "t \<in> set ss"
    and "honest_kernel im area" and "area \<subseteq> S" and "K \<subseteq> S" and "K \<inter> area = {}"
  shows "wp (svcinfo_death im bs (svc_at t) p)
    (\<lambda>_ p'. registry fn S (reg_set ss (svc_name t) 0) p' \<and> calm K p p' \<and>
       blocks p' = blocks p \<and> svclist (globals p') = svclist (globals p))
    (registry fn S ss)"
proof -
  let ?p = "call_str8 (si_name (svc_at t)) (si_len (pmem p) (svc_at t)) p"
  have reg: "registry fn S ss ?p" using assms(1) by simp
  note n = registry_node [OF assms(1,2)]
  show ?thesis
  proof (cases "svc_handle t = 0")
    case True
    have "reg_set ss (svc_name t) (svc_handle t) = ss"
      using registry_names [OF assms(1)] assms(2) by (rule reg_set_same)
    with reg n True show ?thesis by (simp add: svcinfo_death_def Let_def)
  next
    case False
    have "wp (binder_release im bs (svc_handle t) ?p)
      (\<lambda>_ p'. registry fn S (reg_set ss (svc_name t) 0) (p'\<lparr>pmem := store32 (pmem p') (svc_at t + 4) 0\<rparr>) \<and>
         calm K p (p'\<lparr>pmem := store32 (pmem p') (svc_at t + 4) 0\<rparr>) \<and>
         blocks p' = blocks p \<and> svclist (globals p') = svclist (globals p))
      (registry fn S ss)"
    proof (rule wp_mono [OF one_command_wp(2) [OF assms(3) order_refl]], goal_cases)
      case (1 v p')
      have r: "registry fn S ss p'"
        by (rule registry_sending [OF reg sends_sending [OF 1] assms(4)]) simp
      have "calm K ?p p'" using 1 assms(6) by (rule sends_calm)
      moreover note set_handle_step [OF r assms(2,5), of 0]
      ultimately show ?case using 1 by (auto simp: sends_def env_step_def intro: calm_trans)
    next
      case (2 p')
      show ?case by (rule registry_sending [OF reg 2 assms(4)]) simp
    qed
    with n False show ?thesis by (simp add: svcinfo_death_def Let_def)
  qed
qed

lemma watch_service_wp:
  assumes "registry fn S ss p" and "t \<in> set ss"
    and "honest_kernel im area" and "area \<subseteq> S" and "K \<inter> area = {}"
  shows "wp (watch_service im bs h (svc_at t) p)
    (\<lambda>res p'. res = 0 \<and> registry fn S ss p' \<and> calm K p p' \<and> si_death (svc_at t) \<in> set (death_cookies (requests p')))
    (registry fn S ss)"
proof -
  let ?rq = "\<lambda>m. write_request bs (le32 BC_REQUEST_DEATH_NOTIFICATION @
      encode_handle_cookie \<lparr>hc_handle = h, hc_cookie = si_death (svc_at t)\<rparr>) m"
  have ck: "set (cookie_of (?rq m)) \<subseteq> si_death ` svc_at ` set ss" for m
    using assms(2) by simp
  have link: "wp (binder_link_to_death im bs h (si_death (svc_at t)) q)
      (\<lambda>_ p'. registry fn S ss p' \<and> calm K q p' \<and> si_death (svc_at t) \<in> set (death_cookies (requests p')))
      (registry fn S ss)"
    if r: "registry fn S ss q" for q
  proof (rule wp_mono [OF one_command_wp(3) [OF assms(3) order_refl]], goal_cases)
    case (1 v p')
    then have "requests p' = requests q @ [?rq (pmem q)]" by (simp add: sends_def)
    then show ?case
      using registry_sending [OF r sends_sending [OF 1] assms(4) ck] sends_calm [OF 1 assms(5)] by simp
  next
    case (2 p')
    show ?case by (rule registry_sending [OF r 2 assms(4) ck])
  qed
  show ?thesis
    unfolding watch_service_def wp_and_then wp_returns
  proof (rule wp_mono [OF one_command_wp(1) [OF assms(3) order_refl]], goal_cases)
    case (1 v p')
    have r: "registry fn S ss p'"
      by (rule registry_sending [OF assms(1) sends_sending [OF 1] assms(4)]) simp
    show ?case
      using sends_calm [OF 1 assms(5)]
      by (auto intro!: wp_mono [OF link [OF r]] intro: calm_trans)
  next
    case (2 p')
    show ?case by (rule registry_sending [OF assms(1) 2 assms(4)]) simp
  qed
qed

subsection \<open>Adding a service\<close>

lemma registry_add:
  assumes reg: "registry fn S ss p" and al: "malloc_ok im S"
    and mal: "malloc im (sizeof_svcinfo + unat ((len + 1) * sizeof_uint16)) p = (si, p')" and "si \<noteq> NULL"
    and len: "0 < unat len" "unat len \<le> 127"
    and name: "load_u16s (pmem p) s (unat len) = name" and new: "reg_find ss name = None"
    and src: "no_wrap s (2 * unat len)" "region s (2 * unat len) \<subseteq> S" and "K \<subseteq> S"
    and q: "q = p'\<lparr>pmem := init_svcinfo (pmem p') si fn s len handle isol (svclist (globals p')),
                globals := (globals p')\<lparr>svclist := si\<rparr>\<rparr>"
    and t: "t = \<lparr>svc_at = si, svc_name = name, svc_handle = handle, svc_isolated = isol\<rparr>"
  shows "registry fn S (t # ss) q" and "calm K p q"
proof -
  let ?n = "unat len"
  have nm: "length name = ?n" using name by auto
  have sz: "svc_size t = 26 + 2 * ?n" "sizeof_svcinfo + unat ((len + 1) * sizeof_uint16) = 26 + 2 * ?n"
    using len by (simp_all add: svc_size_def t nm sizeof_svcinfo_def sizeof_uint16_def unat_word_ariths)
  have p': "si = allocator im (blocks p) (26 + 2 * ?n)" "p' = p\<lparr>blocks := (si, 26 + 2 * ?n) # blocks p\<rparr>"
    using mal \<open>si \<noteq> NULL\<close> by (auto simp: malloc_def Let_def sz split: if_splits)
  have fresh: "no_wrap si (26 + 2 * ?n)" "region si (26 + 2 * ?n) \<inter> S = {}"
    "\<forall>(b, k)\<in>set (blocks p). region si (26 + 2 * ?n) \<inter> region b k = {}"
    using al \<open>si \<noteq> NULL\<close> unfolding malloc_ok_def Let_def p'(1) by blast+
  have srcd: "region s (2 * ?n) \<inter> region si (26 + 2 * ?n) = {}" using src(2) fresh(2) by blast
  note node = init_svcinfo_node [where name = name and m = "pmem p" and fn = fn and handle = handle
      and isol = isol and nx = "svclist (globals p)", unfolded nm, OF fresh(1) refl len(2) name src(1) srcd]
  have shape: "svc_shape t" using fresh(1) len \<open>si \<noteq> NULL\<close> by (simp add: svc_shape_def t nm sz [unfolded t])
  have bl: "svc_region u \<inter> region si (26 + 2 * ?n) = {}" if "u \<in> set ss" for u
    using fresh(3) registry_node(8) [OF reg that] by blast
  then have "\<forall>u\<in>set ss. agree_on (svc_region u) (pmem p) (pmem q)"
    unfolding q p'(2) using node(3) by (auto intro: agree_on_mono)
  moreover have "svc_list (pmem p) fn (svclist (globals p)) ss" using reg by (simp add: registry_def)
  ultimately have tail: "svc_list (pmem q) fn (svclist (globals p)) ss" by (rule svc_list_agree)
  have "svc_list (pmem q) fn si (t # ss)"
    using node(1,2) shape tail by (simp add: q p'(2) t)
  moreover have "apart S (t # ss)"
  proof -
    have "svc_region t = region si (26 + 2 * ?n)" unfolding sz(1) by (simp add: t)
    moreover have "apart S ss" using reg by (simp add: registry_def)
    ultimately show ?thesis unfolding apart.simps using bl fresh(2) by blast
  qed
  moreover have "svclist (globals q) = si" "blocks q = (si, 26 + 2 * ?n) # blocks p"
    "requests q = requests p" "str8_buf (globals q) = str8_buf (globals p)"
    by (simp_all add: q p'(2))
  moreover have "svc_at t = si" "svc_name t = name" by (simp_all add: t)
  moreover have "distinct (map svc_name ss)" "(\<lambda>s. (svc_at s, svc_size s)) ` set ss \<subseteq> set (blocks p)"
    "length (str8_buf (globals p)) = 128" "set (death_cookies (requests p)) \<subseteq> si_death ` svc_at ` set ss"
    using reg by (simp_all add: registry_def)
  moreover have "name \<notin> svc_name ` set ss" using new by (simp add: reg_find_None)
  ultimately show "registry fn S (t # ss) q"
    unfolding registry_def by (auto simp: sz(1))
  show "calm K p q"
    using node(3) fresh(2) \<open>K \<subseteq> S\<close> unfolding q p'(2) by (auto simp: calm_def intro: agree_on_mono)
qed

text \<open>
  What adding does to the registry: the result and the registry are functions of the arguments and
  of what \<open>malloc\<close> gives when it is asked for a node of this name, a block at \<open>a\<close> or NULL, the only
  reason to refuse a name that is new and well formed. New entries come first.
\<close>

definition svc_block :: "'g image \<Rightarrow> u16 list \<Rightarrow> 'g process \<Rightarrow> addr" where
  "svc_block im name p = fst (malloc im (sizeof_svcinfo + 2 * Suc (length name)) p)"

definition add_result ::
  "addr \<Rightarrow> svc list \<Rightarrow> u16 list \<Rightarrow> u32 \<Rightarrow> u32 \<Rightarrow> int \<times> svc list" where
  "add_result a ss name handle isol =
     (if handle = 0 \<or> name = [] \<or> 127 < length name then (-1, ss)
      else if reg_find ss name \<noteq> None then (0, reg_set ss name handle)
      else if a = NULL then (-1, ss)
      else (0, \<lparr>svc_at = a, svc_name = name, svc_handle = handle, svc_isolated = isol\<rparr> # ss))"

lemma svc_block_call_str8 [simp]: "svc_block im name (call_str8 x n p) = svc_block im name p"
  by (simp add: svc_block_def malloc_def Let_def)

lemma watch_added:
  assumes "registry fn S ss' q" and "t \<in> set ss'" and "calm K p q" and "Q 0 ss'"
    and "honest_kernel im area" and "area \<subseteq> S" and "K \<inter> area = {}"
  shows "wp (watch_service im bs h (svc_at t) q)
    (\<lambda>res p'. calm K p p' \<and> (\<exists>ss'. registry fn S ss' p' \<and> Q res ss'))
    (\<lambda>p'. \<exists>ss'. registry fn S ss' p')"
  by (rule wp_mono [OF watch_service_wp [OF assms(1,2,5,6,7)]])
    (use assms in \<open>auto intro: calm_trans\<close>)

lemma do_add_service_wp:
  assumes reg: "registry fn S ss p" and "malloc_ok im S"
    and honest: "honest_kernel im area" "area \<subseteq> S" and K: "K \<subseteq> S" "K \<inter> area = {}"
    and src: "unat len \<le> 127 \<Longrightarrow> no_wrap s (2 * unat len) \<and> region s (2 * unat len) \<subseteq> S"
  shows "wp (do_add_service im fn bs s len handle uid isol spid p)
    (\<lambda>res p'. calm K p p' \<and> (\<exists>ss'. registry fn S ss' p' \<and>
       add_result (svc_block im (load_u16s (pmem p) s (unat len)) p) ss
         (load_u16s (pmem p) s (unat len)) handle isol = (res, ss')))
    (\<lambda>p'. \<exists>ss'. registry fn S ss' p')"
proof -
  let ?name = "load_u16s (pmem p) s (unat len)"
  let ?Q = "\<lambda>res ss'. add_result (svc_block im ?name p) ss ?name handle isol = (res, ss')"
  let ?p = "call_str8 s len p"
  have reg1: "registry fn S ss ?p" using reg by simp
  have guard: "handle = 0 \<or> len = 0 \<or> 127 < len \<longleftrightarrow> handle = 0 \<or> ?name = [] \<or> 127 < length ?name"
  proof -
    have "len = 0 \<longleftrightarrow> unat len = 0" by (simp add: unsigned_eq_0_iff)
    moreover have "?name = [] \<longleftrightarrow> unat len = 0" by (metis length_0_conv length_load_u16s)
    moreover have "127 < len \<longleftrightarrow> 127 < unat len" by (simp add: word_less_nat_alt)
    ultimately show ?thesis by simp
  qed
  show ?thesis
  proof (cases "handle = 0 \<or> len = 0 \<or> 127 < len")
    case True
    then have "?Q (-1) ss" using guard by (auto simp: add_result_def)
    with True reg show ?thesis by (auto simp: do_add_service_def)
  next
    case False
    with guard have good: "\<not> (handle = 0 \<or> ?name = [] \<or> 127 < length ?name)" by blast
    have "unat len \<noteq> 0" using False by (simp add: unsigned_eq_0_iff)
    then have len: "0 < unat len" "unat len \<le> 127"
      using False by (simp_all add: word_less_nat_alt)
    show ?thesis
    proof (cases "reg_find ss ?name")
      case (Some t)
      have t: "t \<in> set ss" "svc_name t = ?name" using reg_find_Some [OF Some] by auto
      note n = registry_node [OF reg1 t(1)]
      let ?ss = "reg_set ss ?name handle"
      have Q: "?Q 0 ?ss" using good Some by (auto simp: add_result_def)
      have last: "wp (watch_service im bs handle (svc_at t) (q\<lparr>pmem := store32 (pmem q) (svc_at t + 4) handle\<rparr>))
          (\<lambda>res p'. calm K p p' \<and> (\<exists>ss'. registry fn S ss' p' \<and> ?Q res ss'))
          (\<lambda>p'. \<exists>ss'. registry fn S ss' p')"
        if rq: "registry fn S us q" and us: "u \<in> set us" "svc_at u = svc_at t" "svc_name u = ?name"
          "reg_set us ?name handle = ?ss" and cq: "calm K p q" for q us u
      proof -
        note st = set_handle_step [OF rq us(1) K(1), of handle, unfolded us(2,3,4)]
        have "svc_at t \<in> svc_at ` set ?ss" using t(1) by simp
        then obtain v where v: "v \<in> set ?ss" "svc_at t = svc_at v" by blast
        show ?thesis
          unfolding v(2)
          by (rule watch_added [where Q = ?Q, OF st(1) [unfolded v(2)] v(1) _ Q honest K(2)])
            (use st(2) cq v(2) in \<open>auto intro: calm_trans\<close>)
      qed
      show ?thesis
      proof (cases "svc_handle t = 0")
        case True
        have "do_add_service im fn bs s len handle uid isol spid p = watch_service im bs handle (svc_at t)
            (?p\<lparr>pmem := store32 (pmem ?p) (svc_at t + 4) handle\<rparr>)"
          using False find_svc_registry [OF reg1, of s len] Some n(1,2) True
          by (simp add: do_add_service_def Let_def)
        with last [OF reg1 t(1) refl t(2) refl] show ?thesis by simp
      next
        case live: False
        have eq: "do_add_service im fn bs s len handle uid isol spid p =
            and_then (svcinfo_death im bs (svc_at t) (call_str8 s len ?p)) (\<lambda>_ q.
              watch_service im bs handle (svc_at t) (q\<lparr>pmem := store32 (pmem q) (svc_at t + 4) handle\<rparr>))"
          using False find_svc_registry [OF reg1, of s len] Some n(1,2) live
          by (simp add: do_add_service_def Let_def)
        have reg2: "registry fn S ss (call_str8 s len ?p)" using reg by simp
        show ?thesis
          unfolding eq wp_and_then
        proof (rule wp_mono [OF svcinfo_death_wp [OF reg2 t(1) honest K]], goal_cases)
          case (1 v q)
          then have rq: "registry fn S (reg_set ss ?name 0) q" and "calm K p q" by (simp_all add: t(2))
          moreover have "t\<lparr>svc_handle := 0\<rparr> \<in> set (reg_set ss ?name 0)"
            using t by (auto simp: reg_set_def)
          ultimately show ?case
            by (intro last [OF rq, of "t\<lparr>svc_handle := 0\<rparr>"]) (simp_all add: t(2))
        qed auto
      qed
    next
      case None
      let ?size = "sizeof_svcinfo + unat ((len + 1) * sizeof_uint16)"
      obtain si p' where mal: "malloc im ?size ?p = (si, p')" by fastforce
      have "unat ((len + 1) * sizeof_uint16) = 2 * Suc (length ?name)"
        using len by (simp add: sizeof_uint16_def unat_word_ariths)
      then have "svc_block im ?name ?p = si" using mal by (simp add: svc_block_def)
      then have block: "svc_block im ?name p = si" by simp
      show ?thesis
      proof (cases "si = NULL")
        case True
        then have "p' = ?p" using mal by (auto simp: malloc_def Let_def split: if_splits)
        then have "do_add_service im fn bs s len handle uid isol spid p = returns (-1) (call_str8 s len ?p)"
          using False find_svc_registry [OF reg1, of s len] None mal True
          by (simp add: do_add_service_def Let_def)
        moreover have "?Q (-1) ss" using good None True block by (auto simp: add_result_def)
        ultimately show ?thesis using reg by auto
      next
        case nz: False
        let ?t = "\<lparr>svc_at = si, svc_name = ?name, svc_handle = handle, svc_isolated = isol\<rparr>"
        let ?q = "p'\<lparr>pmem := init_svcinfo (pmem p') si fn s len handle isol (svclist (globals p')),
                globals := (globals p')\<lparr>svclist := si\<rparr>\<rparr>"
        have eq: "do_add_service im fn bs s len handle uid isol spid p = watch_service im bs handle si ?q"
          using False find_svc_registry [OF reg1, of s len] None mal nz
          by (simp add: do_add_service_def Let_def)
        have nm: "load_u16s (pmem ?p) s (unat len) = ?name" by simp
        note new = registry_add [OF reg1 assms(2) mal nz len nm None conjunct1 [OF src [OF len(2)]]
            conjunct2 [OF src [OF len(2)]] K(1) refl refl, of handle isol]
        have "?Q 0 (?t # ss)" using good None nz block by (auto simp: add_result_def)
        from watch_added [where Q = ?Q, OF new(1) _ _ this honest K(2), of ?t p bs handle] new(2)
        show ?thesis unfolding eq by simp
      qed
    qed
  qed
qed

end
