(* ===== verification/Svcmgr.thy ===== *)
theory Svcmgr
  imports Registry
begin

text \<open>
  The service manager as a whole: \<open>svcmgr_handler\<close> on each of its transaction codes, against
  the registry that the list represents, and the interpretation of \<open>binder_service\<close> that makes
  \<open>main\<close> keep the registry for as long as it serves, whatever its clients send.
\<close>

subsection \<open>Buffers of a transaction\<close>

text \<open>A message lies in memory the kernel writes; a reply has its free space away from \<open>K\<close>.\<close>

definition msg_in :: "addr set \<Rightarrow> binder_io \<Rightarrow> bool" where
  "msg_in S msg \<longleftrightarrow> io_end msg < 4294967296 \<and> region (io_data msg) (unat (io_data_avail msg)) \<subseteq> S"

definition reply_room :: "addr set \<Rightarrow> addr set \<Rightarrow> binder_io \<Rightarrow> bool" where
  "reply_room S K reply \<longleftrightarrow> (\<exists>lo mid hi. bio_inv lo mid hi reply) \<and> bio_free reply \<subseteq> S - K"

lemma msg_in_later:
  assumes "msg_in S b" and "io_end b' \<le> io_end b" and "unat (io_data b) \<le> unat (io_data b')"
  shows "msg_in S b'"
proof -
  have "region (io_data b') (unat (io_data_avail b')) \<subseteq> region (io_data b) (unat (io_data_avail b))"
    using assms by (intro region_sub) (auto simp: io_end_def)
  with assms show ?thesis by (auto simp: msg_in_def)
qed

lemma msg_in_uint32: "msg_in S b \<Longrightarrow> bio_get_uint32 m b = (n, b') \<Longrightarrow> msg_in S b'"
  using bio_get_uint32_end [of b m n b'] msg_in_later [of S b b'] by (simp add: msg_in_def)

lemma msg_in_string16: "msg_in S b \<Longrightarrow> bio_get_string16 m b = (s, len, b') \<Longrightarrow> msg_in S b'"
  using bio_get_string16_inside_end(1,2) [of b m s len b'] msg_in_later [of S b b']
  by (simp add: msg_in_def)

lemma string16_in:
  assumes "msg_in S b" and "bio_get_string16 m b = (s, len, b')" and "s \<noteq> NULL" and "unat len \<le> 127"
  shows "no_wrap s (2 * unat len) \<and> region s (2 * unat len) \<subseteq> S"
proof -
  have e: "unat (io_data b) \<le> unat s \<and> unat s + 2 * Suc (unat len) \<le> io_end b"
    using assms by (intro bio_get_string16_inside_end(3) [OF _ assms(2)]) (auto simp: msg_in_def)
  then have "region s (2 * unat len) \<subseteq> region (io_data b) (unat (io_data_avail b))"
    by (intro region_sub) (auto simp: io_end_def)
  with e assms(1) show ?thesis by (auto simp: msg_in_def no_wrap_def)
qed

lemma reply_put:
  assumes "registry fn S ss p" and "reply_room S K reply" and "bio_ext (reply, pmem p) (reply', m')"
  shows "registry fn S ss (p\<lparr>pmem := m'\<rparr>)" and "calm K p (p\<lparr>pmem := m'\<rparr>)"
proof -
  have ag: "agree_on (- bio_free reply) (pmem p) m'" using assms(3) by (rule bio_ext_agree)
  show "registry fn S ss (p\<lparr>pmem := m'\<rparr>)"
    using assms(1,2) ag
    by (intro registry_stable [OF assms(1)]) (auto simp: registry_def reply_room_def intro: agree_on_mono)
  show "calm K p (p\<lparr>pmem := m'\<rparr>)"
    using assms(2) ag by (auto simp: reply_room_def intro!: calm_mem intro: agree_on_mono)
qed

lemma reply_put_uint32:
  assumes "registry fn S ss p" and "reply_room S K reply" and "bio_put_uint32 n (reply, pmem p) = (reply', m')"
  shows "registry fn S ss (p\<lparr>pmem := m'\<rparr>)" and "calm K p (p\<lparr>pmem := m'\<rparr>)"
proof -
  obtain lo mid hi where "bio_inv lo mid hi reply" using assms(2) by (auto simp: reply_room_def)
  from put_uint32_ext [OF this, of "pmem p" n] assms(3)
  have "bio_ext (reply, pmem p) (reply', m')" by simp
  from reply_put [OF assms(1,2) this] show "registry fn S ss (p\<lparr>pmem := m'\<rparr>)" "calm K p (p\<lparr>pmem := m'\<rparr>)" .
qed

lemma reply_put_ref:
  assumes "registry fn S ss p" and "reply_room S K reply" and "bio_put_ref h (reply, pmem p) = (reply', m')"
  shows "registry fn S ss (p\<lparr>pmem := m'\<rparr>)" and "calm K p (p\<lparr>pmem := m'\<rparr>)"
proof -
  obtain lo mid hi where "bio_inv lo mid hi reply" using assms(2) by (auto simp: reply_room_def)
  from put_ref_ext [OF this, of "pmem p" h] assms(3)
  have "bio_ext (reply, pmem p) (reply', m')" by simp
  from reply_put [OF assms(1,2) this] show "registry fn S ss (p\<lparr>pmem := m'\<rparr>)" "calm K p (p\<lparr>pmem := m'\<rparr>)" .
qed

subsection \<open>Listing\<close>

lemma walk_list_nth:
  "svc_list m fn a ss \<Longrightarrow> walk_list m n a = (if n < length ss then svc_at (ss ! n) else NULL)"
proof (induction ss arbitrary: a n)
  case Nil
  then show ?case by (cases n) simp_all
next
  case (Cons s ss)
  then have "a = svc_at s" "a \<noteq> NULL" by (auto simp: svc_shape_def)
  with Cons show ?case by (cases n) auto
qed

lemma take_load_u16s: "k \<le> n \<Longrightarrow> load_u16s m a k = take k (load_u16s m a n)"
  by (rule nth_equalityI) (simp_all add: nth_load_u16s)

lemma take_until_zero:
  "take (Suc (length (takeWhile (\<lambda>c. c \<noteq> 0) us))) (us @ [0]) = takeWhile (\<lambda>c. c \<noteq> 0) us @ [0 :: u16]"
  by (induction us) auto

lemma name_cstr16:
  assumes "svc_node m fn s"
  shows "cstr16 m (si_name (svc_at s)) (takeWhile (\<lambda>c. c \<noteq> 0) (svc_name s))"
proof -
  let ?us = "svc_name s" and ?k = "length (takeWhile (\<lambda>c. c \<noteq> 0) (svc_name s))"
  have "load_u16s m (si_name (svc_at s)) (Suc (length ?us)) = ?us @ [0]"
    using assms by (simp add: svc_node_def Let_def)
  moreover have "?k \<le> length ?us" by (rule length_takeWhile_le)
  ultimately have "load_u16s m (si_name (svc_at s)) (Suc ?k) = take (Suc ?k) (?us @ [0])"
    using take_load_u16s [of "Suc ?k" "Suc (length ?us)" m] by (simp del: load_u16s.simps)
  also have "\<dots> = takeWhile (\<lambda>c. c \<noteq> 0) ?us @ [0]" by (rule take_until_zero)
  finally show ?thesis
    using set_takeWhileD by (fastforce simp: cstr16_def simp del: load_u16s.simps)
qed

text \<open>The name of a service, as far as a terminated string goes, is a string the reply can take.\<close>

definition listed :: "svc \<Rightarrow> u16 list" where
  "listed s = takeWhile (\<lambda>c. c \<noteq> 0) (svc_name s)"

lemma listed_sem:
  assumes "registry fn S ss p" and "t \<in> set ss" and "bio_free reply \<subseteq> S"
  shows "item_sem (PutStr16 (si_name (svc_at t))) (reply, pmem p) (VStr (listed t))"
proof -
  note n = registry_node [OF assms(1,2)]
  have k: "length (listed t) \<le> length (svc_name t)" unfolding listed_def by (rule length_takeWhile_le)
  then have nw: "no_wrap (svc_at t) (svc_size t)" "24 + 2 * Suc (length (listed t)) \<le> svc_size t"
    using n(5) by (simp_all add: svc_shape_def svc_size_def sizeof_svcinfo_def)
  note f = field_at [OF nw, simplified]
  have "region (svc_at t + 24) (2 * Suc (length (listed t))) \<inter> bio_free reply = {}"
    using f(2) n(7) assms(3) by auto
  moreover have "si_name (svc_at t) \<noteq> NULL"
    using f(1) by (metis add_eq_0_iff_both_eq_0 si_name_def unsigned_0 zero_neq_numeral)
  moreover have "length (listed t) < 536870912" using k n(5) by (simp add: svc_shape_def)
  ultimately show ?thesis
    using name_cstr16 [OF n(6)] f(3) by (simp add: si_name_def listed_def)
qed

lemma reply_put_name:
  assumes "registry fn S ss p" and "t \<in> set ss" and "reply_room S K reply"
  obtains reply' m' where "bio_put_string16 (si_name (svc_at t)) (reply, pmem p) = Some (reply', m')"
    and "registry fn S ss (p\<lparr>pmem := m'\<rparr>)" and "calm K p (p\<lparr>pmem := m'\<rparr>)"
proof -
  have "bio_free reply \<subseteq> S" using assms(3) by (auto simp: reply_room_def)
  then have arg: "str16_arg (si_name (svc_at t)) (reply, pmem p)"
    using item_sem_ok [OF listed_sem [OF assms(1,2)]] by simp
  obtain lo mid hi where "bio_inv lo mid hi reply" using assms(3) by (auto simp: reply_room_def)
  from put_string16_ext [OF this arg] obtain reply' m'
    where r: "bio_put_string16 (si_name (svc_at t)) (reply, pmem p) = Some (reply', m')"
      "bio_ext (reply, pmem p) (reply', m')"
    by auto
  show ?thesis by (rule that [OF r(1) reply_put [OF assms(1,3) r(2)]])
qed

subsection \<open>The handler\<close>

text \<open>The interface header: a strict-mode word and the service manager's name. The rest of the
  message, if they are right.\<close>

definition after_interface :: "mem \<Rightarrow> binder_io \<Rightarrow> binder_io option" where
  "after_interface m msg =
     (let (strict_policy, msg) = bio_get_uint32 m msg;
          (s, len, msg) = bio_get_string16 m msg
      in if s \<noteq> NULL \<and> len = 26 \<and> load_bytes m s 52 = enc16 svcmgr_id then Some msg else None)"

definition is_request :: "svcmgr \<Rightarrow> addr \<Rightarrow> binder_io \<Rightarrow> binder_io \<Rightarrow> bool" where
  "is_request p txn msg msg' \<longleftrightarrow>
     txn_target (load_txn (pmem p) txn) = svcmgr_handle (globals p) \<and>
     txn_code (load_txn (pmem p) txn) \<noteq> PING_TRANSACTION \<and>
     after_interface (pmem p) msg = Some msg'"

lemma ping_code: "PING_TRANSACTION = 0x5F504E47"
  by (simp add: PING_TRANSACTION_def B_PACK_CHARS_def of_char_def)

lemma is_requestD:
  assumes "is_request p txn msg msg'"
  obtains pol msg1 s where "txn_target (load_txn (pmem p) txn) = svcmgr_handle (globals p)"
    and "txn_code (load_txn (pmem p) txn) \<noteq> PING_TRANSACTION"
    and "bio_get_uint32 (pmem p) msg = (pol, msg1)"
    and "bio_get_string16 (pmem p) msg1 = (s, 26, msg')" and "s \<noteq> NULL"
    and "load_bytes (pmem p) s 52 = enc16 svcmgr_id"
  using assms
  by (auto simp: is_request_def after_interface_def Let_def split: prod.splits if_splits
      simp del: load_bytes_numeral)

lemma request_in: "is_request p txn msg msg' \<Longrightarrow> msg_in S msg \<Longrightarrow> msg_in S msg'"
  by (elim is_requestD) (blast intro: msg_in_uint32 msg_in_string16)

text \<open>The reply to a lookup.\<close>

definition put_handle :: "u32 \<Rightarrow> binder_io \<times> mem \<Rightarrow> binder_io \<times> mem" where
  "put_handle h = (if h = 0 then bio_put_uint32 0 else bio_put_ref h)"

lemma handler_find:
  assumes reg: "registry fn S ss p" and rq: "is_request p txn msg msg1"
    and code: "txn_code (load_txn (pmem p) txn) \<in> {SVC_MGR_GET_SERVICE, SVC_MGR_CHECK_SERVICE}"
    and name: "bio_get_string16 (pmem p) msg1 = (s, len, msg2)" "s \<noteq> NULL"
    and put: "put_handle (visible ss (load_u16s (pmem p) s (unat len))
        (txn_sender_euid (load_txn (pmem p) txn))) (reply, pmem p) = (reply', m')"
  shows "svcmgr_handler im fn bs txn msg reply p =
    returns (0, msg2, reply') ((call_str8 s len p)\<lparr>pmem := m'\<rparr>)"
  using rq
proof (rule is_requestD)
  fix pol msg0 i
  assume r: "txn_target (load_txn (pmem p) txn) = svcmgr_handle (globals p)"
    "txn_code (load_txn (pmem p) txn) \<noteq> PING_TRANSACTION"
    "bio_get_uint32 (pmem p) msg = (pol, msg0)" "bio_get_string16 (pmem p) msg0 = (i, 26, msg1)"
    "i \<noteq> NULL" "load_bytes (pmem p) i 52 = enc16 svcmgr_id"
  show ?thesis
    using code name put
    by (simp add: svcmgr_handler_def r do_find_service_registry [OF reg] put_handle_def
        del: load_bytes_numeral split: if_splits)
qed

lemma handler_add:
  assumes rq: "is_request p txn msg msg1"
    and code: "txn_code (load_txn (pmem p) txn) = SVC_MGR_ADD_SERVICE"
    and name: "bio_get_string16 (pmem p) msg1 = (s, len, msg2)" "s \<noteq> NULL"
    and args: "bio_get_ref (pmem p) msg2 = (handle, msg3)" "bio_get_uint32 (pmem p) msg3 = (n, msg4)"
  shows "svcmgr_handler im fn bs txn msg reply p =
    and_then (do_add_service im fn bs s len handle (txn_sender_euid (load_txn (pmem p) txn))
        (if n \<noteq> 0 then 1 else 0) (txn_sender_pid (load_txn (pmem p) txn)) p) (\<lambda>res p.
      if res \<noteq> 0 then returns (-1, msg4, reply) p
      else let (reply, m) = bio_put_uint32 0 (reply, pmem p)
           in returns (0, msg4, reply) (p\<lparr>pmem := m\<rparr>))"
  using rq
proof (rule is_requestD)
  fix pol msg0 i
  assume r: "txn_target (load_txn (pmem p) txn) = svcmgr_handle (globals p)"
    "txn_code (load_txn (pmem p) txn) \<noteq> PING_TRANSACTION"
    "bio_get_uint32 (pmem p) msg = (pol, msg0)" "bio_get_string16 (pmem p) msg0 = (i, 26, msg1)"
    "i \<noteq> NULL" "load_bytes (pmem p) i 52 = enc16 svcmgr_id"
  show ?thesis
    using name args
    by (simp add: svcmgr_handler_def r(1,3,4,5,6) code ping_code svc_mgr_codes Let_def
        del: load_bytes_numeral)
qed

lemma handler_list:
  assumes reg: "registry fn S ss p" and rq: "is_request p txn msg msg1"
    and code: "txn_code (load_txn (pmem p) txn) = SVC_MGR_LIST_SERVICES"
    and n: "bio_get_uint32 (pmem p) msg1 = (n, msg2)"
  shows "svcmgr_handler im fn bs txn msg reply p =
    (if unat n < length ss then
       case bio_put_string16 (si_name (svc_at (ss ! unat n))) (reply, pmem p) of
         None \<Rightarrow> None
       | Some (reply, m) \<Rightarrow> returns (0, msg2, reply) (p\<lparr>pmem := m\<rparr>)
     else returns (-1, msg2, reply) p)"
  using rq
proof (rule is_requestD)
  fix pol msg0 i
  assume r: "txn_target (load_txn (pmem p) txn) = svcmgr_handle (globals p)"
    "txn_code (load_txn (pmem p) txn) \<noteq> PING_TRANSACTION"
    "bio_get_uint32 (pmem p) msg = (pol, msg0)" "bio_get_string16 (pmem p) msg0 = (i, 26, msg1)"
    "i \<noteq> NULL" "load_bytes (pmem p) i 52 = enc16 svcmgr_id"
  have "walk_list (pmem p) (unat n) (svclist (globals p)) =
      (if unat n < length ss then svc_at (ss ! unat n) else NULL)"
    using reg by (intro walk_list_nth [where fn = fn]) (simp add: registry_def)
  moreover have "unat n < length ss \<Longrightarrow> svc_at (ss ! unat n) \<noteq> NULL"
    using registry_node(1) [OF reg] by simp
  ultimately show ?thesis
    using n by (simp add: svcmgr_handler_def r(1,3,4,5,6) code ping_code svc_mgr_codes
        del: load_bytes_numeral)
qed

text \<open>Every other transaction is answered at once and changes nothing but the buffer of \<open>str8\<close>.\<close>

lemma handler_other:
  assumes "\<And>msg1. is_request p txn msg msg1 \<Longrightarrow>
      txn_code (load_txn (pmem p) txn) \<notin> {1, 2, 3, 4} \<or>
      txn_code (load_txn (pmem p) txn) \<in> {1, 2, 3} \<and> fst (bio_get_string16 (pmem p) msg1) = NULL"
  shows "\<exists>res msg' q. svcmgr_handler im fn bs txn msg reply p = returns (res, msg', reply) q \<and>
    (q = p \<or> (\<exists>x n. q = call_str8 x n p)) \<and>
    res = (if txn_target (load_txn (pmem p) txn) = svcmgr_handle (globals p) \<and>
              txn_code (load_txn (pmem p) txn) = PING_TRANSACTION then 0 else -1)"
proof -
  let ?t = "load_txn (pmem p) txn"
  obtain pol msg0 where u: "bio_get_uint32 (pmem p) msg = (pol, msg0)" by fastforce
  obtain i len msg1 where str: "bio_get_string16 (pmem p) msg0 = (i, len, msg1)"
    by (cases "bio_get_string16 (pmem p) msg0") auto
  obtain s n msg2 where nm: "bio_get_string16 (pmem p) msg1 = (s, n, msg2)"
    by (cases "bio_get_string16 (pmem p) msg1") auto
  have rq: "is_request p txn msg msg1 \<longleftrightarrow> txn_target ?t = svcmgr_handle (globals p) \<and>
      txn_code ?t \<noteq> PING_TRANSACTION \<and> i \<noteq> NULL \<and> len = 26 \<and> load_bytes (pmem p) i 52 = enc16 svcmgr_id"
    using u str by (auto simp: is_request_def after_interface_def simp del: load_bytes_numeral)
  show ?thesis
  proof (cases "is_request p txn msg msg1")
    case False
    with rq u str show ?thesis
      by (auto simp: svcmgr_handler_def returns_def Let_def simp del: load_bytes_numeral)
  next
    case True
    with assms [OF True] rq u str nm show ?thesis
      by (auto simp: svcmgr_handler_def svc_mgr_codes returns_def Let_def simp del: load_bytes_numeral)
  qed
qed

subsection \<open>The service contract\<close>

lemma svcmgr_handler_keeps:
  assumes reg: "registry fn S ss p" and msg: "msg_in S msg" and room: "reply_room S K reply"
    and heap: "malloc_ok im S" and honest: "honest_kernel im area" "area \<subseteq> S"
    and K: "K \<subseteq> S" "K \<inter> area = {}"
  shows "wp (svcmgr_handler im fn bs txn msg reply p)
    (\<lambda>_ p'. calm K p p' \<and> (\<exists>ss'. registry fn S ss' p')) (\<lambda>p'. \<exists>ss'. registry fn S ss' p')"
proof -
  let ?t = "load_txn (pmem p) txn"
  let ?other = "\<forall>msg1. is_request p txn msg msg1 \<longrightarrow> txn_code ?t \<notin> {1, 2, 3, 4} \<or>
      txn_code ?t \<in> {1, 2, 3} \<and> fst (bio_get_string16 (pmem p) msg1) = NULL"
  show ?thesis
  proof (cases ?other)
    case True
    with handler_other [of p txn msg im fn bs reply] obtain res msg' q
      where "svcmgr_handler im fn bs txn msg reply p = returns (res, msg', reply) q"
        "q = p \<or> (\<exists>x n. q = call_str8 x n p)"
      by blast
    with reg show ?thesis by auto
  next
    case False
    then obtain msg1 where rq: "is_request p txn msg msg1" and c: "txn_code ?t \<in> {1, 2, 3, 4}"
      "txn_code ?t \<in> {1, 2, 3} \<longrightarrow> fst (bio_get_string16 (pmem p) msg1) \<noteq> NULL"
      by blast
    obtain s len msg2 where nm: "bio_get_string16 (pmem p) msg1 = (s, len, msg2)"
      by (cases "bio_get_string16 (pmem p) msg1") auto
    consider (find) "txn_code ?t \<in> {SVC_MGR_GET_SERVICE, SVC_MGR_CHECK_SERVICE}" "s \<noteq> NULL"
      | (add) "txn_code ?t = SVC_MGR_ADD_SERVICE" "s \<noteq> NULL"
      | (list_) "txn_code ?t = SVC_MGR_LIST_SERVICES"
      using c nm by (auto simp: svc_mgr_codes)
    then show ?thesis
    proof cases
      case find
      let ?h = "visible ss (load_u16s (pmem p) s (unat len)) (txn_sender_euid ?t)"
      obtain reply' m' where put: "put_handle ?h (reply, pmem p) = (reply', m')" by fastforce
      have "registry fn S ss (p\<lparr>pmem := m'\<rparr>)" "calm K p (p\<lparr>pmem := m'\<rparr>)"
        using put reply_put_uint32 [OF reg room] reply_put_ref [OF reg room]
        by (auto simp: put_handle_def split: if_splits)
      then show ?thesis
        unfolding handler_find [OF reg rq find(1) nm find(2) put]
        by (auto simp: registry_def calm_def)
    next
      case add
      obtain handle msg3 where h: "bio_get_ref (pmem p) msg2 = (handle, msg3)" by fastforce
      obtain n msg4 where n: "bio_get_uint32 (pmem p) msg3 = (n, msg4)" by fastforce
      show ?thesis
        unfolding handler_add [OF rq add(1) nm add(2) h n] wp_and_then
      proof (rule wp_mono [OF do_add_service_wp [OF reg heap honest K]], goal_cases)
        case 1
        then show ?case by (rule string16_in [OF request_in [OF rq msg] nm add(2)])
      next
        case (2 res p')
        then obtain ss' where q: "calm K p p'" "registry fn S ss' p'" by blast
        show ?case
        proof (cases "bio_put_uint32 0 (reply, pmem p')")
          case (Pair reply' m')
          from reply_put_uint32 [OF q(2) room Pair] q show ?thesis
            by (auto simp: Pair intro: calm_trans)
        qed
      qed
    next
      case list_
      obtain n msg2 where n: "bio_get_uint32 (pmem p) msg1 = (n, msg2)" by fastforce
      show ?thesis
      proof (cases "unat n < length ss")
        case True
        then have "ss ! unat n \<in> set ss" by simp
        then obtain reply' m' where r: "bio_put_string16 (si_name (svc_at (ss ! unat n))) (reply, pmem p) = Some (reply', m')"
          "registry fn S ss (p\<lparr>pmem := m'\<rparr>)" "calm K p (p\<lparr>pmem := m'\<rparr>)"
          using reply_put_name [OF reg _ room] by blast
        then show ?thesis unfolding handler_list [OF reg rq list_ n] using True by auto
      next
        case False
        then show ?thesis unfolding handler_list [OF reg rq list_ n] using reg by auto
      qed
    qed
  qed
qed

text \<open>
  The service manager as a server: \<open>malloc\<close> behaves, the function pointers point to the code,
  and the state is a registry. \<open>bs\<close> is any binder state.
\<close>

definition svcmgr_setup :: "svcmgr_globals server \<Rightarrow> bool" where
  "svcmgr_setup srv \<longleftrightarrow> laid_out srv \<and> malloc_ok (srv_image srv) (srv_shared srv) \<and>
     death_code (srv_image srv) (srv_death srv) = Some (svcinfo_death (srv_image srv)) \<and>
     handler_code (srv_image srv) (srv_func srv) = Some (svcmgr_handler (srv_image srv) (srv_death srv))"

definition svcmgr_inv :: "svcmgr_globals server \<Rightarrow> svcmgr \<Rightarrow> bool" where
  "svcmgr_inv srv p \<longleftrightarrow> (\<exists>ss. registry (srv_death srv) (srv_shared srv) ss p)"

lemma msg_for_in:
  assumes "txn_in area (load_txn (pmem p) txn)" and "area \<subseteq> S"
  shows "msg_in S (msg_for im txn p)"
  using assms by (auto simp: txn_in_def msg_in_def msg_for_def bio_init_from_txn_def io_end_def)

lemma reply_for_apart:
  assumes "laid_out srv"
  shows "reply_room (srv_shared srv) (readbuf_area (srv_image srv)) (reply_for (srv_image srv))"
  using reply_for_room [OF assms] assms by (auto simp: reply_room_def laid_out_def Let_def)

lemma svcmgr_buries:
  assumes "svcmgr_setup srv" and "svcmgr_inv srv p" and "d \<in> set (death_cookies (requests p))"
  shows "wp (parse_dead_binder (srv_image srv) bs d p)
    (\<lambda>_ p'. svcmgr_inv srv p' \<and> calm (readbuf_area (srv_image srv)) p p') (svcmgr_inv srv)"
proof -
  from assms(1) have lay: "laid_out srv" by (simp add: svcmgr_setup_def)
  from assms(2) obtain ss where reg: "registry (srv_death srv) (srv_shared srv) ss p"
    by (auto simp: svcmgr_inv_def)
  with assms(3) obtain t where t: "t \<in> set ss" "d = si_death (svc_at t)"
    by (auto simp: registry_def)
  note n = registry_node [OF reg t(1)]
  have "parse_dead_binder (srv_image srv) bs d p = svcinfo_death (srv_image srv) bs (svc_at t) p"
    using n(3,4) assms(1) by (simp add: parse_dead_binder_def t(2) svcmgr_setup_def)
  moreover from lay have l: "honest_kernel (srv_image srv) (srv_area srv)" "srv_area srv \<subseteq> srv_shared srv"
    "readbuf_area (srv_image srv) \<subseteq> srv_shared srv" "readbuf_area (srv_image srv) \<inter> srv_area srv = {}"
    by (auto simp: laid_out_def Let_def)
  have "wp (svcinfo_death (srv_image srv) bs (svc_at t) p)
    (\<lambda>_ p'. svcmgr_inv srv p' \<and> calm (readbuf_area (srv_image srv)) p p') (svcmgr_inv srv)"
    by (rule wp_mono [OF svcinfo_death_wp [OF reg t(1) l]]) (auto simp: svcmgr_inv_def)
  ultimately show ?thesis by simp
qed

interpretation svcmgr: binder_service svcmgr_setup svcmgr_inv
proof unfold_locales
  fix srv :: "svcmgr_globals server" and p p' :: svcmgr
  assume s: "svcmgr_setup srv"
  then show lay: "laid_out srv" by (simp add: svcmgr_setup_def)
  show "svcmgr_inv srv p'" if "svcmgr_inv srv p" "env_step (srv_shared srv) p p'"
    "death_cookies (requests p') = death_cookies (requests p)"
  proof -
    from that(1) obtain ss where reg: "registry (srv_death srv) (srv_shared srv) ss p"
      by (auto simp: svcmgr_inv_def)
    have "registry (srv_death srv) (srv_shared srv) ss p'"
      by (rule registry_stable [OF reg]) (use that reg in \<open>auto simp: env_step_def registry_def\<close>)
    then show ?thesis by (auto simp: svcmgr_inv_def)
  qed
  show "\<exists>h. handler_code (srv_image srv) (srv_func srv) = Some h \<and>
      wp (h bs txn (msg_for (srv_image srv) txn p) (reply_for (srv_image srv)) p)
        (\<lambda>_ p'. svcmgr_inv srv p' \<and> calm (readbuf_area (srv_image srv)) p p') (svcmgr_inv srv)"
    if "svcmgr_inv srv p" "txn_in (srv_area srv) (load_txn (pmem p) txn)" for bs txn
  proof -
    from that(1) obtain ss where reg: "registry (srv_death srv) (srv_shared srv) ss p"
      by (auto simp: svcmgr_inv_def)
    from s have m: "malloc_ok (srv_image srv) (srv_shared srv)"
      "handler_code (srv_image srv) (srv_func srv) = Some (svcmgr_handler (srv_image srv) (srv_death srv))"
      by (simp_all add: svcmgr_setup_def)
    from lay have l: "honest_kernel (srv_image srv) (srv_area srv)" "srv_area srv \<subseteq> srv_shared srv"
      "readbuf_area (srv_image srv) \<subseteq> srv_shared srv" "readbuf_area (srv_image srv) \<inter> srv_area srv = {}"
      by (auto simp: laid_out_def Let_def)
    have "wp (svcmgr_handler (srv_image srv) (srv_death srv) bs txn (msg_for (srv_image srv) txn p)
          (reply_for (srv_image srv)) p)
        (\<lambda>_ p'. svcmgr_inv srv p' \<and> calm (readbuf_area (srv_image srv)) p p') (svcmgr_inv srv)"
      by (rule wp_mono [OF svcmgr_handler_keeps [OF reg msg_for_in [OF that(2) l(2)] reply_for_apart [OF lay] m(1) l]])
        (auto simp: svcmgr_inv_def)
    with m(2) show ?thesis by simp
  qed
  show "wp (parse_dead_binder (srv_image srv) bs d p)
      (\<lambda>_ p'. svcmgr_inv srv p' \<and> calm (readbuf_area (srv_image srv)) p p') (svcmgr_inv srv)"
    if "svcmgr_inv srv p" "d \<in> set (death_cookies (requests p))" for bs d
    by (rule svcmgr_buries [OF s that])
qed

subsection \<open>What clients see\<close>

lemma reg_find_set:
  "reg_find (reg_set ss name h) name' =
     (if name' = name then map_option (\<lambda>s. s\<lparr>svc_handle := h\<rparr>) (reg_find ss name') else reg_find ss name')"
  by (induction ss) (auto simp: reg_find_def)

lemma reg_find_Cons:
  "reg_find (s # ss) name = (if svc_name s = name then Some s else reg_find ss name)"
  by (simp add: reg_find_def)

lemma visible_set:
  "visible (reg_set ss name h) name' uid =
     (if name' = name then
        case reg_find ss name of None \<Rightarrow> 0
        | Some s \<Rightarrow> if svc_isolated s = 0 \<and> is_isolated uid then 0 else h
      else visible ss name' uid)"
  by (auto simp: visible_def reg_find_set split: option.splits)

text \<open>A successful registration is what clients see from then on, and other names are not
  affected.\<close>

lemma added_visible:
  assumes "add_result a ss name handle isol = (0, ss')"
  shows "\<not> is_isolated uid \<Longrightarrow> visible ss' name uid = handle"
    and "name' \<noteq> name \<Longrightarrow> visible ss' name' uid = visible ss name' uid"
  using assms
  by (auto simp: add_result_def visible_def reg_find_set reg_find_Cons split: if_splits option.splits)

text \<open>The states of a process before it serves.\<close>

definition starting :: "svcmgr \<Rightarrow> bool" where
  "starting p \<longleftrightarrow> svclist (globals p) = NULL \<and> length (str8_buf (globals p)) = 128 \<and>
     death_cookies (requests p) = []"

lemma starting_registry: "starting p \<Longrightarrow> svcmgr_inv srv p"
  by (auto simp: starting_def svcmgr_inv_def registry_def intro!: exI [of _ "[]"])

lemma syscall_starting:
  "starting p \<Longrightarrow> cookie_of rq = [] \<Longrightarrow> wp (syscall im rq p) (\<lambda>_. starting) starting"
  by (simp add: syscall_def log_request_def Let_def starting_def)

lemma log_starting: "starting p \<Longrightarrow> cookie_of rq = [] \<Longrightarrow> starting (log_request rq p)"
  by (simp add: log_request_def starting_def)

lemma free_starting: "starting p \<Longrightarrow> starting (free_block a p)"
  by (simp add: free_block_def log_request_def starting_def)

lemma binder_open_starting:
  assumes "starting p"
  shows "wp (binder_open im n p) (\<lambda>_. starting) starting"
proof -
  have "starting (snd (malloc im k p))" for k
    using assms by (simp add: malloc_def Let_def starting_def)
  then show ?thesis
    unfolding binder_open_def Let_def
    by (auto simp: fail_open_def fail_map_def split: prod.split
        intro!: wp_mono [OF syscall_starting] free_starting log_starting) (metis snd_conv)+
qed

subsection \<open>The static buffer\<close>

lemma str8_loop_result:
  assumes "i + n \<le> length buf"
  shows "str8_loop m x n i buf = (let us = takeWhile (\<lambda>c. c \<noteq> 0) (load_u16s m x n) in
    (i + length us, take i buf @ map ucast us @ drop (i + length us) buf))"
  using assms
proof (induction n arbitrary: x i buf)
  case 0
  then show ?case by simp
next
  case (Suc n)
  show ?case
  proof (cases "load16 m x = 0")
    case True
    then show ?thesis by simp
  next
    case False
    let ?b = "ucast (load16 m x) :: byte"
    have "take (Suc i) (buf[i := ?b]) = take i buf @ [?b]"
      using Suc.prems by (simp add: take_Suc_conv_app_nth)
    with False Suc.IH [of "Suc i" "buf[i := ?b]" "x + 2"] Suc.prems show ?thesis
      by (simp add: Let_def)
  qed
qed

subsection \<open>A running service manager\<close>

text \<open>The code behind function pointers depends on the kernel and on \<open>malloc\<close> only, so a program
  can be linked: any image becomes one whose function pointers lead to the service manager.\<close>

lemma svcmgr_code_same:
  assumes "kernel im = kernel im'" and "allocator im = allocator im'"
  shows "svcinfo_death im = svcinfo_death im'" and "svcmgr_handler im = svcmgr_handler im'"
proof -
  have w: "binder_write im = binder_write im'"
    using assms(1) by (intro ext) (simp add: binder_write_def ioctl_write_read_def syscall_def Let_def)
  show d: "svcinfo_death im = svcinfo_death im'"
    by (intro ext) (simp add: svcinfo_death_def binder_release_def w Let_def)
  have m: "malloc im = malloc im'" using assms(2) by (intro ext) (simp add: malloc_def)
  have wa: "watch_service im = watch_service im'"
    by (intro ext) (simp only: watch_service_def binder_acquire_def binder_link_to_death_def w)
  have "do_add_service im = do_add_service im'"
    by (intro ext) (simp only: do_add_service_def d m wa)
  then show "svcmgr_handler im = svcmgr_handler im'"
    by (intro ext) (simp only: svcmgr_handler_def)
qed

definition svcmgr_linked :: "svcmgr_globals image \<Rightarrow> addr \<Rightarrow> addr \<Rightarrow> svcmgr_globals image" where
  "svcmgr_linked im handler fn = im\<lparr>handler_code := [handler \<mapsto> svcmgr_handler im fn],
     death_code := [fn \<mapsto> svcinfo_death im]\<rparr>"

text \<open>An allocator that hands out pages of 4096 bytes from 0x100000 on, as long as nothing lies
  above them.\<close>

definition page_alloc :: "(addr \<times> nat) list \<Rightarrow> nat \<Rightarrow> addr" where
  "page_alloc bl n =
     (let e = 0x100000 + 4096 * length bl in
      if n \<le> 4096 \<and> length bl < 100 \<and> (\<forall>(b, k)\<in>set bl. unat b + k \<le> e) then of_nat e else NULL)"

definition demo_image :: "svcmgr_globals image" where
  "demo_image = svcmgr_linked \<lparr>loop_readbuf = 0x1000, call_readbuf = 0x2000, parse_rdata = 0x3000,
     reply_status = 0x4000, caller_iodata = 0x5000, junk_txn = example_reply_txn,
     junk_io = zero_io, handler_code = (\<lambda>_. None), death_code = (\<lambda>_. None),
     kernel = (\<lambda>h. example_answer [] []), allocator = page_alloc\<rparr> 0x9000 0x9100"

definition demo :: "svcmgr_globals server" where
  "demo = \<lparr>srv_image = demo_image, srv_func = 0x9000, srv_death = 0x9100,
     srv_area = region 0x80000 0x20000,
     srv_shared = region 0x80000 0x20000 \<union> region 0x1000 0x4000\<rparr>"

lemma page_alloc_ok:
  assumes "\<And>x. 0x100000 \<le> unat x \<Longrightarrow> x \<notin> S"
  shows "allocator im = page_alloc \<Longrightarrow> malloc_ok im S"
  unfolding malloc_ok_def Let_def
proof (intro allI impI conjI)
  fix bl n
  assume im: "allocator im = page_alloc" and nz: "allocator im bl n \<noteq> NULL"
  let ?a = "allocator im bl n" and ?e = "0x100000 + 4096 * length bl"
  have a: "?a = of_nat ?e" "n \<le> 4096" "length bl < 100" "\<forall>(b, k)\<in>set bl. unat b + k \<le> ?e"
    using nz by (auto simp: im page_alloc_def Let_def split: if_splits)
  have u: "unat ?a = ?e" unfolding a(1) using a(3) by (intro unat_of_nat_small) simp
  show "no_wrap ?a n" unfolding no_wrap_def u using a(2,3) by simp
  show "region ?a n \<inter> S = {}" using assms u by (auto simp: in_region)
  show "\<forall>(b, k)\<in>set bl. region ?a n \<inter> region b k = {}"
    using a(4) u by (fastforce simp: in_region)
qed

lemma demo_setup: "svcmgr_setup demo"
proof -
  have "honest_kernel demo_image (region 0x80000 0x20000)"
    by (auto simp: honest_kernel_def demo_image_def svcmgr_linked_def intro!: speaks_example)
  then have "laid_out demo"
    by (auto simp: laid_out_def demo_def demo_image_def svcmgr_linked_def rdata_area_def
        readbuf_area_def status_area_def in_region no_wrap_def)
  moreover have "malloc_ok demo_image (srv_shared demo)"
    by (rule page_alloc_ok) (auto simp: demo_def in_region demo_image_def svcmgr_linked_def)
  moreover note svcmgr_code_same [of demo_image "demo_image\<lparr>handler_code := \<lambda>_. None, death_code := \<lambda>_. None\<rparr>"]
  ultimately show ?thesis
    by (auto simp: svcmgr_setup_def demo_def demo_image_def svcmgr_linked_def)
qed

text \<open>
  A state in the middle of a run, byte by byte: three requests in the mapped area (a
  lookup of "hi" at 0x80000, a registration of "yo" at 0x80100 whose object's offset is at
  0x80200, a listing at 0x80300), their transactions in the read buffer, and one node, at
  0x100000, for the service "hi" with handle 7.
\<close>

definition demo_lookup :: "byte list" where
  "demo_lookup =
    [0, 0, 0, 0, 26, 0, 0, 0, 97, 0, 110, 0, 100, 0, 114, 0, 111, 0, 105, 0, 100, 0, 46, 0,
     111, 0, 115, 0, 46, 0, 73, 0, 83, 0, 101, 0, 114, 0, 118, 0, 105, 0, 99, 0, 101, 0, 77,
     0, 97, 0, 110, 0, 97, 0, 103, 0, 101, 0, 114, 0, 0, 0, 0, 0, 2, 0, 0, 0, 104, 0, 105, 0,
     0, 0, 0, 0]"

definition demo_add :: "byte list" where
  "demo_add =
    [0, 0, 0, 0, 26, 0, 0, 0, 97, 0, 110, 0, 100, 0, 114, 0, 111, 0, 105, 0, 100, 0, 46, 0,
     111, 0, 115, 0, 46, 0, 73, 0, 83, 0, 101, 0, 114, 0, 118, 0, 105, 0, 99, 0, 101, 0, 77,
     0, 97, 0, 110, 0, 97, 0, 103, 0, 101, 0, 114, 0, 0, 0, 0, 0, 2, 0, 0, 0, 121, 0, 111, 0,
     0, 0, 0, 0, 133, 42, 104, 115, 127, 1, 0, 0, 9, 0, 0, 0, 0, 0, 0, 0, 0, 0, 0, 0]"

definition demo_offsets :: "byte list" where
  "demo_offsets =
    [76, 0, 0, 0]"

definition demo_list :: "byte list" where
  "demo_list =
    [0, 0, 0, 0, 26, 0, 0, 0, 97, 0, 110, 0, 100, 0, 114, 0, 111, 0, 105, 0, 100, 0, 46, 0,
     111, 0, 115, 0, 46, 0, 73, 0, 83, 0, 101, 0, 114, 0, 118, 0, 105, 0, 99, 0, 101, 0, 77,
     0, 97, 0, 110, 0, 97, 0, 103, 0, 101, 0, 114, 0, 0, 0, 0, 0, 0, 0, 0, 0]"

definition demo_txn_lookup :: "byte list" where
  "demo_txn_lookup =
    [0, 0, 0, 0, 0, 0, 0, 0, 2, 0, 0, 0, 0, 0, 0, 0, 1, 0, 0, 0, 232, 3, 0, 0, 76, 0, 0, 0,
     0, 0, 0, 0, 0, 0, 8, 0, 0, 0, 0, 0]"

definition demo_txn_add :: "byte list" where
  "demo_txn_add =
    [0, 0, 0, 0, 0, 0, 0, 0, 3, 0, 0, 0, 0, 0, 0, 0, 1, 0, 0, 0, 232, 3, 0, 0, 96, 0, 0, 0,
     4, 0, 0, 0, 0, 1, 8, 0, 0, 2, 8, 0]"

definition demo_txn_list :: "byte list" where
  "demo_txn_list =
    [0, 0, 0, 0, 0, 0, 0, 0, 4, 0, 0, 0, 0, 0, 0, 0, 1, 0, 0, 0, 232, 3, 0, 0, 68, 0, 0, 0,
     0, 0, 0, 0, 0, 3, 8, 0, 0, 0, 0, 0]"

definition demo_node :: "byte list" where
  "demo_node =
    [0, 0, 0, 0, 7, 0, 0, 0, 0, 145, 0, 0, 0, 0, 16, 0, 0, 0, 0, 0, 2, 0, 0, 0, 104, 0, 105,
     0, 0, 0]"

definition demo_mem :: mem where
  "demo_mem x =
     (if x - 0x80000 < 76 then demo_lookup ! unat (x - 0x80000)
      else if x - 0x80100 < 96 then demo_add ! unat (x - 0x80100)
      else if x - 0x80200 < 4 then demo_offsets ! unat (x - 0x80200)
      else if x - 0x80300 < 68 then demo_list ! unat (x - 0x80300)
      else if x - 0x1004 < 40 then demo_txn_lookup ! unat (x - 0x1004)
      else if x - 0x1030 < 40 then demo_txn_add ! unat (x - 0x1030)
      else if x - 0x1058 < 40 then demo_txn_list ! unat (x - 0x1058)
      else if x - 0x100000 < 30 then demo_node ! unat (x - 0x100000)
      else 0)"

definition demo_start :: svcmgr where
  "demo_start = \<lparr>pmem = (\<lambda>_. 0), blocks = [], requests = [], budget = 9, threads = [],
     globals = \<lparr>svclist = NULL, svcmgr_handle = 0, str8_buf = replicate 128 0\<rparr>\<rparr>"

definition demo_state :: svcmgr where
  "demo_state = demo_start\<lparr>pmem := demo_mem, blocks := [(0x100000, 30)],
     globals := (globals demo_start)\<lparr>svclist := 0x100000\<rparr>\<rparr>"

definition demo_service :: svc where
  "demo_service = \<lparr>svc_at = 0x100000, svc_name = [0x68, 0x69], svc_handle = 7, svc_isolated = 0\<rparr>"

lemma demo_starting: "starting demo_start"
  by (simp add: starting_def demo_start_def)

lemma demo_registry: "registry 0x9100 (srv_shared demo) [demo_service] demo_state"
proof -
  have "svc_node (demo_mem) 0x9100 demo_service"
    "si_next (demo_mem) 0x100000 = NULL"
    by code_simp+
  then show ?thesis
    by (auto simp: registry_def demo_state_def demo_start_def svc_shape_def svc_size_def
        sizeof_svcinfo_def demo_service_def demo_def in_region no_wrap_def)
qed

definition demo_msg :: "addr \<Rightarrow> binder_io" where
  "demo_msg txn = msg_for demo_image txn demo_state"

definition demo_rest :: "addr \<Rightarrow> u32 \<Rightarrow> addr \<Rightarrow> u32 \<Rightarrow> binder_io" where
  "demo_rest buf n offs k = \<lparr>io_data = buf + 64, io_offs = offs, io_data_avail = n, io_offs_avail = k,
     io_data0 = buf, io_offs0 = offs, io_flags = 1, io_unused = 0\<rparr>"

lemma svcmgr_id_values [code]:
  "svcmgr_id =
    [97, 110, 100, 114, 111, 105, 100, 46, 111, 115, 46, 73, 83, 101, 114, 118, 105, 99, 101,
     77, 97, 110, 97, 103, 101, 114]"
  by (simp add: svcmgr_id_def of_char_def)

abbreviation "demo_find_rest \<equiv> demo_rest 0x80000 12 0 0"
abbreviation "demo_add_rest \<equiv> demo_rest 0x80100 32 0x80200 1"
abbreviation "demo_list_rest \<equiv> demo_rest 0x80300 4 0 0"

lemma demo_find_header: "after_interface (pmem demo_state) (demo_msg 0x1004) = Some demo_find_rest"
  by code_simp

lemma demo_add_header: "after_interface (pmem demo_state) (demo_msg 0x1030) = Some demo_add_rest"
  by code_simp

lemma demo_list_header: "after_interface (pmem demo_state) (demo_msg 0x1058) = Some demo_list_rest"
  by code_simp

lemma demo_codes:
  "txn_code (load_txn (pmem demo_state) 0x1004) = SVC_MGR_CHECK_SERVICE"
  "txn_code (load_txn (pmem demo_state) 0x1030) = SVC_MGR_ADD_SERVICE"
  "txn_code (load_txn (pmem demo_state) 0x1058) = SVC_MGR_LIST_SERVICES"
  "txn_target (load_txn (pmem demo_state) 0x1004) = 0"
  "txn_target (load_txn (pmem demo_state) 0x1030) = 0"
  "txn_target (load_txn (pmem demo_state) 0x1058) = 0"
  "txn_sender_euid (load_txn (pmem demo_state) 0x1004) = 1000"
  by code_simp+

lemma demo_requests:
  "is_request demo_state 0x1004 (demo_msg 0x1004) demo_find_rest"
  "is_request demo_state 0x1030 (demo_msg 0x1030) demo_add_rest"
  "is_request demo_state 0x1058 (demo_msg 0x1058) demo_list_rest"
  by (simp_all add: is_request_def demo_find_header demo_add_header demo_list_header demo_codes svc_mgr_codes ping_code)
    (simp_all add: demo_state_def demo_start_def)

lemma demo_strings:
  "fst (bio_get_string16 (pmem demo_state) demo_find_rest) = 0x80044"
  "fst (snd (bio_get_string16 (pmem demo_state) demo_find_rest)) = 2"
  "load_u16s (pmem demo_state) 0x80044 2 = [0x68, 0x69]"
  "fst (bio_get_string16 (pmem demo_state) demo_add_rest) = 0x80144"
  "fst (snd (bio_get_string16 (pmem demo_state) demo_add_rest)) = 2"
  "load_u16s (pmem demo_state) 0x80144 2 = [0x79, 0x6F]"
  "fst (bio_get_uint32 (pmem demo_state) demo_list_rest) = 0"
  by code_simp+

lemma demo_object:
  "fst (bio_get_ref (pmem demo_state) (snd (snd (bio_get_string16 (pmem demo_state) demo_add_rest)))) = 9"
  by code_simp

lemma demo_room: "reply_room (srv_shared demo) {} (reply_for demo_image)"
  using reply_for_apart [of demo] demo_setup by (auto simp: svcmgr_setup_def reply_room_def demo_def)

lemma demo_env:
  "malloc_ok demo_image (srv_shared demo)" "honest_kernel demo_image (srv_area demo)"
  "srv_area demo \<subseteq> srv_shared demo"
  using demo_setup by (auto simp: svcmgr_setup_def laid_out_def demo_def Let_def)

subsection \<open>Properties\<close>

text \<open>C1: the service manager keeps its registry for as long as it runs. From its initial state,
  against any kernel that keeps to the protocol and any \<open>malloc\<close>, whatever transactions its
  clients send and whenever their processes die, \<open>main\<close> never jumps into nowhere nor loops
  without reading, and in every state in which it waits for the driver or returns, the list
  is well-formed: nodes are disjoint allocated blocks with terminated names of 1 to 127 units,
  no name occurs twice, and every death notification it has asked for names a node.\<close>
theorem svcmgr_main_keeps_registry:
  assumes "svcmgr_setup srv" and "starting p"
  shows "wp (svcmgr_main (srv_image srv) (srv_func srv) p)
    (\<lambda>_ p'. \<exists>ss. registry (srv_death srv) (srv_shared srv) ss p')
    (\<lambda>p'. \<exists>ss. registry (srv_death srv) (srv_shared srv) ss p')"
proof -
  let ?im = "srv_image srv"
  have serve: "wp (binder_loop ?im bs (srv_func srv) (q\<lparr>globals := (globals q)\<lparr>svcmgr_handle := BINDER_SERVICE_MANAGER\<rparr>\<rparr>))
      (\<lambda>_. svcmgr_inv srv) (svcmgr_inv srv)" if "starting q" for bs q
    unfolding binder_loop_def using that
    by (intro svcmgr.loop_keeps [OF assms(1)] starting_registry) (simp add: starting_def)
  have mgr: "wp (binder_become_context_manager ?im bs q) (\<lambda>_. starting) starting" if "starting q" for bs q
    unfolding binder_become_context_manager_def wp_and_then wp_returns
    using syscall_starting [OF that] by simp
  have "wp (svcmgr_main ?im (srv_func srv) p) (\<lambda>_. svcmgr_inv srv) (svcmgr_inv srv)"
    unfolding svcmgr_main_def wp_and_then
    by (rule wp_mono [OF binder_open_starting [OF assms(2)]])
      (auto simp: starting_registry split: option.split intro!: wp_mono [OF mgr] intro: serve)
  then show ?thesis by (rule wp_mono) (auto simp: svcmgr_inv_def)
qed

theorem svcmgr_main_keeps_registry_witness:
  "wp (svcmgr_main demo_image 0x9000 demo_start)
    (\<lambda>_ p'. \<exists>ss. registry 0x9100 (srv_shared demo) ss p')
    (\<lambda>p'. \<exists>ss. registry 0x9100 (srv_shared demo) ss p')"
  using svcmgr_main_keeps_registry [OF demo_setup demo_starting] by (simp add: demo_def)

text \<open>C6: a lookup answers with what the registry says: status 0, and the reply holds a reference
  to the handle registered under exactly the requested name, or the integer 0 if there is none,
  its process has died, or the caller is isolated and the service does not allow that.\<close>
theorem svcmgr_lookup_reply:
  assumes "registry fn S ss p" and "is_request p txn msg msg1"
    and "txn_code (load_txn (pmem p) txn) \<in> {SVC_MGR_GET_SERVICE, SVC_MGR_CHECK_SERVICE}"
    and "bio_get_string16 (pmem p) msg1 = (s, len, msg2)" and "s \<noteq> NULL"
  shows "svcmgr_handler im fn bs txn msg reply p =
    (let (reply', m') = put_handle (visible ss (load_u16s (pmem p) s (unat len))
           (txn_sender_euid (load_txn (pmem p) txn))) (reply, pmem p)
     in returns (0, msg2, reply') ((call_str8 s len p)\<lparr>pmem := m'\<rparr>))"
  by (cases "put_handle (visible ss (load_u16s (pmem p) s (unat len))
      (txn_sender_euid (load_txn (pmem p) txn))) (reply, pmem p)")
    (simp add: handler_find [OF assms])

theorem svcmgr_lookup_reply_witness:
  "\<exists>msg2 reply' m'. bio_put_ref 7 (reply_for demo_image, pmem demo_state) = (reply', m') \<and>
     svcmgr_handler demo_image 0x9100 example_bs 0x1004 (demo_msg 0x1004) (reply_for demo_image) demo_state =
       returns (0, msg2, reply') ((call_str8 0x80044 2 demo_state)\<lparr>pmem := m'\<rparr>)"
proof -
  obtain msg2 where str: "bio_get_string16 (pmem demo_state) demo_find_rest = (0x80044, 2, msg2)"
    using demo_strings by (metis prod.collapse)
  have code: "txn_code (load_txn (pmem demo_state) 0x1004) \<in> {SVC_MGR_GET_SERVICE, SVC_MGR_CHECK_SERVICE}"
    using demo_codes(1) by simp
  have "visible [demo_service] (load_u16s (pmem demo_state) 0x80044 (unat (2 :: u32))) 1000 = 7"
    by (simp add: demo_strings(3) visible_def reg_find_def demo_service_def is_isolated_def)
  then have "svcmgr_handler demo_image 0x9100 example_bs 0x1004 (demo_msg 0x1004) (reply_for demo_image) demo_state =
      (let (reply', m') = bio_put_ref 7 (reply_for demo_image, pmem demo_state)
       in returns (0, msg2, reply') ((call_str8 0x80044 2 demo_state)\<lparr>pmem := m'\<rparr>))"
    using svcmgr_lookup_reply [OF demo_registry demo_requests(1) code str]
    by (simp only: demo_codes(7) put_handle_def) simp
  then show ?thesis by (cases "bio_put_ref 7 (reply_for demo_image, pmem demo_state)") (simp, blast)
qed

lemma add_request_adds:
  assumes "registry fn S ss p" and "is_request p txn msg msg1"
    and "txn_code (load_txn (pmem p) txn) = SVC_MGR_ADD_SERVICE"
    and "bio_get_string16 (pmem p) msg1 = (s, len, msg2)" and "s \<noteq> NULL"
    and "bio_get_ref (pmem p) msg2 = (handle, msg3)" and "bio_get_uint32 (pmem p) msg3 = (n, msg4)"
    and "msg_in S msg" and "reply_room S {} reply"
    and "malloc_ok im S" and "honest_kernel im area" and "area \<subseteq> S"
  shows "wp (svcmgr_handler im fn bs txn msg reply p)
    (\<lambda>(res, _, _) p'. \<exists>ss'. registry fn S ss' p' \<and>
       add_result (svc_block im (load_u16s (pmem p) s (unat len)) p) ss (load_u16s (pmem p) s (unat len))
         handle (if n \<noteq> 0 then 1 else 0) = (res, ss') \<and>
       (res = 0 \<longrightarrow> (\<forall>uid. \<not> is_isolated uid \<longrightarrow>
          visible ss' (load_u16s (pmem p) s (unat len)) uid = handle) \<and>
        (\<forall>name uid. name \<noteq> load_u16s (pmem p) s (unat len) \<longrightarrow>
          visible ss' name uid = visible ss name uid)))
    (\<lambda>p'. \<exists>ss'. registry fn S ss' p')"
proof -
  let ?name = "load_u16s (pmem p) s (unat len)"
  show ?thesis
    unfolding handler_add [OF assms(2-7)] wp_and_then
  proof (rule wp_mono [OF do_add_service_wp [OF assms(1,10-12), of "{}"]], goal_cases)
    case 3
    then show ?case by (rule string16_in [OF request_in [OF assms(2,8)] assms(4,5)])
  next
    case (4 res p')
    then obtain ss' where q: "registry fn S ss' p'"
      "add_result (svc_block im ?name p) ss ?name handle (if n \<noteq> 0 then 1 else 0) = (res, ss')"
      by blast
    show ?case
    proof (cases "bio_put_uint32 0 (reply, pmem p')")
      case (Pair reply' m')
      have "registry fn S ss' (p'\<lparr>pmem := m'\<rparr>)" by (rule reply_put_uint32(1) [OF q(1) assms(9) Pair])
      moreover have "res = 0 \<or> res = -1" using q(2) by (auto simp: add_result_def split: if_splits)
      moreover have "res = 0 \<longrightarrow> (\<forall>uid. \<not> is_isolated uid \<longrightarrow> visible ss' ?name uid = handle) \<and>
          (\<forall>name uid. name \<noteq> ?name \<longrightarrow> visible ss' name uid = visible ss name uid)"
        using q(2) added_visible by blast
      ultimately show ?thesis
        by (cases "res = 0") (use q in \<open>auto simp: Pair\<close>)
    qed
  qed auto
qed

text \<open>C5: adding a service. The handler's answer and the registry it leaves are exactly those of
  \<open>add_result\<close>: -1 and no change for a null handle, an empty name or one longer than 127 units; a
  known name gets the new handle; a new name gets an entry at the head of the list, in the block
  \<open>malloc\<close> gives, and is refused only when \<open>malloc\<close> gives NULL. After a success every caller that is
  not isolated sees the new handle under the name, and no other name is affected.\<close>
theorem svcmgr_add_service:
  assumes "registry fn S ss p" and "is_request p txn msg msg1"
    and "txn_code (load_txn (pmem p) txn) = SVC_MGR_ADD_SERVICE"
    and "bio_get_string16 (pmem p) msg1 = (s, len, msg2)" and "s \<noteq> NULL"
    and "bio_get_ref (pmem p) msg2 = (handle, msg3)" and "bio_get_uint32 (pmem p) msg3 = (n, msg4)"
    and "msg_in S msg" and "reply_room S {} reply"
    and "malloc_ok im S" and "honest_kernel im area" and "area \<subseteq> S"
  shows "wp (svcmgr_handler im fn bs txn msg reply p)
    (\<lambda>(res, _, _) p'. \<exists>ss'. registry fn S ss' p' \<and>
       add_result (svc_block im (load_u16s (pmem p) s (unat len)) p) ss (load_u16s (pmem p) s (unat len))
         handle (if n \<noteq> 0 then 1 else 0) = (res, ss') \<and>
       (res = 0 \<longrightarrow> (\<forall>uid. \<not> is_isolated uid \<longrightarrow>
          visible ss' (load_u16s (pmem p) s (unat len)) uid = handle) \<and>
        (\<forall>name uid. name \<noteq> load_u16s (pmem p) s (unat len) \<longrightarrow>
          visible ss' name uid = visible ss name uid)))
    (\<lambda>p'. \<exists>ss'. registry fn S ss' p')"
  using assms by (rule add_request_adds)

lemma demo_block: "svc_block demo_image [0x79, 0x6F] demo_state \<noteq> NULL"
  by (simp add: svc_block_def malloc_def Let_def demo_image_def svcmgr_linked_def page_alloc_def demo_state_def
      sizeof_svcinfo_def)

theorem svcmgr_add_service_witness:
  "wp (svcmgr_handler demo_image 0x9100 example_bs 0x1030 (demo_msg 0x1030) (reply_for demo_image) demo_state)
    (\<lambda>(res, _, _) p'. \<exists>ss'. registry 0x9100 (srv_shared demo) ss' p' \<and>
       res = 0 \<and> visible ss' [0x79, 0x6F] 1000 = 9 \<and> visible ss' [0x68, 0x69] 1000 = 7)
    (\<lambda>p'. \<exists>ss'. registry 0x9100 (srv_shared demo) ss' p')"
proof -
  obtain msg2 where str: "bio_get_string16 (pmem demo_state) demo_add_rest = (0x80144, 2, msg2)"
    using demo_strings by (metis prod.collapse)
  obtain msg3 where ref: "bio_get_ref (pmem demo_state) msg2 = (9, msg3)"
    using demo_object str by (metis prod.collapse snd_conv)
  obtain n msg4 where n: "bio_get_uint32 (pmem demo_state) msg3 = (n, msg4)" by fastforce
  have "txn_in (srv_area demo) (load_txn (pmem demo_state) 0x1030)"
  proof -
    have "txn_buffer (load_txn (pmem demo_state) 0x1030) = 0x80100"
      "txn_data_size (load_txn (pmem demo_state) 0x1030) = 96" by code_simp+
    then show ?thesis by (auto simp: txn_in_def demo_def in_region)
  qed
  then have msg: "msg_in (srv_shared demo) (demo_msg 0x1030)"
    unfolding demo_msg_def by (rule msg_for_in) (rule demo_env)
  have see: "visible [demo_service] [0x68, 0x69] 1000 = 7" "\<not> is_isolated 1000"
    by (simp_all add: visible_def reg_find_def demo_service_def is_isolated_def)
  have new: "fst (add_result (svc_block demo_image [0x79, 0x6F] demo_state) [demo_service] [0x79, 0x6F] 9 i) = 0" for i
    using demo_block by (simp add: add_result_def reg_find_def demo_service_def)
  have res: "add_result (svc_block demo_image [0x79, 0x6F] demo_state) [demo_service] [0x79, 0x6F] 9 i = (res, ss') \<Longrightarrow>
      res = 0" for i res ss'
    using new [of i] by simp
  then show ?thesis
    using see by (intro wp_mono [OF svcmgr_add_service [OF demo_registry demo_requests(2) demo_codes(2) str _ ref n
            msg demo_room demo_env]])
      (auto simp: demo_strings(6) dest: res)
qed

text \<open>C18: everything else is refused: a transaction for another target, one without the service
  manager's interface header, one whose name is missing, or one with an unknown code is answered
  with -1 at once, a ping with 0, and the registry is as before.\<close>
theorem svcmgr_refuses:
  assumes "\<And>msg1. is_request p txn msg msg1 \<Longrightarrow>
      txn_code (load_txn (pmem p) txn) \<notin> {1, 2, 3, 4} \<or>
      txn_code (load_txn (pmem p) txn) \<in> {1, 2, 3} \<and> fst (bio_get_string16 (pmem p) msg1) = NULL"
    and "registry fn S ss p"
  shows "\<exists>msg' p'. svcmgr_handler im fn bs txn msg reply p =
      returns (if txn_target (load_txn (pmem p) txn) = svcmgr_handle (globals p) \<and>
          txn_code (load_txn (pmem p) txn) = PING_TRANSACTION then 0 else -1, msg', reply) p' \<and>
    pmem p' = pmem p \<and> requests p' = requests p \<and> registry fn S ss p'"
proof -
  obtain res msg' q where h: "svcmgr_handler im fn bs txn msg reply p = returns (res, msg', reply) q"
    and q: "q = p \<or> (\<exists>x n. q = call_str8 x n p)"
    and res: "res = (if txn_target (load_txn (pmem p) txn) = svcmgr_handle (globals p) \<and>
              txn_code (load_txn (pmem p) txn) = PING_TRANSACTION then 0 else -1)"
    using handler_other [where im = im and fn = fn and bs = bs and reply = reply, OF assms(1)] by blast
  have "pmem q = pmem p \<and> requests q = requests p \<and> registry fn S ss q"
    using q assms(2) by auto
  with h res show ?thesis by blast
qed

theorem svcmgr_refuses_witness:
  "\<exists>msg' p'. svcmgr_handler demo_image 0x9100 example_bs 0x2000 (demo_msg 0x2000) (reply_for demo_image) demo_state =
     returns (-1, msg', reply_for demo_image) p' \<and> registry 0x9100 (srv_shared demo) [demo_service] p'"
proof -
  have "txn_code (load_txn (pmem demo_state) 0x2000) = 0" by code_simp
  then show ?thesis
    using svcmgr_refuses [of demo_state "0x2000" "demo_msg 0x2000", OF _ demo_registry,
        of demo_image example_bs "reply_for demo_image"]
    by (auto simp: ping_code)
qed

text \<open>C16: when the process of a service dies, its name stays in the list but clients no longer find
  it: the handle is released to the driver if it was held, and every lookup of the name gives
  0, until it is registered again. Other names are not affected.\<close>
theorem svcinfo_death_withdraws:
  assumes "registry fn S ss p" and "t \<in> set ss" and "honest_kernel im area" and "area \<subseteq> S"
  shows "wp (svcinfo_death im bs (svc_at t) p)
    (\<lambda>_ p'. \<exists>ss'. registry fn S ss' p' \<and> map svc_name ss' = map svc_name ss \<and>
       (\<forall>uid. visible ss' (svc_name t) uid = 0) \<and>
       (\<forall>name uid. name \<noteq> svc_name t \<longrightarrow> visible ss' name uid = visible ss name uid))
    (registry fn S ss)"
proof (rule wp_mono [OF svcinfo_death_wp [OF assms, of "{}"]], goal_cases)
  case (3 v p')
  then have "registry fn S (reg_set ss (svc_name t) 0) p'" by simp
  then show ?case
    by (intro exI [of _ "reg_set ss (svc_name t) 0"]) (auto simp: visible_set split: option.splits)
qed auto

theorem svcinfo_death_withdraws_witness:
  "wp (svcinfo_death demo_image example_bs 0x100000 demo_state)
    (\<lambda>_ p'. \<exists>ss'. registry 0x9100 (srv_shared demo) ss' p' \<and> (\<forall>uid. visible ss' [0x68, 0x69] uid = 0))
    (registry 0x9100 (srv_shared demo) [demo_service])"
  using svcinfo_death_withdraws [OF demo_registry _ demo_env(2,3), of demo_service example_bs]
  by (auto simp: demo_service_def elim!: wp_mono)

text \<open>\<open>str8\<close> converts what is printable of a name: its static buffer then starts with the low
  bytes of the units up to the first zero, at most 127 of them, followed by a terminating zero
  that is always inside the 128 bytes.\<close>
theorem str8_converts:
  assumes "length buf = 128" and "x \<noteq> NULL"
    and "us = takeWhile (\<lambda>c. c \<noteq> 0) (load_u16s m x (min 127 (unat n)))"
  shows "length us \<le> 127 \<and> length (str8 m x n buf) = 128 \<and>
    take (Suc (length us)) (str8 m x n buf) = map ucast us @ [0]"
proof -
  have room: "unat (if n < 127 then n else 127) = min 127 (unat n)"
    by (auto simp: word_less_nat_alt)
  have us: "length us \<le> 127"
    using length_takeWhile_le [of "\<lambda>c. c \<noteq> 0" "load_u16s m x (min 127 (unat n))"] assms(3) by simp
  have "str8_loop m x (min 127 (unat n)) 0 buf = (length us, map ucast us @ drop (length us) buf)"
    using str8_loop_result [of 0 "min 127 (unat n)" buf m x] assms by (simp add: Let_def)
  then have "str8 m x n buf = (map ucast us @ drop (length us) buf)[length us := 0]"
    using assms(2) by (simp add: str8_def Let_def room)
  moreover have "drop (length us) buf \<noteq> []" using us assms(1) by simp
  then obtain b rest where "drop (length us) buf = b # rest" by (cases "drop (length us) buf") auto
  ultimately have "str8 m x n buf = map ucast us @ 0 # rest"
    by (simp add: list_update_append)
  with us assms(1) show ?thesis by (metis length_str8 append.assoc append_Cons append_Nil
        append_eq_conv_conj length_append_singleton length_map)
qed

theorem str8_converts_witness:
  "take 3 (str8 demo_mem 0x80044 2 (replicate 128 0xFF)) = [0x68, 0x69, 0]"
proof -
  have "load_u16s demo_mem 0x80044 2 = [0x68, 0x69]"
    using demo_strings(3) by (simp add: demo_state_def)
  then show ?thesis
    using str8_converts [of "replicate 128 0xFF" "0x80044" "[0x68, 0x69]" demo_mem 2]
    by (simp add: numeral_3_eq_3)
qed

text \<open>\<open>str16eq\<close> compares a 16-bit string with a byte string: on terminated strings it returns,
  and returns 1 exactly if they have the same characters.\<close>
theorem str16eq_correct:
  assumes "cstr16 m a us" and "cstr m b cs"
  shows "str16eq m a b = Some (if us = map ucast cs then 1 else 0)"
  using assms
proof (induction us arbitrary: a b cs)
  case Nil
  then show ?case by (cases cs) (auto simp: str16eq.simps [of m a b])
next
  case (Cons u us)
  show ?case
  proof (cases cs)
    case Nil
    with Cons.prems show ?thesis by (subst str16eq.simps) simp
  next
    case (Cons c cs')
    with Cons.prems Cons.IH [of "a + 2" "b + 1" cs'] show ?thesis
      by (subst str16eq.simps) auto
  qed
qed

theorem str16eq_correct_witness:
  "str16eq (store_bytes (\<lambda>_. 0) 0x100 [0x68, 0, 0x69, 0, 0, 0, 0x68, 0x69, 0]) 0x100 0x106 = Some 1"
  by (subst str16eq_correct [of _ _ "[0x68, 0x69]" _ "[0x68, 0x69]"])
    (simp_all add: load16_def un16_def)

end
