(* ===== verification/Svcmgr_Runs.thy ===== *)
theory Svcmgr_Runs
  imports Svcmgr
begin

text \<open>
  The service manager over time, as its clients see it: whatever transactions it has handled and
  whatever services have died, a lookup answers the handle of the last successful registration
  of the name, or 0 if the service has died since or was never registered. The locale
  \<open>name_service\<close> is this contract for one event; a run follows by induction inside it.
\<close>

subsection \<open>The contract\<close>

text \<open>What can happen to a name.\<close>

datatype svc_event =
    Registered "u16 list" u32
  | Buried "u16 list"
  | Quiet

text \<open>The table of names and handles, with 0 for none, and what an event does to it.\<close>

type_synonym names = "u16 list \<Rightarrow> u32"

fun event_names :: "svc_event \<Rightarrow> names \<Rightarrow> names" where
  "event_names (Registered name h) f = f(name := h)"
| "event_names (Buried name) f = f(name := 0)"
| "event_names Quiet f = f"

primrec run_events :: "('p \<Rightarrow> svc_event \<Rightarrow> 'p \<Rightarrow> bool) \<Rightarrow> 'p \<Rightarrow> svc_event list \<Rightarrow> 'p \<Rightarrow> bool" where
  "run_events does p [] q \<longleftrightarrow> q = p"
| "run_events does p (e # es) q \<longleftrightarrow> (\<exists>r. does p e r \<and> run_events does r es q)"

text \<open>The last registration of a name, \<open>h\<close> if there is none.\<close>

fun last_handle :: "u16 list \<Rightarrow> svc_event list \<Rightarrow> u32 \<Rightarrow> u32" where
  "last_handle name [] h = h"
| "last_handle name (Registered name' h' # es) h = last_handle name es (if name' = name then h' else h)"
| "last_handle name (Buried name' # es) h = last_handle name es (if name' = name then 0 else h)"
| "last_handle name (Quiet # es) h = last_handle name es h"

locale name_service =
  fixes good :: "'c \<Rightarrow> bool"
    and shows_names :: "'c \<Rightarrow> names \<Rightarrow> 'p \<Rightarrow> bool"
    and does :: "'c \<Rightarrow> 'p \<Rightarrow> svc_event \<Rightarrow> 'p \<Rightarrow> bool"
  assumes event: "good c \<Longrightarrow> shows_names c f p \<Longrightarrow> does c p e q \<Longrightarrow> shows_names c (event_names e f) q"
begin

lemma run:
  assumes "good c" and "shows_names c f p" and "run_events (does c) p es q"
  shows "\<exists>g. shows_names c g q \<and> (\<forall>name. g name = last_handle name es (f name))"
  using assms
proof (induction es arbitrary: f p)
  case (Cons e es)
  then obtain r where r: "does c p e r" "run_events (does c) r es q" by auto
  from Cons.IH [OF Cons.prems(1) event [OF Cons.prems(1,2) r(1)] r(2)] show ?case
    by (cases e) (auto simp: fun_upd_def)
qed auto

end

subsection \<open>The service manager's events\<close>

text \<open>What a handled transaction was: a registration that was answered with 0, or nothing that
  changes the names.\<close>

definition txn_event :: "svcmgr_globals image \<Rightarrow> svcmgr \<Rightarrow> addr \<Rightarrow> int \<Rightarrow> svc_event" where
  "txn_event im p txn res =
     (let t = load_txn (pmem p) txn in
      case after_interface (pmem p) (msg_for im txn p) of
        None \<Rightarrow> Quiet
      | Some msg \<Rightarrow>
          let (s, len, msg) = bio_get_string16 (pmem p) msg;
              (handle, msg) = bio_get_ref (pmem p) msg
          in if txn_target t = svcmgr_handle (globals p) \<and> txn_code t = SVC_MGR_ADD_SERVICE \<and>
               s \<noteq> NULL \<and> res = 0
             then Registered (load_u16s (pmem p) s (unat len)) handle else Quiet)"

text \<open>The name of the service that the death notification \<open>d\<close> is about.\<close>

definition dead_name :: "svcmgr \<Rightarrow> addr \<Rightarrow> u16 list" where
  "dead_name p d =
     (let si = load32 (pmem p) (d + 4)
      in load_u16s (pmem p) (si_name si) (unat (si_len (pmem p) si)))"

text \<open>One event in the life of the server: the kernel writes to the memory it shares with the
  process, a transaction is handled, or a death notification is.\<close>

inductive svcmgr_does :: "svcmgr_globals server \<Rightarrow> svcmgr \<Rightarrow> svc_event \<Rightarrow> svcmgr \<Rightarrow> bool" for srv where
  kernel: "env_step (srv_shared srv) p q \<Longrightarrow> death_cookies (requests q) = death_cookies (requests p) \<Longrightarrow>
    svcmgr_does srv p Quiet q"
| handled: "txn_in (srv_area srv) (load_txn (pmem p) txn) \<Longrightarrow>
    svcmgr_handler (srv_image srv) (srv_death srv) bs txn (msg_for (srv_image srv) txn p)
      (reply_for (srv_image srv)) p = returns (res, msg, reply) q \<Longrightarrow>
    svcmgr_does srv p (txn_event (srv_image srv) p txn res) q"
| died: "d \<in> set (death_cookies (requests p)) \<Longrightarrow>
    parse_dead_binder (srv_image srv) bs d p = returns () q \<Longrightarrow>
    svcmgr_does srv p (Buried (dead_name p d)) q"

inductive_cases svcmgr_does_cases [consumes 1, case_names kernel handled died]: "svcmgr_does srv p e q"

text \<open>The registry shows these names to everyone who is not isolated.\<close>

definition svcmgr_shows :: "svcmgr_globals server \<Rightarrow> names \<Rightarrow> svcmgr \<Rightarrow> bool" where
  "svcmgr_shows srv f p \<longleftrightarrow>
     (\<exists>ss. registry (srv_death srv) (srv_shared srv) ss p \<and>
        (\<forall>name uid. \<not> is_isolated uid \<longrightarrow> visible ss name uid = f name))"

lemma shows_kernel:
  assumes "svcmgr_shows srv f p" and "env_step (srv_shared srv) p q"
    and "death_cookies (requests q) = death_cookies (requests p)"
  shows "svcmgr_shows srv f q"
proof -
  have "registry fn (srv_shared srv) ss q" if r: "registry fn (srv_shared srv) ss p" for fn ss
    by (rule registry_stable [OF r]) (use assms r in \<open>auto simp: env_step_def registry_def\<close>)
  with assms(1) show ?thesis unfolding svcmgr_shows_def by blast
qed

lemma setup_env:
  assumes "svcmgr_setup srv"
  shows "malloc_ok (srv_image srv) (srv_shared srv)" and "honest_kernel (srv_image srv) (srv_area srv)"
    and "srv_area srv \<subseteq> srv_shared srv" and "reply_room (srv_shared srv) {} (reply_for (srv_image srv))"
  using assms reply_for_apart [of srv]
  by (auto simp: svcmgr_setup_def laid_out_def reply_room_def Let_def)

lemma wp_returns_value: "m = returns v q \<Longrightarrow> wp m Q B \<Longrightarrow> Q v q"
  by simp

lemma shows_died:
  assumes "svcmgr_setup srv" and "svcmgr_shows srv f p" and "d \<in> set (death_cookies (requests p))"
    and "parse_dead_binder (srv_image srv) bs d p = returns () q"
  shows "svcmgr_shows srv (f(dead_name p d := 0)) q"
proof -
  note e = setup_env [OF assms(1)]
  obtain ss where reg: "registry (srv_death srv) (srv_shared srv) ss p"
    and f: "\<And>name uid. \<not> is_isolated uid \<Longrightarrow> visible ss name uid = f name"
    using assms(2) by (auto simp: svcmgr_shows_def)
  with assms(3) obtain t where t: "t \<in> set ss" "d = si_death (svc_at t)" by (auto simp: registry_def)
  note n = registry_node [OF reg t(1)]
  have "svc_size t \<le> 4294967296" using n(5) by (simp add: svc_shape_def no_wrap_def)
  then have "length (svc_name t) < 4294967296" by (simp add: svc_size_def)
  with n(4,6) have name: "dead_name p d = svc_name t"
    using load_u16s_butlast [of "pmem p" "si_name (svc_at t)" "svc_name t" 0]
    by (simp add: dead_name_def t(2) svc_node_def Let_def unat_of_nat_small)
  have "parse_dead_binder (srv_image srv) bs d p = svcinfo_death (srv_image srv) bs (svc_at t) p"
    using n(3,4) assms(1) by (simp add: parse_dead_binder_def t(2) svcmgr_setup_def)
  with assms(4) have "svcinfo_death (srv_image srv) bs (svc_at t) p = returns () q" by simp
  from wp_returns_value [OF this svcinfo_death_wp [OF reg t(1) e(2,3), of "{}"]]
  have "registry (srv_death srv) (srv_shared srv) (reg_set ss (svc_name t) 0) q" by simp
  then show ?thesis
    unfolding svcmgr_shows_def name using f
    by (intro exI [of _ "reg_set ss (svc_name t) 0"]) (auto simp: visible_set split: option.splits)
qed

text \<open>A handled transaction, by the cases of the handler.\<close>

lemma shows_registry:
  "registry (srv_death srv) (srv_shared srv) ss q \<Longrightarrow>
     (\<And>name uid. \<not> is_isolated uid \<Longrightarrow> visible ss name uid = f name) \<Longrightarrow> svcmgr_shows srv f q"
  unfolding svcmgr_shows_def by blast

lemma txn_event_quiet:
  assumes "\<And>msg1. is_request p txn (msg_for im txn p) msg1 \<Longrightarrow> txn_code (load_txn (pmem p) txn) \<noteq> SVC_MGR_ADD_SERVICE \<or>
    fst (bio_get_string16 (pmem p) msg1) = NULL"
  shows "txn_event im p txn res = Quiet"
proof (cases "after_interface (pmem p) (msg_for im txn p)")
  case (Some msg1)
  show ?thesis
  proof (cases "is_request p txn (msg_for im txn p) msg1")
    case True
    with assms [OF True] Some show ?thesis by (auto simp: txn_event_def Let_def split: prod.splits)
  next
    case False
    with Some have "txn_target (load_txn (pmem p) txn) \<noteq> svcmgr_handle (globals p) \<or>
        txn_code (load_txn (pmem p) txn) \<noteq> SVC_MGR_ADD_SERVICE"
      by (auto simp: is_request_def ping_code svc_mgr_codes)
    with Some show ?thesis by (auto simp: txn_event_def Let_def split: prod.splits)
  qed
qed (simp add: txn_event_def Let_def)

lemma shows_handled:
  assumes srv: "svcmgr_setup srv" and sh: "svcmgr_shows srv f p"
    and t: "txn_in (srv_area srv) (load_txn (pmem p) txn)"
    and h: "svcmgr_handler (srv_image srv) (srv_death srv) bs txn (msg_for (srv_image srv) txn p)
      (reply_for (srv_image srv)) p = returns (res, msg, reply) q"
  shows "svcmgr_shows srv (event_names (txn_event (srv_image srv) p txn res) f) q"
proof -
  let ?im = "srv_image srv" and ?t = "load_txn (pmem p) txn" and ?msg = "msg_for (srv_image srv) txn p"
  let ?reg = "registry (srv_death srv) (srv_shared srv)"
  note e = setup_env [OF srv]
  note min = msg_for_in [OF t e(3), of ?im]
  obtain ss where reg: "?reg ss p" and f: "\<And>name uid. \<not> is_isolated uid \<Longrightarrow> visible ss name uid = f name"
    using sh by (auto simp: svcmgr_shows_def)
  let ?other = "\<forall>msg1. is_request p txn ?msg msg1 \<longrightarrow> txn_code ?t \<notin> {1, 2, 3, 4} \<or>
      txn_code ?t \<in> {1, 2, 3} \<and> fst (bio_get_string16 (pmem p) msg1) = NULL"
  show ?thesis
  proof (cases ?other)
    case True
    then have "txn_event ?im p txn res = Quiet"
      by (intro txn_event_quiet) (auto simp: svc_mgr_codes)
    moreover have "q = p \<or> (\<exists>x n. q = call_str8 x n p)"
      using handler_other [of p txn ?msg ?im "srv_death srv" bs "reply_for ?im"] True h by (auto simp: returns_def)
    with reg have "?reg ss q" by auto
    ultimately show ?thesis using shows_registry [OF _ f] by simp
  next
    case False
    then obtain msg1 where rq: "is_request p txn ?msg msg1" and c: "txn_code ?t \<in> {1, 2, 3, 4}"
      "txn_code ?t \<in> {1, 2, 3} \<longrightarrow> fst (bio_get_string16 (pmem p) msg1) \<noteq> NULL"
      by blast
    have only: "msg1' = msg1" if "is_request p txn ?msg msg1'" for msg1'
      using that rq by (simp add: is_request_def)
    obtain s len msg2 where nm: "bio_get_string16 (pmem p) msg1 = (s, len, msg2)"
      by (cases "bio_get_string16 (pmem p) msg1") auto
    consider (find) "txn_code ?t \<in> {SVC_MGR_GET_SERVICE, SVC_MGR_CHECK_SERVICE}" "s \<noteq> NULL"
      | (add) "txn_code ?t = SVC_MGR_ADD_SERVICE" "s \<noteq> NULL"
      | (list_) "txn_code ?t = SVC_MGR_LIST_SERVICES"
      using c nm by (auto simp: svc_mgr_codes)
    then show ?thesis
    proof cases
      case find
      let ?h = "visible ss (load_u16s (pmem p) s (unat len)) (txn_sender_euid ?t)"
      obtain reply' m' where put: "put_handle ?h (reply_for ?im, pmem p) = (reply', m')" by fastforce
      have "?reg ss (p\<lparr>pmem := m'\<rparr>)"
        using put reply_put_uint32(1) [OF reg e(4)] reply_put_ref(1) [OF reg e(4)]
        by (auto simp: put_handle_def split: if_splits)
      moreover have "q = (call_str8 s len p)\<lparr>pmem := m'\<rparr>"
        using handler_find [OF reg rq find(1) nm find(2) put] h by (simp add: returns_def)
      ultimately have "?reg ss q" by (auto simp: registry_def)
      moreover have "txn_event ?im p txn res = Quiet"
        using find(1) by (intro txn_event_quiet) (auto simp: svc_mgr_codes)
      ultimately show ?thesis using shows_registry [OF _ f] by simp
    next
      case list_
      obtain n msg2' where n: "bio_get_uint32 (pmem p) msg1 = (n, msg2')" by fastforce
      have "?reg ss q"
      proof (cases "unat n < length ss")
        case True
        then have "ss ! unat n \<in> set ss" by simp
        then obtain reply' m' where r: "bio_put_string16 (si_name (svc_at (ss ! unat n))) (reply_for ?im, pmem p) = Some (reply', m')"
          "?reg ss (p\<lparr>pmem := m'\<rparr>)"
          using reply_put_name [OF reg _ e(4)] by metis
        with h True show ?thesis unfolding handler_list [OF reg rq list_ n] by (simp add: returns_def)
      next
        case False
        with h reg show ?thesis unfolding handler_list [OF reg rq list_ n] by (simp add: returns_def)
      qed
      moreover have "txn_event ?im p txn res = Quiet"
        using list_ by (intro txn_event_quiet) (auto simp: svc_mgr_codes)
      ultimately show ?thesis using shows_registry [OF _ f] by simp
    next
      case add
      let ?name = "load_u16s (pmem p) s (unat len)"
      obtain handle msg3 where hd: "bio_get_ref (pmem p) msg2 = (handle, msg3)" by fastforce
      obtain n msg4 where n: "bio_get_uint32 (pmem p) msg3 = (n, msg4)" by fastforce
      from wp_returns_value [OF h add_request_adds [OF reg rq add(1) nm add(2) hd n min e(4,1-3)]]
      obtain ss' where r: "?reg ss' q" and out: "add_result (svc_block ?im ?name p) ss ?name handle (if n \<noteq> 0 then 1 else 0) = (res, ss')"
        and see: "res = 0 \<Longrightarrow> \<not> is_isolated uid \<Longrightarrow> visible ss' ?name uid = handle"
          "res = 0 \<Longrightarrow> name \<noteq> ?name \<Longrightarrow> visible ss' name uid = visible ss name uid" for name uid
        by auto
      have ev: "txn_event ?im p txn res = (if res = 0 then Registered ?name handle else Quiet)"
        using rq add nm hd by (simp add: txn_event_def is_request_def)
      show ?thesis
      proof (cases "res = 0")
        case True
        have "visible ss' name uid = (f(?name := handle)) name" if "\<not> is_isolated uid" for name uid
          using see [OF True] that f [OF that] by auto
        with r True ev show ?thesis by (simp add: shows_registry)
      next
        case False
        with out have "ss' = ss" by (auto simp: add_result_def split: if_splits)
        with r False ev f show ?thesis by (simp add: shows_registry)
      qed
    qed
  qed
qed

interpretation names: name_service svcmgr_setup svcmgr_shows svcmgr_does
proof unfold_locales
  fix srv f p e q
  assume srv: "svcmgr_setup srv" and sh: "svcmgr_shows srv f p" and "svcmgr_does srv p e q"
  from this(3) show "svcmgr_shows srv (event_names e f) q"
  proof (cases rule: svcmgr_does_cases)
    case kernel
    with shows_kernel [OF sh] show ?thesis by simp
  next
    case (handled txn bs res msg reply)
    with shows_handled [OF srv sh] show ?thesis by blast
  next
    case (died d bs)
    with shows_died [OF srv sh] show ?thesis by simp
  qed
qed

lemma starting_shows: "starting p \<Longrightarrow> svcmgr_shows srv (\<lambda>_. 0) p"
  by (auto simp: starting_def svcmgr_shows_def registry_def visible_def reg_find_def intro!: exI [of _ "[]"])

text \<open>For the example: \<open>demo_state\<close> shows "hi"; an empty transaction, at 0x2000, is refused.\<close>

definition demo_names :: names where
  "demo_names = (\<lambda>_. 0)([0x68, 0x69] := 7)"

lemma demo_shows: "svcmgr_shows demo demo_names demo_state"
proof -
  have "visible [demo_service] name uid = demo_names name" if "\<not> is_isolated uid" for name uid
    using that by (auto simp: visible_def reg_find_def demo_service_def demo_names_def)
  then show ?thesis
    unfolding svcmgr_shows_def using demo_registry by (intro exI [of _ "[demo_service]"]) (simp add: demo_def)
qed

lemma demo_server: "srv_image demo = demo_image" "srv_death demo = 0x9100"
  by (simp_all add: demo_def)

lemma demo_empty:
  "fst (bio_get_uint32 (pmem demo_state) (demo_msg 0x2000)) = 0"
  "fst (bio_get_string16 (pmem demo_state) (snd (bio_get_uint32 (pmem demo_state) (demo_msg 0x2000)))) = NULL"
  by code_simp+

lemma demo_quiet: "svcmgr_does demo demo_state Quiet demo_state"
proof -
  let ?t = "load_txn (pmem demo_state) 0x2000"
  have t: "txn_target ?t = 0" "txn_code ?t = 0" "txn_data_size ?t = 0" "txn_buffer ?t = 0" by code_simp+
  obtain pol msg1 where u: "bio_get_uint32 (pmem demo_state) (demo_msg 0x2000) = (pol, msg1)" by fastforce
  with demo_empty obtain len msg2 where str: "bio_get_string16 (pmem demo_state) msg1 = (NULL, len, msg2)"
    by (metis prod.collapse snd_conv)
  have none: "after_interface (pmem demo_state) (demo_msg 0x2000) = None"
    using u str by (simp add: after_interface_def)
  have "txn_in (srv_area demo) ?t" by (simp add: txn_in_def t)
  moreover have "svcmgr_handler demo_image 0x9100 example_bs 0x2000 (demo_msg 0x2000) (reply_for demo_image) demo_state =
      returns (-1, msg2, reply_for demo_image) demo_state"
    using u str t by (simp add: svcmgr_handler_def ping_code Let_def demo_state_def demo_start_def)
  ultimately have "svcmgr_does demo demo_state (txn_event demo_image demo_state 0x2000 (-1)) demo_state"
    using svcmgr_does.handled [of demo demo_state "0x2000" example_bs] by (simp add: demo_server demo_msg_def)
  moreover have "txn_event demo_image demo_state 0x2000 (-1) = Quiet"
    using none by (simp add: txn_event_def demo_msg_def Let_def)
  ultimately show ?thesis by simp
qed

subsection \<open>Property\<close>

text \<open>C2: the service manager answers with the last registration: after any run from a state that
  shows the names \<open>f\<close> (none, when it starts: \<open>starting_shows\<close>), whatever was requested, refused,
  listed or looked up and whichever services died, a lookup by a caller that is not isolated is
  answered with the handle last registered successfully under the name, and with 0 if its
  service has died since or nobody has registered it.\<close>
theorem lookup_answers_last_registration:
  assumes "svcmgr_setup srv" and "svcmgr_shows srv f p0" and "run_events (svcmgr_does srv) p0 es p"
    and "is_request p txn (msg_for (srv_image srv) txn p) msg1"
    and "txn_code (load_txn (pmem p) txn) \<in> {SVC_MGR_GET_SERVICE, SVC_MGR_CHECK_SERVICE}"
    and "bio_get_string16 (pmem p) msg1 = (s, len, msg2)" and "s \<noteq> NULL"
    and "\<not> is_isolated (txn_sender_euid (load_txn (pmem p) txn))"
  shows "svcmgr_handler (srv_image srv) (srv_death srv) bs txn (msg_for (srv_image srv) txn p)
      (reply_for (srv_image srv)) p =
    (let name = load_u16s (pmem p) s (unat len);
         (reply, m) = put_handle (last_handle name es (f name)) (reply_for (srv_image srv), pmem p)
     in returns (0, msg2, reply) ((call_str8 s len p)\<lparr>pmem := m\<rparr>))"
proof -
  let ?name = "load_u16s (pmem p) s (unat len)"
  from names.run [OF assms(1-3)] obtain g where g: "svcmgr_shows srv g p" "g ?name = last_handle ?name es (f ?name)"
    by blast
  then obtain ss where reg: "registry (srv_death srv) (srv_shared srv) ss p"
    and see: "visible ss ?name (txn_sender_euid (load_txn (pmem p) txn)) = last_handle ?name es (f ?name)"
    using assms(8) by (auto simp: svcmgr_shows_def)
  obtain reply m where put: "put_handle (last_handle ?name es (f ?name)) (reply_for (srv_image srv), pmem p) = (reply, m)"
    by fastforce
  from handler_find [OF reg assms(4-7), of "reply_for (srv_image srv)" reply m] put show ?thesis
    by (simp add: see)
qed

theorem lookup_answers_last_registration_witness:
  "\<exists>msg2 reply m. bio_put_ref 7 (reply_for demo_image, pmem demo_state) = (reply, m) \<and>
     svcmgr_handler demo_image 0x9100 example_bs 0x1004 (demo_msg 0x1004) (reply_for demo_image) demo_state =
       returns (0, msg2, reply) ((call_str8 0x80044 2 demo_state)\<lparr>pmem := m\<rparr>)"
proof -
  obtain msg2 where str: "bio_get_string16 (pmem demo_state) demo_find_rest = (0x80044, 2, msg2)"
    using demo_strings by (metis prod.collapse)
  have run: "run_events (svcmgr_does demo) demo_state [Quiet, Quiet] demo_state"
    using demo_quiet by auto
  have uid: "\<not> is_isolated (txn_sender_euid (load_txn (pmem demo_state) 0x1004))"
    by (simp add: demo_codes is_isolated_def)
  have code: "txn_code (load_txn (pmem demo_state) 0x1004) \<in> {SVC_MGR_GET_SERVICE, SVC_MGR_CHECK_SERVICE}"
    using demo_codes(1) by simp
  have rq: "is_request demo_state 0x1004 (msg_for (srv_image demo) 0x1004 demo_state) demo_find_rest"
    using demo_requests(1) by (simp add: demo_server demo_msg_def)
  obtain reply m where put: "bio_put_ref 7 (reply_for demo_image, pmem demo_state) = (reply, m)" by fastforce
  have "load_u16s (pmem demo_state) 0x80044 (unat (2 :: u32)) = [0x68, 0x69]"
    using demo_strings(3) by simp
  with lookup_answers_last_registration [OF demo_setup demo_shows run rq code str _ uid, of example_bs] put
  show ?thesis by (simp add: demo_server demo_msg_def demo_names_def put_handle_def, blast)
qed

end
