(* ===== verification/Test_Server.thy ===== *)
theory Test_Server
  imports Binder_Run
begin

text \<open>
  \<open>test_server.c\<close>: the program that publishes two services, "hello" and "goodbye", and serves
  them. The static counters are \<open>server_globals\<close> (32-bit, like the \<open>int\<close> they model); what the
  functions print is left out. The addresses of string literals and functions are \<open>symbols\<close>.
\<close>

record server_globals =
  sayhello_cnt :: u32
  sayhello_to_cnt :: u32
  saygoodbye_cnt :: u32
  saygoodbye_to_cnt :: u32

text \<open>\<open>sym_mgr\<close>, \<open>sym_hello\<close>, \<open>sym_goodbye\<close>: the literals \<open>SVC_MGR_NAME\<close>, "hello", "goodbye".\<close>

record symbols =
  sym_mgr :: addr
  sym_hello :: addr
  sym_goodbye :: addr
  sym_hello_handler :: addr
  sym_goodbye_handler :: addr
  sym_server_handler :: addr

definition HELLO_SVR_CMD_SAYHELLO :: u32 where "HELLO_SVR_CMD_SAYHELLO = 0"
definition HELLO_SVR_CMD_SAYHELLO_TO :: u32 where "HELLO_SVR_CMD_SAYHELLO_TO = 1"
definition HELLO_SVR_CMD_SAYGOODBYE :: u32 where "HELLO_SVR_CMD_SAYGOODBYE = 0"
definition HELLO_SVR_CMD_SAYGOODBYE_TO :: u32 where "HELLO_SVR_CMD_SAYGOODBYE_TO = 1"

lemmas hello_codes = HELLO_SVR_CMD_SAYHELLO_def HELLO_SVR_CMD_SAYHELLO_TO_def
  HELLO_SVR_CMD_SAYGOODBYE_def HELLO_SVR_CMD_SAYGOODBYE_TO_def

subsection \<open>Publishing a service\<close>

text \<open>The message \<open>svcmgr_publish\<close> builds in its array \<open>iodata[512/4]\<close>.\<close>

definition publish_msg ::
  "'g image \<Rightarrow> addr \<Rightarrow> addr \<Rightarrow> addr \<Rightarrow> mem \<Rightarrow> (binder_io \<times> mem) option" where
  "publish_msg im mgr name ptr m = do {
     s \<leftarrow> Some (bio_put_uint32 0 (bio_init (junk_io im) (caller_iodata im) 512 4, m));
     s \<leftarrow> bio_put_string16_x mgr s;
     s \<leftarrow> bio_put_string16_x name s;
     Some (bio_put_obj ptr s)
   }"

definition svcmgr_publish ::
  "'g image \<Rightarrow> symbols \<Rightarrow> binder_state \<Rightarrow> u32 \<Rightarrow> addr \<Rightarrow> addr \<Rightarrow> 'g process \<Rightarrow> (int, 'g) outcome" where
  "svcmgr_publish im sy bs target name ptr p =
     (case publish_msg im (sym_mgr sy) name ptr (pmem p) of
        None \<Rightarrow> None
      | Some (msg, m) \<Rightarrow>
          and_then (binder_call im bs msg (junk_io im) target SVC_MGR_ADD_SERVICE (p\<lparr>pmem := m\<rparr>))
            (\<lambda>(r, reply) p.
              if r \<noteq> 0 then returns (-1) p
              else
                let (status, reply) = bio_get_uint32 (pmem p) reply
                in and_then (binder_done im bs reply p) (\<lambda>reply. returns (sint status))))"

subsection \<open>The services\<close>

definition sayhello :: "server_globals \<Rightarrow> server_globals" where
  "sayhello g = g\<lparr>sayhello_cnt := sayhello_cnt g + 1\<rparr>"

definition sayhello_to :: "byte list \<Rightarrow> server_globals \<Rightarrow> u32 \<times> server_globals" where
  "sayhello_to name g =
     (let g = g\<lparr>sayhello_to_cnt := sayhello_to_cnt g + 1\<rparr> in (sayhello_to_cnt g, g))"

definition saygoodbye :: "server_globals \<Rightarrow> server_globals" where
  "saygoodbye g = g\<lparr>saygoodbye_cnt := saygoodbye_cnt g + 1\<rparr>"

definition saygoodbye_to :: "byte list \<Rightarrow> server_globals \<Rightarrow> u32 \<times> server_globals" where
  "saygoodbye_to name g =
     (let g = g\<lparr>saygoodbye_to_cnt := saygoodbye_to_cnt g + 1\<rparr> in (saygoodbye_to_cnt g, g))"

text \<open>
  \<open>for (i = 0; i < len; i++) name[i] = s[i]; name[i] = '\0'\<close> into the local array
  \<open>char name[512]\<close>. The code does not check \<open>len\<close>: a store behind the array is None, since
  what the program does after it has overwritten its stack is undefined. \<open>n\<close> is \<open>len - i\<close>.
\<close>

primrec copy_name :: "mem \<Rightarrow> addr \<Rightarrow> nat \<Rightarrow> nat \<Rightarrow> byte list \<Rightarrow> byte list option" where
  "copy_name m s 0 i name = (if i < 512 then Some (name[i := 0]) else None)"
| "copy_name m s (Suc n) i name =
     (if i < 512 then copy_name m s n (Suc i) (name[i := ucast (load16 m (s + 2 * of_nat i))])
      else None)"

text \<open>\<open>hello_service_handler\<close> and \<open>goodbye_service_handler\<close> are the same code but for the
  functions they call. \<open>junk\<close> is the uninitialised array.\<close>

definition hello_service_handler :: "byte list \<Rightarrow> server_globals binder_handler" where
  "hello_service_handler junk bs txn msg reply p =
     (let (strict_policy, msg) = bio_get_uint32 (pmem p) msg;
          code = txn_code (load_txn (pmem p) txn)
      in
      if code = HELLO_SVR_CMD_SAYHELLO then
        returns (0, msg, reply) (p\<lparr>globals := sayhello (globals p)\<rparr>)
      else if code = HELLO_SVR_CMD_SAYHELLO_TO then
        let (s, len, msg) = bio_get_string16 (pmem p) msg in
        if s = NULL then returns (-1, msg, reply) p
        else case copy_name (pmem p) s (unat len) 0 junk of
          None \<Rightarrow> None
        | Some name \<Rightarrow>
            let (i, g) = sayhello_to name (globals p);
                (reply, m) = bio_put_uint32 i (reply, pmem p)
            in returns (0, msg, reply) (p\<lparr>pmem := m, globals := g\<rparr>)
      else returns (-1, msg, reply) p)"

definition goodbye_service_handler :: "byte list \<Rightarrow> server_globals binder_handler" where
  "goodbye_service_handler junk bs txn msg reply p =
     (let (strict_policy, msg) = bio_get_uint32 (pmem p) msg;
          code = txn_code (load_txn (pmem p) txn)
      in
      if code = HELLO_SVR_CMD_SAYGOODBYE then
        returns (0, msg, reply) (p\<lparr>globals := saygoodbye (globals p)\<rparr>)
      else if code = HELLO_SVR_CMD_SAYGOODBYE_TO then
        let (s, len, msg) = bio_get_string16 (pmem p) msg in
        if s = NULL then returns (-1, msg, reply) p
        else case copy_name (pmem p) s (unat len) 0 junk of
          None \<Rightarrow> None
        | Some name \<Rightarrow>
            let (i, g) = saygoodbye_to name (globals p);
                (reply, m) = bio_put_uint32 i (reply, pmem p)
            in returns (0, msg, reply) (p\<lparr>pmem := m, globals := g\<rparr>)
      else returns (-1, msg, reply) p)"

text \<open>\<open>test_server_handler\<close> calls the function whose address the driver hands back in
  \<open>txn->target.ptr\<close>; \<open>code\<close> is the program's code behind such addresses.\<close>

definition test_server_handler ::
  "(addr \<Rightarrow> server_globals binder_handler option) \<Rightarrow> server_globals binder_handler" where
  "test_server_handler code bs txn msg reply p =
     (case code (txn_target (load_txn (pmem p) txn)) of
        None \<Rightarrow> None
      | Some handler \<Rightarrow> handler bs txn msg reply p)"

definition server_main ::
  "server_globals image \<Rightarrow> symbols \<Rightarrow> server_globals process \<Rightarrow> (int, server_globals) outcome" where
  "server_main im sy p =
     and_then (binder_open im (128 * 1024) p) (\<lambda>r p.
       case r of
         None \<Rightarrow> returns (-1) p
       | Some bs \<Rightarrow>
           and_then (svcmgr_publish im sy bs BINDER_SERVICE_MANAGER (sym_hello sy) (sym_hello_handler sy) p) (\<lambda>ret p.
             if ret \<noteq> 0 then returns (-1) p
             else and_then (svcmgr_publish im sy bs BINDER_SERVICE_MANAGER (sym_goodbye sy) (sym_goodbye_handler sy) p) (\<lambda>ret p.
               and_then (binder_set_maxthreads im bs 10 p) (\<lambda>_ p.
                 and_then (binder_loop im bs (sym_server_handler sy) p) (\<lambda>_. returns 0)))))"

end
