(* ===== verification/Test_Client.thy ===== *)
theory Test_Client
  imports Test_Server
begin

text \<open>
  \<open>test_client.c\<close>: the program that looks the two services up and calls them. Its global
  variables are \<open>client_globals\<close>; \<open>argv\<close> is a list of addresses of strings in memory.
\<close>

record client_globals =
  g_hellohandle :: u32
  g_goodbyehandle :: u32

type_synonym client = "client_globals process"

text \<open>The messages: of \<open>svcmgr_lookup\<close>, of a call without argument, of a call with a name.\<close>

definition lookup_msg :: "'g image \<Rightarrow> addr \<Rightarrow> addr \<Rightarrow> mem \<Rightarrow> (binder_io \<times> mem) option" where
  "lookup_msg im mgr name m = do {
     s \<leftarrow> Some (bio_put_uint32 0 (bio_init (junk_io im) (caller_iodata im) 512 4, m));
     s \<leftarrow> bio_put_string16_x mgr s;
     bio_put_string16_x name s
   }"

definition plain_msg :: "'g image \<Rightarrow> mem \<Rightarrow> binder_io \<times> mem" where
  "plain_msg im m = bio_put_uint32 0 (bio_init (junk_io im) (caller_iodata im) 512 4, m)"

definition name_msg :: "'g image \<Rightarrow> addr \<Rightarrow> mem \<Rightarrow> (binder_io \<times> mem) option" where
  "name_msg im name m = bio_put_string16_x name (plain_msg im m)"

definition svcmgr_lookup ::
  "'g image \<Rightarrow> symbols \<Rightarrow> binder_state \<Rightarrow> u32 \<Rightarrow> addr \<Rightarrow> 'g process \<Rightarrow> (u32, 'g) outcome" where
  "svcmgr_lookup im sy bs target name p =
     (case lookup_msg im (sym_mgr sy) name (pmem p) of
        None \<Rightarrow> None
      | Some (msg, m) \<Rightarrow>
          and_then (binder_call im bs msg (junk_io im) target SVC_MGR_CHECK_SERVICE (p\<lparr>pmem := m\<rparr>))
            (\<lambda>(r, reply) p.
              if r \<noteq> 0 then returns 0 p
              else
                let (handle, reply) = bio_get_ref (pmem p) reply
                in and_then (if handle \<noteq> 0 then binder_acquire im bs handle p else returns () p) (\<lambda>_ p.
                     and_then (binder_done im bs reply p) (\<lambda>reply. returns handle))))"

text \<open>\<open>sayhello\<close> and \<open>saygoodbye\<close>: a call without argument or result.\<close>

definition say :: "'g image \<Rightarrow> binder_state \<Rightarrow> u32 \<Rightarrow> u32 \<Rightarrow> 'g process \<Rightarrow> (unit, 'g) outcome" where
  "say im bs handle code p =
     (let (msg, m) = plain_msg im (pmem p) in
      and_then (binder_call im bs msg (junk_io im) handle code (p\<lparr>pmem := m\<rparr>)) (\<lambda>(r, reply) p.
        if r \<noteq> 0 then returns () p
        else and_then (binder_done im bs reply p) (\<lambda>reply. returns ())))"

definition client_sayhello :: "client_globals image \<Rightarrow> binder_state \<Rightarrow> client \<Rightarrow> (unit, client_globals) outcome" where
  "client_sayhello im bs p = say im bs (g_hellohandle (globals p)) HELLO_SVR_CMD_SAYHELLO p"

definition client_saygoodbye :: "client_globals image \<Rightarrow> binder_state \<Rightarrow> client \<Rightarrow> (unit, client_globals) outcome" where
  "client_saygoodbye im bs p = say im bs (g_goodbyehandle (globals p)) HELLO_SVR_CMD_SAYGOODBYE p"

text \<open>\<open>sayhello_to\<close> and \<open>saygoodbye_to\<close>: a call with a name and an integer result.\<close>

definition say_to ::
  "'g image \<Rightarrow> binder_state \<Rightarrow> u32 \<Rightarrow> u32 \<Rightarrow> addr \<Rightarrow> 'g process \<Rightarrow> (int, 'g) outcome" where
  "say_to im bs handle code name p =
     (case name_msg im name (pmem p) of
        None \<Rightarrow> None
      | Some (msg, m) \<Rightarrow>
          and_then (binder_call im bs msg (junk_io im) handle code (p\<lparr>pmem := m\<rparr>)) (\<lambda>(r, reply) p.
            if r \<noteq> 0 then returns 0 p
            else
              let (ret, reply) = bio_get_uint32 (pmem p) reply
              in and_then (binder_done im bs reply p) (\<lambda>reply. returns (sint ret))))"

definition client_sayhello_to ::
  "client_globals image \<Rightarrow> binder_state \<Rightarrow> addr \<Rightarrow> client \<Rightarrow> (int, client_globals) outcome" where
  "client_sayhello_to im bs name p =
     say_to im bs (g_hellohandle (globals p)) HELLO_SVR_CMD_SAYHELLO_TO name p"

definition client_saygoodbye_to ::
  "client_globals image \<Rightarrow> binder_state \<Rightarrow> addr \<Rightarrow> client \<Rightarrow> (int, client_globals) outcome" where
  "client_saygoodbye_to im bs name p =
     say_to im bs (g_goodbyehandle (globals p)) HELLO_SVR_CMD_SAYGOODBYE_TO name p"

text \<open>\<open>!strcmp(a, b)\<close>.\<close>

partial_function (option) c_streq :: "mem \<Rightarrow> addr \<Rightarrow> addr \<Rightarrow> bool option" where
  "c_streq m a b =
     (if m a \<noteq> m b then Some False else if m a = 0 then Some True else c_streq m (a + 1) (b + 1))"

text \<open>The calls at the end of \<open>main\<close>; results are only printed. With an empty \<open>argv\<close>, which no
  shell passes, \<open>argv[1]\<close> is behind the array: None.\<close>

definition client_calls ::
  "client_globals image \<Rightarrow> symbols \<Rightarrow> binder_state \<Rightarrow> addr list \<Rightarrow> client \<Rightarrow> (unit, client_globals) outcome" where
  "client_calls im sy bs argv p =
     (if length argv < 2 then None else
      case c_streq (pmem p) (argv ! 1) (sym_hello sy) of
        None \<Rightarrow> None
      | Some True \<Rightarrow>
          if length argv = 2 then client_sayhello im bs p
          else if length argv = 3 then and_then (client_sayhello_to im bs (argv ! 2) p) (\<lambda>ret. returns ())
          else returns () p
      | Some False \<Rightarrow>
          if length argv = 2 then client_saygoodbye im bs p
          else if length argv = 3 then and_then (client_saygoodbye_to im bs (argv ! 2) p) (\<lambda>ret. returns ())
          else returns () p)"

definition client_main ::
  "client_globals image \<Rightarrow> symbols \<Rightarrow> addr list \<Rightarrow> client \<Rightarrow> (int, client_globals) outcome" where
  "client_main im sy argv p =
     (if length argv = 1 then returns (-1) p
      else and_then (binder_open im (128 * 1024) p) (\<lambda>r p.
        case r of
          None \<Rightarrow> returns (-1) p
        | Some bs \<Rightarrow>
            and_then (svcmgr_lookup im sy bs BINDER_SERVICE_MANAGER (sym_goodbye sy) p) (\<lambda>handle p.
              let p = p\<lparr>globals := (globals p)\<lparr>g_goodbyehandle := handle\<rparr>\<rparr> in
              and_then (svcmgr_lookup im sy bs BINDER_SERVICE_MANAGER (sym_hello sy) p) (\<lambda>handle p.
                if handle = 0 then returns (-1) p
                else
                  let p = p\<lparr>globals := (globals p)\<lparr>g_hellohandle := handle\<rparr>\<rparr> in
                  and_then (client_calls im sy bs argv p) (\<lambda>_ p.
                    and_then (binder_release im bs handle p) (\<lambda>_. returns 0))))))"

declare c_streq.simps [code]

end
