(* ===== verification/Services.thy ===== *)
theory Services
  imports Test_Client
begin

text \<open>
  What the services of \<open>test_server.c\<close> do with a request, and where they go wrong: the copy of
  the name into a local array of 512 bytes is exact for shorter names and leaves the array for
  longer ones.
\<close>

subsection \<open>Copying the name\<close>

lemma copy_name_result:
  assumes "length name = 512" and "i \<le> 512"
  shows "copy_name m s n i name =
    (if i + n < 512 then
       Some (take i name @ map ucast (load_u16s m (s + 2 * of_nat i) n) @ 0 # drop (Suc (i + n)) name)
     else None)"
  using assms
proof (induction n arbitrary: i name)
  case 0
  then show ?case by (auto simp: upd_conv_take_nth_drop)
next
  case (Suc n)
  let ?b = "ucast (load16 m (s + 2 * of_nat i)) :: byte"
  show ?case
  proof (cases "i < 512")
    case True
    then have "take (Suc i) (name[i := ?b]) = take i name @ [?b]"
      using Suc.prems by (simp add: take_Suc_conv_app_nth)
    moreover have "drop (Suc (Suc i + n)) (name[i := ?b]) = drop (Suc (Suc i + n)) name" by simp
    ultimately show ?thesis
      using True Suc.IH [of "name[i := ?b]" "Suc i"] Suc.prems by (simp add: algebra_simps)
  next
    case False
    then show ?thesis by simp
  qed
qed

subsection \<open>A request\<close>

text \<open>A request for \<open>SAYHELLO_TO\<close> with the length word \<open>n\<close> and the name "hi".\<close>

definition hello_mem :: "u32 \<Rightarrow> mem" where
  "hello_mem n =
     store_bytes (store_bytes (\<lambda>_. 0) 0x80000 (le32 0 @ le32 n @ enc16 [0x68, 0x69, 0, 0])) 0x1004
       (le32 0 @ le32 0 @ le32 1)"

definition hello_process :: "u32 \<Rightarrow> server_globals process" where
  "hello_process n = \<lparr>pmem = hello_mem n, blocks = [], requests = [], budget = 5, threads = [],
     globals = \<lparr>sayhello_cnt = 0, sayhello_to_cnt = 6, saygoodbye_cnt = 0, saygoodbye_to_cnt = 0\<rparr>\<rparr>"

text \<open>The reader of such a message, \<open>k\<close> bytes in, with \<open>n\<close> bytes left.\<close>

definition hello_msg :: "u32 \<Rightarrow> u32 \<Rightarrow> binder_io" where
  "hello_msg k n = \<lparr>io_data = 0x80000 + k, io_offs = 0, io_data_avail = n, io_offs_avail = 0,
     io_data0 = 0x80000, io_offs0 = 0, io_flags = 1, io_unused = 0\<rparr>"

lemma hello_code:
  "txn_code (load_txn (pmem (hello_process 2)) 0x1004) = HELLO_SVR_CMD_SAYHELLO_TO"
  "txn_code (load_txn (pmem (hello_process 512)) 0x1004) = HELLO_SVR_CMD_SAYHELLO_TO"
  by code_simp+

lemma hello_header:
  "bio_get_uint32 (pmem (hello_process 2)) (hello_msg 0 16) = (0, hello_msg 4 12)"
  "bio_get_uint32 (pmem (hello_process 512)) (hello_msg 0 2000) = (0, hello_msg 4 1996)"
  by code_simp+

lemma hello_short: "bio_get_string16 (pmem (hello_process 2)) (hello_msg 4 12) = (0x80008, 2, hello_msg 16 0)"
  by code_simp

lemma hello_long:
  "bio_get_string16 (pmem (hello_process 512)) (hello_msg 4 1996) = (0x80008, 512, hello_msg 1036 964)"
  by code_simp

subsection \<open>Properties\<close>

lemma hello_to_call:
  assumes "length junk = 512"
    and "txn_code (load_txn (pmem p) txn) = HELLO_SVR_CMD_SAYHELLO_TO"
    and "bio_get_uint32 (pmem p) msg = (policy, msg1)"
    and "bio_get_string16 (pmem p) msg1 = (s, len, msg2)" and "unat len < 512"
  shows "hello_service_handler junk bs txn msg reply p =
    (if s = NULL then returns (-1, msg2, reply) p
     else
       let n = sayhello_to_cnt (globals p) + 1;
           (reply', m') = bio_put_uint32 n (reply, pmem p)
       in returns (0, msg2, reply')
            (p\<lparr>pmem := m', globals := (globals p)\<lparr>sayhello_to_cnt := n\<rparr>\<rparr>))"
  using assms copy_name_result [OF assms(1), of 0 "pmem p" s "unat len"]
  by (simp add: hello_service_handler_def hello_codes sayhello_to_def Let_def)

text \<open>The hello service counts its calls: a request with a name of fewer than 512 units is
  answered with status 0 and the number of such calls so far, which is kept in the static
  counter; a request whose name is missing is refused; nothing else changes.\<close>
theorem hello_service_counts:
  assumes "length junk = 512"
    and "txn_code (load_txn (pmem p) txn) = HELLO_SVR_CMD_SAYHELLO_TO"
    and "bio_get_uint32 (pmem p) msg = (policy, msg1)"
    and "bio_get_string16 (pmem p) msg1 = (s, len, msg2)" and "unat len < 512"
  shows "hello_service_handler junk bs txn msg reply p =
    (if s = NULL then returns (-1, msg2, reply) p
     else
       let n = sayhello_to_cnt (globals p) + 1;
           (reply', m') = bio_put_uint32 n (reply, pmem p)
       in returns (0, msg2, reply')
            (p\<lparr>pmem := m', globals := (globals p)\<lparr>sayhello_to_cnt := n\<rparr>\<rparr>))"
  using assms by (rule hello_to_call)

theorem hello_service_counts_witness:
  "\<exists>reply' m' p'. bio_put_uint32 7 (zero_io, hello_mem 2) = (reply', m') \<and>
     hello_service_handler (replicate 512 0) example_bs 0x1004 (hello_msg 0 16) zero_io (hello_process 2) =
       returns (0, hello_msg 16 0, reply') p' \<and> sayhello_to_cnt (globals p') = 7"
proof -
  note h = hello_service_counts [of "replicate 512 0" "hello_process 2" "0x1004" "hello_msg 0 16",
      OF _ hello_code(1) hello_header(1) hello_short, of example_bs zero_io]
  obtain reply' m' where "bio_put_uint32 7 (zero_io, hello_mem 2) = (reply', m')" by fastforce
  with h show ?thesis
    by (simp add: hello_process_def Let_def) (intro exI conjI, rule refl, simp)
qed

text \<open>C21: a name of 512 units or more overruns the array \<open>name[512]\<close> of the handler: nothing
  between the client's message and the copy loop checks the length.\<close>
theorem hello_name_overruns:
  assumes "length junk = 512"
    and "txn_code (load_txn (pmem p) txn) = HELLO_SVR_CMD_SAYHELLO_TO"
    and "bio_get_uint32 (pmem p) msg = (policy, msg1)"
    and "bio_get_string16 (pmem p) msg1 = (s, len, msg2)" and "512 \<le> unat len" and "s \<noteq> NULL"
  shows "hello_service_handler junk bs txn msg reply p = None"
  using assms copy_name_result [OF assms(1), of 0 "pmem p" s "unat len"]
  by (simp add: hello_service_handler_def hello_codes Let_def)

theorem hello_name_overruns_witness:
  "hello_service_handler (replicate 512 0) example_bs 0x1004 (hello_msg 0 2000) zero_io (hello_process 512) = None"
  by (rule hello_name_overruns [OF _ hello_code(2) hello_header(2) hello_long]) simp_all

end
