(* ===== verification/Bio_Fit.thy ===== *)
theory Bio_Fit
  imports Bio_Read
begin

text \<open>
  Messages that fit. The size of an item is known from the value it stands for, so a message
  whose items fit into the buffer does not overflow, and reaches its reader as it was meant.
\<close>

text \<open>The bytes a value takes, and the offset entries.\<close>

primrec val_size :: "bio_val \<Rightarrow> nat" where
  "val_size (VU32 _) = 4"
| "val_size (VStr us) = 4 + (2 * Suc (length us) + 3) div 4 * 4"
| "val_size VNull = 4"
| "val_size (VRef _) = 16"

primrec val_objs :: "bio_val \<Rightarrow> nat" where
  "val_objs (VU32 _) = 0"
| "val_objs (VStr _) = 0"
| "val_objs VNull = 0"
| "val_objs (VRef _) = 1"

definition fits_in :: "nat \<Rightarrow> nat \<Rightarrow> binder_io \<Rightarrow> bool" where
  "fits_in n k b \<longleftrightarrow> n \<le> unat (io_data_avail b) \<and> k \<le> unat (io_offs_avail b)"

text \<open>After an item the rest of the room is left.\<close>

definition took :: "nat \<Rightarrow> nat \<Rightarrow> binder_io \<Rightarrow> binder_io \<Rightarrow> bool" where
  "took n k b b' \<longleftrightarrow> io_flags b' = io_flags b \<and> unat (io_data_avail b') + n = unat (io_data_avail b) \<and>
     unat (io_offs_avail b') + k = unat (io_offs_avail b)"

lemma took_advance: "unat sz \<le> unat (io_data_avail b) \<Longrightarrow> took (unat sz) 0 b (bio_advance b sz)"
  by (simp add: took_def unat_sub word_le_nat_alt)

lemma took_trans: "took n k b b1 \<Longrightarrow> took n' k' b1 b2 \<Longrightarrow> took (n + n') (k + k') b b2"
  by (simp add: took_def)

lemma string_took:
  assumes inv: "bio_inv lo mid hi b" and n: "n < 536870912"
    and room: "4 + (2 * Suc n + 3) div 4 * 4 \<le> unat (io_data_avail b)"
    and put: "bio_put_uint32 (of_nat n) (b, m) = (b1, m1)"
    and alloc: "bio_alloc b1 ((of_nat n + 1) * sizeof_uint16) = (p, b2)"
  shows "took (4 + (2 * Suc n + 3) div 4 * 4) 0 b b2"
proof -
  have b1: "b1 = bio_advance b 4" using put_uint32_fits [OF inv] room put by simp
  have sz: "unat ((of_nat n + 1) * sizeof_uint16 :: u32) = 2 * Suc n"
    using string_size(2) [OF _ string_bound [OF n]] n by simp
  then have al: "unat (align4 ((of_nat n + 1) * sizeof_uint16)) = (2 * Suc n + 3) div 4 * 4"
    using n by (subst align4_small) simp_all
  have 1: "took 4 0 b b1" using took_advance [of 4 b] room b1 by simp
  then have "(2 * Suc n + 3) div 4 * 4 \<le> unat (io_data_avail b1)" using room by (simp add: took_def)
  then have "took ((2 * Suc n + 3) div 4 * 4) 0 b1 b2"
    using took_advance [of "align4 ((of_nat n + 1) * sizeof_uint16)" b1] alloc al by (auto simp: bio_alloc_fits)
  from took_trans [OF 1 this] show ?thesis by simp
qed

lemma object_took:
  assumes inv: "bio_inv lo mid hi b" and "16 \<le> unat (io_data_avail b)" and "1 \<le> unat (io_offs_avail b)"
    and "bio_alloc_obj b m = (p, b', m')"
  shows "took 16 1 b b'"
proof -
  have "io_offs_avail b \<noteq> 0" using assms(3) by auto
  with assms show ?thesis
    by (auto simp: alloc_obj_fits took_def unat_sub word_le_nat_alt unat_eq_0)
qed

lemma item_took:
  assumes inv: "bio_inv lo mid hi b" and sem: "item_sem v (b, m) w" and fits: "fits_in (val_size w) (val_objs w) b"
  shows "\<exists>b' m'. bio_put v (b, m) = Some (b', m') \<and> took (val_size w) (val_objs w) b b'"
proof (cases v)
  case (PutU32 n)
  with sem fits show ?thesis
    using took_advance [of 4 b] by (simp add: fits_in_def put_uint32_fits [OF inv])
next
  case (PutObj ptr)
  obtain p b' m' where alloc: "bio_alloc_obj b m = (p, b', m')" by (cases "bio_alloc_obj b m") auto
  with PutObj sem fits object_took [OF inv _ _ alloc] show ?thesis
    by (simp add: bio_put_obj_def fits_in_def)
next
  case (PutRef h)
  obtain p b' m' where alloc: "bio_alloc_obj b m = (p, b', m')" by (cases "bio_alloc_obj b m") auto
  with PutRef sem fits object_took [OF inv _ _ alloc] show ?thesis
    by (simp add: bio_put_ref_def fits_in_def)
next
  case (PutStr16 a)
  with sem obtain us where us: "a \<noteq> NULL" "w = VStr us" "length us < 536870912" "cstr16 m a us"
      "no_wrap a (2 * Suc (length us))" "region a (2 * Suc (length us)) \<inter> bio_free b = {}"
    by auto
  obtain b1 m1 where put: "bio_put_uint32 (of_nat (length us)) (b, m) = (b1, m1)" by fastforce
  obtain p b2 where alloc: "bio_alloc b1 ((of_nat (length us) + 1) * sizeof_uint16) = (p, b2)" by fastforce
  show ?thesis
    using PutStr16 put_string16_steps [OF inv us(1,3,4,5,6) put alloc] string_took [OF inv us(3) _ put alloc] fits us(2)
    by (simp add: fits_in_def)
next
  case (PutStr16x a)
  with sem obtain s where s: "a \<noteq> NULL" "w = VStr (map ucast s)" "length s < 536870912" "cstr m a s"
      "no_wrap a (Suc (length s))" "region a (Suc (length s)) \<inter> bio_free b = {}"
    by auto
  obtain b1 m1 where put: "bio_put_uint32 (of_nat (length s)) (b, m) = (b1, m1)" by fastforce
  obtain p b2 where alloc: "bio_alloc b1 ((of_nat (length s) + 1) * sizeof_uint16) = (p, b2)" by fastforce
  show ?thesis
    using PutStr16x put_string16_x_steps [OF inv s(1,3,4,5,6) put alloc] string_took [OF inv s(3) _ put alloc] fits s(2)
    by (simp add: fits_in_def)
qed

lemma items_took:
  assumes "bio_inv lo mid hi b" and "list_all2 (\<lambda>v w. item_sem v (b, m) w) items vals"
    and "fits_in (sum_list (map val_size vals)) (sum_list (map val_objs vals)) b"
  shows "\<exists>b' m'. run_all bio_put items (b, m) = Some (b', m') \<and>
    took (sum_list (map val_size vals)) (sum_list (map val_objs vals)) b b'"
  using assms
proof (induction items arbitrary: vals b m)
  case Nil
  then show ?case by (simp add: took_def)
next
  case (Cons v items)
  from Cons.prems(2) obtain w ws where vals: "vals = w # ws" and w: "item_sem v (b, m) w"
    and rest: "list_all2 (\<lambda>v w. item_sem v (b, m) w) items ws"
    by (auto simp: list_all2_Cons1)
  have "fits_in (val_size w) (val_objs w) b" using Cons.prems(3) vals by (simp add: fits_in_def)
  from item_took [OF Cons.prems(1) w this] obtain b1 m1 where put: "bio_put v (b, m) = Some (b1, m1)"
    and t1: "took (val_size w) (val_objs w) b b1" by blast
  from items.put_returns [OF Cons.prems(1) item_sem_ok [OF w]] put have ext: "bio_ext (b, m) (b1, m1)" by auto
  have "list_all2 (\<lambda>v w. item_sem v (b1, m1) w) items ws"
    using rest by (rule list_all2_mono) (rule item_sem_later [OF ext])
  moreover have "fits_in (sum_list (map val_size ws)) (sum_list (map val_objs ws)) b1"
    using Cons.prems(3) vals t1 by (simp add: fits_in_def took_def)
  ultimately obtain b2 m2 where "run_all bio_put items (b1, m1) = Some (b2, m2)"
      "took (sum_list (map val_size ws)) (sum_list (map val_objs ws)) b1 b2"
    using Cons.IH [OF bio_ext_inv [OF Cons.prems(1) ext]] by blast
  with put took_trans [OF t1] vals show ?case by auto
qed

text \<open>A message that fits into \<open>maxdata\<close> bytes reaches its reader.\<close>

lemma message_fits:
  assumes "0 < unat dat" and "unat dat + unat maxdata < 4294967296" and "4 * unat maxoffs \<le> unat maxdata"
    and "list_all2 (\<lambda>v w. item_sem v (bio_init b dat maxdata maxoffs, m) w) items vals"
    and "sum_list (map val_size vals) + 4 * unat maxoffs \<le> unat maxdata"
    and "sum_list (map val_objs vals) \<le> unat maxoffs"
  obtains b1 m1 where "run_all bio_put items (bio_init b dat maxdata maxoffs, m) = Some (b1, m1)"
    and "\<not> overflowed b1" and "bio_ext (bio_init b dat maxdata maxoffs, m) (b1, m1)"
    and "\<And>t mr r. carried (b1, m1) t mr \<Longrightarrow>
       \<exists>r'. read_all bio_get_item (map item_kind items) mr (bio_init_from_txn r t) = (vals, r') \<and>
         io_data_avail r' = 0"
proof -
  let ?b = "bio_init b dat maxdata maxoffs"
  note n = bio_init_fits [OF assms(3)] and inv = bio_init_inv [OF assms(1-3), of b]
  have "unat (maxdata - maxoffs * sizeof_size_t) = unat maxdata - 4 * unat maxoffs"
    using n by (simp add: unat_sub linorder_not_less)
  then have "fits_in (sum_list (map val_size vals)) (sum_list (map val_objs vals)) ?b" and "\<not> overflowed ?b"
    using n assms(5,6) by (simp_all add: fits_in_def bio_init_def Let_def overflowed_def)
  with items_took [OF inv assms(4)] obtain b1 m1 where
    run: "run_all bio_put items (?b, m) = Some (b1, m1)" and ok: "\<not> overflowed b1"
    by (auto simp: took_def overflowed_def)
  have "\<forall>v\<in>set items. item_ok v (?b, m)"
    using assms(4) item_sem_ok by (fastforce simp: list_all2_conv_all_nth in_set_conv_nth)
  from items.put_all_returns [OF inv this] run have "bio_ext (?b, m) (b1, m1)" by simp
  moreover have "\<exists>r'. read_all bio_get_item (map item_kind items) mr (bio_init_from_txn r t) = (vals, r') \<and>
      io_data_avail r' = 0" if "carried (b1, m1) t mr" for t mr r
    using message_carried [OF assms(1-4) run ok that, of r] by (auto simp: reader_at.simps unat_eq_0)
  ultimately show ?thesis using that run ok by blast
qed

subsection \<open>What the readers see\<close>

lemma read_Cons:
  "read_all get (k # ks) m r = (w # ws, r') \<longleftrightarrow> (\<exists>r1. get k m r = (w, r1) \<and> read_all get ks m r1 = (ws, r'))"
  by (auto split: prod.splits)

lemma read_Nil: "read_all get [] m r = ([], r') \<longleftrightarrow> r' = r"
  by auto

lemma read_u32: "bio_get_item KU32 m r = (VU32 n, r') \<longleftrightarrow> bio_get_uint32 m r = (n, r')"
  by (auto split: prod.splits)

lemma read_ref: "bio_get_item KRef m r = (VRef h, r') \<longleftrightarrow> bio_get_ref m r = (h, r')"
  by (auto split: prod.splits)

lemma read_str:
  "bio_get_item KStr m r = (VStr us, r') \<longleftrightarrow>
     (\<exists>a len. bio_get_string16 m r = (a, len, r') \<and> a \<noteq> NULL \<and> load_u16s m a (unat len) = us)"
  by (auto split: prod.splits if_splits)

lemmas read_simps = read_Cons read_Nil read_u32 read_ref read_str

lemma read_past_end: "io_data_avail r = 0 \<Longrightarrow> fst (bio_get_uint32 m r) = 0"
  by (simp add: bio_get_uint32_def bio_get_full Let_def)

lemma read_no_objects: "io_offs_avail r = 0 \<Longrightarrow> fst (bio_get_ref m r) = 0"
  by (simp add: bio_get_ref_def bio_get_obj_def offs_search.simps Let_def)

end
