(* ===== verification/End_To_End.thy ===== *)
theory End_To_End
  imports Svcmgr Services Bio_Fit
begin

text \<open>
  The programs together: the messages that \<open>test_client.c\<close> and \<open>test_server.c\<close> build, carried by
  the driver to the process they are meant for, handled there, and the reply carried back.
  What the driver does between them is a hypothesis: \<^theory_text>\<open>carried\<close> (the bytes of a message
  arrive unchanged where the transaction says) and, for a message with an object,
  \<open>driver_handle\<close> (the object has become a handle).
\<close>

subsection \<open>Messages with names\<close>

text \<open>A byte string outside the array \<open>iodata[512/4]\<close> at \<open>buf\<close> that the message is built in.\<close>

definition name_in :: "mem \<Rightarrow> addr \<Rightarrow> addr \<Rightarrow> byte list \<Rightarrow> bool" where
  "name_in m buf a s \<longleftrightarrow> a \<noteq> NULL \<and> cstr m a s \<and> no_wrap a (Suc (length s)) \<and>
     region a (Suc (length s)) \<inter> region buf 512 = {} \<and> length s < 512"

text \<open>The array lies in memory.\<close>

definition iodata_ok :: "addr \<Rightarrow> bool" where
  "iodata_ok buf \<longleftrightarrow> 0 < unat buf \<and> unat buf + 512 < 4294967296"

lemma iodata_free:
  assumes "iodata_ok buf"
  shows "bio_free (bio_init b buf 512 4) \<subseteq> region buf 512"
proof -
  have "bio_inv (unat buf) (unat buf + 16) (unat buf + 512) (bio_init b buf 512 4)"
    using bio_init_inv [of buf 512 4 b] assms by (simp add: iodata_ok_def)
  from bio_free_inside [OF this] show ?thesis by (auto simp: in_region)
qed

lemma name_sem:
  assumes "iodata_ok buf" and "name_in m buf a s"
  shows "item_sem (PutStr16x a) (bio_init b buf 512 4, m) (VStr (map ucast s))"
  using iodata_free [OF assms(1)] assms(2) by (auto simp: name_in_def intro!: exI [of _ s])

lemma short_message:
  assumes "iodata_ok buf" and "list_all2 (\<lambda>v w. item_sem v (bio_init b buf 512 4, m) w) items vals"
    and "sum_list (map val_size vals) \<le> 496" and "sum_list (map val_objs vals) \<le> 4"
  obtains b1 m1 where "run_all bio_put items (bio_init b buf 512 4, m) = Some (b1, m1)"
    and "\<not> overflowed b1" and "bio_ext (bio_init b buf 512 4, m) (b1, m1)"
    and "\<And>t mr r. carried (b1, m1) t mr \<Longrightarrow>
       \<exists>r'. read_all bio_get_item (map item_kind items) mr (bio_init_from_txn r t) = (vals, r') \<and>
         io_data_avail r' = 0"
proof (rule message_fits [OF _ _ _ assms(2)])
  show "0 < unat buf" "unat buf + unat (512 :: u32) < 4294967296"
    using assms(1) by (simp_all add: iodata_ok_def)
qed (use assms(3,4) in auto)

lemma string_room: "length us \<le> n \<Longrightarrow> val_size (VStr us) \<le> 4 + (2 * Suc n + 3) div 4 * 4"
  by (simp add: div_le_mono)

lemma name_msg_run:
  "name_msg im a m = run_all bio_put [PutU32 0, PutStr16x a] (bio_init (junk_io im) (caller_iodata im) 512 4, m)"
  by (auto simp: name_msg_def plain_msg_def split: Option.bind_split)

lemma lookup_msg_run:
  "lookup_msg im mgr name m =
     run_all bio_put [PutU32 0, PutStr16x mgr, PutStr16x name] (bio_init (junk_io im) (caller_iodata im) 512 4, m)"
  by (auto simp: lookup_msg_def split: Option.bind_split)

lemma publish_msg_run:
  "publish_msg im mgr name ptr m =
     run_all bio_put [PutU32 0, PutStr16x mgr, PutStr16x name, PutObj ptr]
       (bio_init (junk_io im) (caller_iodata im) 512 4, m)"
  by (auto simp: publish_msg_def split: Option.bind_split)

text \<open>A call with a name, and the reply with a number.\<close>

lemma name_msg_read:
  assumes "iodata_ok (caller_iodata im)" and "name_in m (caller_iodata im) a s" and "length s < 244"
  obtains b1 m1 where "name_msg im a m = Some (b1, m1)" and "\<not> overflowed b1"
    and "bio_ext (bio_init (junk_io im) (caller_iodata im) 512 4, m) (b1, m1)"
    and "\<And>t mr r. carried (b1, m1) t mr \<Longrightarrow> \<exists>r1 r2 x len.
      bio_get_uint32 mr (bio_init_from_txn r t) = (0, r1) \<and> bio_get_string16 mr r1 = (x, len, r2) \<and>
      x \<noteq> NULL \<and> load_u16s mr x (unat len) = map ucast s"
proof (rule short_message [OF assms(1), of "junk_io im" m "[PutU32 0, PutStr16x a]" "[VU32 0, VStr (map ucast s)]"],
    goal_cases)
  case 1
  then show ?case using name_sem [OF assms(1,2)] by simp
next
  case 2
  then show ?case using string_room [of "map ucast s :: u16 list" 243] assms(3) by simp
next
  case 3
  then show ?case by simp
next
  case (4 b1 m1)
  note sent = 4(2-5)
  show ?case
  proof (rule that [OF _ sent(2,3)])
    show "name_msg im a m = Some (b1, m1)" using sent(1) by (simp only: name_msg_run)
    fix t mr r
    assume "carried (b1, m1) t mr"
    from sent(4) [OF this, of r] show "\<exists>r1 r2 x len. bio_get_uint32 mr (bio_init_from_txn r t) = (0, r1) \<and>
        bio_get_string16 mr r1 = (x, len, r2) \<and> x \<noteq> NULL \<and> load_u16s mr x (unat len) = map ucast s"
      by (auto simp only: list.map item_kind.simps read_simps)
  qed
qed

subsection \<open>Messages for the service manager\<close>

text \<open>\<open>SVC_MGR_NAME\<close> of \<open>binder_io.h\<close>, as the C string the programs send.\<close>

definition svc_mgr_name :: "byte list" where
  "svc_mgr_name = map of_char ''android.os.IServiceManager''"

lemma svc_mgr_name: "map ucast svc_mgr_name = svcmgr_id" "length svc_mgr_name = 26" "length svcmgr_id = 26"
  by code_simp+

text \<open>What the service manager finds at the start of a message that reads so.\<close>

lemma reads_interface:
  assumes "bio_get_uint32 m msg = (pol, r1)" and "bio_get_string16 m r1 = (x, len, r2)"
    and "x \<noteq> NULL" and "load_u16s m x (unat len) = svcmgr_id"
  shows "after_interface m msg = Some r2"
proof -
  have len: "unat len = 26"
    using arg_cong [OF assms(4), of length] svc_mgr_name(3) by simp
  then have "len = 26" by (intro addr_eqI) simp
  moreover have "load_bytes m x 52 = enc16 svcmgr_id"
    using enc16_load_u16s [of m x 26] assms(4) len by (simp del: load_bytes_numeral)
  ultimately show ?thesis
    using assms(1-3) by (simp add: after_interface_def del: load_bytes_numeral)
qed

text \<open>The driver rewrites an object of the sender: the receiver gets a handle for it.\<close>

definition driver_handle :: "mem \<Rightarrow> addr \<Rightarrow> u32 \<Rightarrow> mem" where
  "driver_handle m obj h = store32 (store32 m obj BINDER_TYPE_HANDLE) (obj + 8) h"

lemma store_obj_translated:
  "driver_handle (store_obj m obj ty ptr) obj h = store_obj m obj BINDER_TYPE_HANDLE h"
proof
  fix x
  have "x = obj + (x - obj)" by simp
  then show "driver_handle (store_obj m obj ty ptr) obj h x = store_obj m obj BINDER_TYPE_HANDLE h x"
    by (auto simp: driver_handle_def store_obj_def store32_def le32_def Let_def add.assoc)
qed

lemma put_obj_as_ref:
  assumes inv: "bio_inv lo mid hi b" and put: "bio_put_obj ptr (b, m) = (b1, m1)" and ok: "\<not> overflowed b1"
    and h: "h \<noteq> 0"
  shows "bio_put_ref h (b, m) = (b1, driver_handle m1 (io_data b1 - 16) h)"
    and "mid + 16 \<le> unat (io_data b1)"
proof -
  obtain p b' m' where alloc: "bio_alloc_obj b m = (p, b', m')" by (cases "bio_alloc_obj b m") auto
  with put have b': "b' = b1" by (auto simp: bio_put_obj_def split: if_splits)
  note done_ = alloc_obj_done [OF inv alloc [unfolded b'] ok]
  have p: "p = io_data b" "io_data b1 = io_data b + 16"
    using alloc b' by (auto simp: alloc_obj_fits [OF inv done_(2,3)])
  with alloc b' put done_(1) h show "bio_put_ref h (b, m) = (b1, driver_handle m1 (io_data b1 - 16) h)"
    by (auto simp: bio_put_obj_def bio_put_ref_def store_obj_translated)
  show "mid + 16 \<le> unat (io_data b1)"
    using inv done_(2) p by (simp add: bio_inv_def unat_add_nowrap)
qed

lemma lookup_msg_read:
  assumes buf: "iodata_ok (caller_iodata im)" and mgr: "name_in m (caller_iodata im) mgr svc_mgr_name"
    and name: "name_in m (caller_iodata im) a s" and len: "length s \<le> 213"
  obtains b1 m1 where "lookup_msg im mgr a m = Some (b1, m1)" and "\<not> overflowed b1"
    and "bio_ext (bio_init (junk_io im) (caller_iodata im) 512 4, m) (b1, m1)"
    and "\<And>t mr r. carried (b1, m1) t mr \<Longrightarrow> \<exists>r1 r2 x len.
      after_interface mr (bio_init_from_txn r t) = Some r1 \<and> bio_get_string16 mr r1 = (x, len, r2) \<and>
      x \<noteq> NULL \<and> load_u16s mr x (unat len) = map ucast s"
proof (rule short_message [OF buf, of "junk_io im" m "[PutU32 0, PutStr16x mgr, PutStr16x a]"
      "[VU32 0, VStr svcmgr_id, VStr (map ucast s)]"], goal_cases)
  case 1
  then show ?case using name_sem [OF buf mgr] name_sem [OF buf name] by (simp add: svc_mgr_name)
next
  case 2
  then show ?case using string_room [of "map ucast s :: u16 list" 213] len by (simp add: svc_mgr_name)
next
  case 3
  then show ?case by simp
next
  case (4 b1 m1)
  note sent = 4(2-5)
  show ?case
  proof (rule that [OF _ sent(2,3)])
    show "lookup_msg im mgr a m = Some (b1, m1)" using sent(1) by (simp only: lookup_msg_run)
    fix t mr r
    assume "carried (b1, m1) t mr"
    from sent(4) [OF this, of r] show "\<exists>r1 r2 x len. after_interface mr (bio_init_from_txn r t) = Some r1 \<and>
        bio_get_string16 mr r1 = (x, len, r2) \<and> x \<noteq> NULL \<and> load_u16s mr x (unat len) = map ucast s"
      unfolding list.map item_kind.simps read_simps by (blast intro: reads_interface)
  qed
qed

lemma publish_msg_read:
  assumes buf: "iodata_ok (caller_iodata im)" and mgr: "name_in m (caller_iodata im) mgr svc_mgr_name"
    and name: "name_in m (caller_iodata im) a s" and len: "length s \<le> 127"
  obtains b1 m1 where "publish_msg im mgr a ptr m = Some (b1, m1)" and "\<not> overflowed b1"
    and "bio_ext (bio_init (junk_io im) (caller_iodata im) 512 4, m) (b1, m1)"
    and "unat (caller_iodata im) + 32 \<le> unat (io_data b1)"
    and "\<And>h t mr r. h \<noteq> 0 \<Longrightarrow> carried (b1, driver_handle m1 (io_data b1 - 16) h) t mr \<Longrightarrow> \<exists>r1 r2 r3 r4 x len.
      after_interface mr (bio_init_from_txn r t) = Some r1 \<and> bio_get_string16 mr r1 = (x, len, r2) \<and>
      x \<noteq> NULL \<and> load_u16s mr x (unat len) = map ucast s \<and> bio_get_ref mr r2 = (h, r3) \<and>
      bio_get_uint32 mr r3 = (0, r4)"
proof -
  let ?s = "(bio_init (junk_io im) (caller_iodata im) 512 4, m)"
  let ?head = "[PutU32 0, PutStr16x mgr, PutStr16x a]"
  have inv: "bio_inv (unat (caller_iodata im)) (unat (caller_iodata im) + 16) (unat (caller_iodata im) + 512) (fst ?s)"
    using bio_init_inv [of "caller_iodata im" 512 4 "junk_io im"] buf by (simp add: iodata_ok_def)
  note sems = name_sem [OF buf mgr, of "junk_io im"] name_sem [OF buf name, of "junk_io im"]
  have room: "val_size (VStr (map ucast s :: u16 list)) \<le> 4 + (2 * Suc 127 + 3) div 4 * 4"
    using len by (intro string_room) simp
  obtain b1 m1 where run: "run_all bio_put (?head @ [PutObj ptr]) ?s = Some (b1, m1)"
    and ok: "\<not> overflowed b1" and ext: "bio_ext ?s (b1, m1)"
  proof (rule short_message [OF buf, of "junk_io im" m "?head @ [PutObj ptr]"
        "[VU32 0, VStr svcmgr_id, VStr (map ucast s), VRef 0]"], goal_cases)
    case 1
    then show ?case using sems by (simp add: svc_mgr_name)
  next
    case 2
    then show ?case using room by (simp add: svc_mgr_name)
  qed auto
  have "\<forall>v\<in>set ?head. item_ok v ?s" using sems [THEN item_sem_ok] by simp
  from items.put_all_returns [OF inv] this obtain b0 m0 where head: "run_all bio_put ?head ?s = Some (b0, m0)"
    and ext0: "bio_ext ?s (b0, m0)" by fastforce
  note inv0 = bio_ext_inv [OF inv [unfolded fst_conv] ext0]
  have put: "bio_put_obj ptr (b0, m0) = (b1, m1)"
    using run head by (simp only: run_all_append) simp
  have "(1 :: u32) \<noteq> 0" by simp
  note obj = put_obj_as_ref(2) [OF inv0 put ok this]
  have reads: "\<exists>r'. read_all bio_get_item (map item_kind (?head @ [PutRef h])) mr (bio_init_from_txn r t) =
        ([VU32 0, VStr svcmgr_id, VStr (map ucast s), VRef h], r') \<and> io_data_avail r' = 0"
    if h: "h \<noteq> 0" and c: "carried (b1, driver_handle m1 (io_data b1 - 16) h) t mr" for h t mr r
  proof (rule short_message [OF buf, of "junk_io im" m "?head @ [PutRef h]"
        "[VU32 0, VStr svcmgr_id, VStr (map ucast s), VRef h]"], goal_cases)
    case 1
    then show ?case using sems h by (simp add: svc_mgr_name)
  next
    case 2
    then show ?case using room by (simp add: svc_mgr_name)
  next
    case (4 b2 m2)
    have "run_all bio_put (?head @ [PutRef h]) ?s = Some (b1, driver_handle m1 (io_data b1 - 16) h)"
      using head put_obj_as_ref(1) [OF inv0 put ok h]
      by (simp only: run_all_append) simp
    with 4 c show ?case by simp
  qed auto
  show ?thesis
  proof (rule that [OF _ ok ext])
    show "unat (caller_iodata im) + 32 \<le> unat (io_data b1)" using obj by simp
    show "publish_msg im mgr a ptr m = Some (b1, m1)" using run by (simp only: publish_msg_run append.simps)
    fix h t mr r
    assume "h \<noteq> 0" and "carried (b1, driver_handle m1 (io_data b1 - 16) h) t mr"
    from reads [OF this, of r] show "\<exists>r1 r2 r3 r4 x len.
      after_interface mr (bio_init_from_txn r t) = Some r1 \<and> bio_get_string16 mr r1 = (x, len, r2) \<and>
      x \<noteq> NULL \<and> load_u16s mr x (unat len) = map ucast s \<and> bio_get_ref mr r2 = (h, r3) \<and>
      bio_get_uint32 mr r3 = (0, r4)"
      unfolding list.map append.simps item_kind.simps read_simps
      by (metis reads_interface read_past_end prod.collapse)
  qed
qed

subsection \<open>Replies\<close>

text \<open>The array \<open>rdata\<close> of \<open>binder_parse\<close> lies in memory.\<close>

definition rdata_ok :: "'g image \<Rightarrow> bool" where
  "rdata_ok im \<longleftrightarrow> 0 < unat (parse_rdata im) \<and> unat (parse_rdata im) + 256 < 4294967296"

lemma reply_inv:
  assumes "rdata_ok im"
  shows "bio_inv (unat (parse_rdata im)) (unat (parse_rdata im) + 16) (unat (parse_rdata im) + 256) (reply_for im)"
  using bio_init_inv [of "parse_rdata im" 256 4 "junk_io im"] assms by (simp add: rdata_ok_def reply_for_def)

lemma reply_message:
  assumes "rdata_ok im" and "item_sem v (reply_for im, m) w" and "val_size w \<le> 240" and "val_objs w \<le> 4"
  obtains b1 m1 where "bio_put v (reply_for im, m) = Some (b1, m1)" and "\<not> overflowed b1"
    and "bio_ext (reply_for im, m) (b1, m1)"
    and "\<And>t mr r. carried (b1, m1) t mr \<Longrightarrow>
       \<exists>r'. bio_get_item (item_kind v) mr (bio_init_from_txn r t) = (w, r')"
proof (rule message_fits [of "parse_rdata im" 256 4 "junk_io im" m "[v]" "[w]"], goal_cases)
  case (7 b1 m1)
  note sent = 7(2-5) [unfolded reply_for_def [symmetric]]
  show ?case
  proof (rule that [OF _ sent(2,3)])
    show "bio_put v (reply_for im, m) = Some (b1, m1)"
      using sent(1) by (auto split: Option.bind_splits)
    show "\<exists>r'. bio_get_item (item_kind v) mr (bio_init_from_txn r t) = (w, r')" if "carried (b1, m1) t mr" for t mr r
      using sent(4) [OF that, of r] by (auto simp only: list.map read_simps)
  qed
qed (use assms in \<open>simp_all add: rdata_ok_def reply_for_def\<close>)

lemma number_reply:
  assumes "rdata_ok im" and "bio_put_uint32 n (reply_for im, m) = (b1, m1)"
  shows "\<not> overflowed b1" and "bio_ext (reply_for im, m) (b1, m1)"
    and "carried (b1, m1) t mr \<Longrightarrow> fst (bio_get_uint32 mr (bio_init_from_txn r t)) = n"
proof -
  obtain b m' where sent: "bio_put (PutU32 n) (reply_for im, m) = Some (b, m')" "\<not> overflowed b"
      "bio_ext (reply_for im, m) (b, m')"
    and read: "\<And>t mr r. carried (b, m') t mr \<Longrightarrow>
      \<exists>r'. bio_get_item (item_kind (PutU32 n)) mr (bio_init_from_txn r t) = (VU32 n, r')"
    using reply_message [OF assms(1), of "PutU32 n" m "VU32 n"] by auto
  have b: "b = b1" "m' = m1" using sent(1) assms(2) by simp_all
  with sent show "\<not> overflowed b1" "bio_ext (reply_for im, m) (b1, m1)" by simp_all
  show "fst (bio_get_uint32 mr (bio_init_from_txn r t)) = n" if "carried (b1, m1) t mr"
    using read [of t mr r] that b by (auto simp only: item_kind.simps read_u32 fst_conv True_implies_equals)
qed

lemma handle_reply:
  assumes "rdata_ok im" and put: "put_handle h (reply_for im, m) = (b1, m1)"
  shows "\<not> overflowed b1 \<and> bio_ext (reply_for im, m) (b1, m1) \<and>
    (\<forall>t mr r. carried (b1, m1) t mr \<longrightarrow> fst (bio_get_ref mr (bio_init_from_txn r t)) = h)"
proof (cases "h = 0")
  case True
  with put have put: "bio_put_uint32 0 (reply_for im, m) = (b1, m1)" by (simp add: put_handle_def)
  note sent = number_reply(1,2) [OF assms(1) put]
  have "4 \<le> unat (io_data_avail (reply_for im))"
    by (simp add: reply_for_def bio_init_def Let_def sizeof_size_t_def)
  from put_uint32_fits [OF reply_inv [OF assms(1)] this] put
  have "io_offs b1 = io_offs0 b1" by (auto simp: reply_for_def bio_init_def Let_def sizeof_size_t_def)
  then have "fst (bio_get_ref mr (bio_init_from_txn r t)) = 0" if "carried (b1, m1) t mr" for t mr r
    using that by (intro read_no_objects) (simp add: carried_def bio_init_from_txn_def)
  with sent True show ?thesis by simp
next
  case False
  then have put: "bio_put_ref h (reply_for im, m) = (b1, m1)" using put by (simp add: put_handle_def)
  obtain b m' where sent: "bio_put (PutRef h) (reply_for im, m) = Some (b, m')" "\<not> overflowed b"
      "bio_ext (reply_for im, m) (b, m')"
    and read: "\<And>t mr r. carried (b, m') t mr \<Longrightarrow>
      \<exists>r'. bio_get_item (item_kind (PutRef h)) mr (bio_init_from_txn r t) = (VRef h, r')"
    using False reply_message [OF assms(1), of "PutRef h" m "VRef h"] by auto
  have b: "b = b1" "m' = m1" using sent(1) put by simp_all
  have "fst (bio_get_ref mr (bio_init_from_txn r t)) = h" if "carried (b1, m1) t mr" for t mr r
    using read [of t mr r] that b by (auto simp only: item_kind.simps read_ref fst_conv True_implies_equals)
  with sent b show ?thesis by blast
qed

text \<open>A string of more than 117 units does not fit behind the length word: the reply is marked as
  overflowed and holds the length word only.\<close>

lemma long_string_reply:
  assumes "rdata_ok im" and sem: "item_sem (PutStr16 a) (reply_for im, m) (VStr us)" and long: "117 < length us"
  obtains b1 m1 where "bio_put_string16 a (reply_for im, m) = Some (b1, m1)" and "overflowed b1"
    and "bio_ext (reply_for im, m) (b1, m1)"
    and "\<And>t mr r. carried (b1, m1) t mr \<Longrightarrow>
       \<exists>r'. bio_get_string16 mr (bio_init_from_txn r t) = (NULL, of_nat (length us), r')"
proof -
  let ?n = "of_nat (length us) :: u32" and ?b = "reply_for im"
  let ?sz = "(?n + 1) * sizeof_uint16"
  note inv = reply_inv [OF assms(1)]
  have us: "a \<noteq> NULL" "length us < 536870912" "cstr16 m a us" "no_wrap a (2 * Suc (length us))"
    "region a (2 * Suc (length us)) \<inter> bio_free ?b = {}" using sem by auto
  have sz: "unat ?sz = 2 * Suc (length us)"
    using string_size(2) [OF _ string_bound [OF us(2)]] us(2) by simp
  have big: "238 \<le> unat (align4 ?sz)" using long us(2) by (subst align4_small) (simp_all add: sz)
  have av: "unat (io_data_avail ?b) = 240"
    by (simp add: reply_for_def bio_init_def Let_def sizeof_size_t_def)
  have data0: "io_data0 ?b = io_data ?b" by (simp add: reply_for_def bio_init_def Let_def sizeof_size_t_def)
  have "no_wrap (io_data ?b) 4" using inv av by (simp add: bio_inv_def no_wrap_def)
  then have stored: "load_bytes (store_bytes m (io_data ?b) (le32 ?n)) (io_data ?b) 4 = le32 ?n"
    using load_bytes_store_same [of "io_data ?b" "le32 ?n" m] by simp
  from av have put: "bio_put_uint32 ?n (?b, m) = (bio_advance ?b 4, store32 m (io_data ?b) ?n)"
    by (intro put_uint32_fits [OF inv]) simp
  have alloc: "bio_alloc (bio_advance ?b 4) ?sz = (NULL, set_overflow (bio_advance ?b 4))"
    by (rule bio_alloc_full) (use big av in \<open>simp add: unat_sub word_le_nat_alt\<close>)
  note run = put_string16_steps [OF inv us put alloc]
  show ?thesis
  proof (rule that [OF run])
    show "overflowed (set_overflow (bio_advance ?b 4))" by simp
    show "bio_ext (?b, m) (set_overflow (bio_advance ?b 4), if NULL = NULL then store32 m (io_data ?b) ?n
        else store_bytes (store32 m (io_data ?b) ?n) NULL (enc16 (us @ [0])))"
      using string_steps_ext [OF inv us(2) put alloc, of "enc16 (us @ [0])"] by simp
    fix t mr r
    assume "carried (set_overflow (bio_advance ?b 4), if NULL = NULL then store32 m (io_data ?b) ?n
        else store_bytes (store32 m (io_data ?b) ?n) NULL (enc16 (us @ [0]))) t mr"
    then have c: "txn_data_size t = 4" "txn_buffer t \<noteq> NULL" "load_bytes mr (txn_buffer t) 4 = le32 ?n"
      using stored by (auto simp: carried_def data0 store32_def set_overflow_def simp del: load_bytes_numeral)
    let ?r = "bio_init_from_txn r t"
    have "bio_get_uint32 mr ?r = (?n, bio_advance ?r 4)"
      using c load32_bytes [OF c(3)] by (simp add: bio_get_uint32_def bio_get_fits bio_init_from_txn_def)
    moreover have "fst (bio_get (bio_advance ?r 4) ?sz) = NULL"
      using big c(1) by (simp add: bio_get_full bio_init_from_txn_def)
    ultimately show "\<exists>r'. bio_get_string16 mr ?r = (NULL, ?n, r')"
      by (cases "bio_get (bio_advance ?r 4) ?sz") (simp add: bio_get_string16_def)
  qed
qed

text \<open>What the reader of a string reply gets: the units, or NULL if they did not fit.\<close>

fun name_or_null :: "u16 list \<Rightarrow> mem \<Rightarrow> addr \<times> u32 \<times> binder_io \<Rightarrow> bool" where
  "name_or_null us m (x, len, r) \<longleftrightarrow> len = of_nat (length us) \<and>
     (if length us \<le> 117 then x \<noteq> NULL \<and> load_u16s m x (length us) = us else x = NULL)"

lemma string_reply:
  assumes "rdata_ok im" and sem: "item_sem (PutStr16 a) (reply_for im, m) (VStr us)"
  obtains b1 m1 where "bio_put_string16 a (reply_for im, m) = Some (b1, m1)"
    and "overflowed b1 \<longleftrightarrow> 117 < length us" and "bio_ext (reply_for im, m) (b1, m1)"
    and "\<And>t mr r. carried (b1, m1) t mr \<Longrightarrow> name_or_null us mr (bio_get_string16 mr (bio_init_from_txn r t))"
proof (cases "117 < length us")
  case True
  show ?thesis
  proof (rule long_string_reply [OF assms True], goal_cases)
    case (1 b1 m1)
    show ?case
    proof (rule that [OF 1(1) _ 1(3)])
      show "overflowed b1 \<longleftrightarrow> 117 < length us" using 1(2) True by simp
      show "name_or_null us mr (bio_get_string16 mr (bio_init_from_txn r t))" if "carried (b1, m1) t mr" for t mr r
        using 1(4) [OF that, of r] True by auto
    qed
  qed
next
  case False
  then have fits: "val_size (VStr us) \<le> 240" using string_room [of us 117] by simp
  show ?thesis
  proof (rule reply_message [OF assms fits], goal_cases)
    case 1
    then show ?case by simp
  next
    case (2 b1 m1)
    show ?case
    proof (rule that)
      show "bio_put_string16 a (reply_for im, m) = Some (b1, m1)" using 2(1) by simp
      show "bio_ext (reply_for im, m) (b1, m1)" by (rule 2(3))
      show "overflowed b1 \<longleftrightarrow> 117 < length us" using 2(2) False by simp
      fix t mr r
      assume "carried (b1, m1) t mr"
      from 2(4) [OF this, of r] obtain x len r' where g: "bio_get_string16 mr (bio_init_from_txn r t) = (x, len, r')"
        "x \<noteq> NULL" "load_u16s mr x (unat len) = us"
        by (auto simp only: item_kind.simps read_str)
      then have "unat len = length us" by (metis length_load_u16s)
      moreover from this have "len = of_nat (length us)" by (metis of_nat_unat ucast_id)
      ultimately show "name_or_null us mr (bio_get_string16 mr (bio_init_from_txn r t))" using g False by auto
    qed
  qed
qed

subsection \<open>Messages in place\<close>

text \<open>
  For the examples: the transaction \<open>binder_call\<close> sends, when the receiver shares the sender's
  memory, so that the driver has nothing to copy but the transaction itself, to \<open>a\<close>.
\<close>

definition in_place :: "u32 \<Rightarrow> binder_io \<Rightarrow> binder_transaction_data" where
  "in_place code b = \<lparr>txn_target = 0, txn_cookie = 0, txn_code = code, txn_flags = 0, txn_sender_pid = 0,
     txn_sender_euid = 1000, txn_data_size = io_data b - io_data0 b,
     txn_offsets_size = io_offs b - io_offs0 b, txn_buffer = io_data0 b, txn_offsets = io_offs0 b\<rparr>"

definition handed :: "addr \<Rightarrow> u32 \<Rightarrow> binder_io \<Rightarrow> mem \<Rightarrow> mem" where
  "handed a code b m = store_bytes m a (encode_txn (in_place code b))"

lemma handed_txn:
  assumes "no_wrap a 40"
  shows "load_txn (handed a code b m) a = in_place code b"
    and "agree_on (- region a 40) m (handed a code b m)"
  using assms agree_on_store_bytes [of a "encode_txn (in_place code b)" "- region a 40" m]
  by (simp_all add: handed_def load_txn_store)

lemma handed_carried:
  assumes ext: "bio_ext (bio_init j buf n 4, m0) (b, m)" and n: "16 \<le> unat n"
    and buf: "0 < unat buf" "unat buf + unat n < 4294967296"
    and a: "no_wrap a 40" "region a 40 \<inter> region buf (unat n) = {}"
  shows "carried (b, m') (in_place code b) (handed a code b m')"
    and "txn_in (region buf (unat n)) (in_place code b)"
proof -
  have inv: "bio_inv (unat buf) (unat buf + 16) (unat buf + unat n) b"
    using bio_ext_inv [OF bio_init_inv ext] n buf by simp
  have bytes: "load_bytes (handed a code b m') x k = load_bytes m' x k"
    if "unat buf \<le> unat x" "unat x + k \<le> unat buf + unat n" for x k
    using that a(2) buf(2) by (intro load_bytes_agree [OF handed_txn(2) [OF a(1)]])
      (fastforce simp: in_region no_wrap_def)+
  have sizes: "unat (io_data b - io_data0 b) + unat (io_data0 b) \<le> unat buf + unat n"
    "unat (io_offs b - io_offs0 b) + unat (io_offs0 b) \<le> unat buf + unat n"
    "unat buf < unat (io_data0 b)" "unat (io_offs0 b) = unat buf"
    using inv by (simp_all add: bio_inv_def unat_sub word_le_nat_alt)
  then show "carried (b, m') (in_place code b) (handed a code b m')"
    using buf by (auto simp: carried_def in_place_def bytes no_wrap_def)
  show "txn_in (region buf (unat n)) (in_place code b)"
    using sizes buf by (auto simp: txn_in_def in_place_def in_region)
qed

definition client_image :: "svcmgr_globals image" where
  "client_image = demo_image\<lparr>caller_iodata := 0x80400\<rparr>"

text \<open>The memory of a client, over the registry with "hi" of \<open>demo_state\<close>: the names at
  0x81000 and \<open>s\<close> at 0x81100.\<close>

definition client_mem :: "byte list \<Rightarrow> mem" where
  "client_mem s = store_bytes (store_bytes demo_mem 0x81000 (svc_mgr_name @ [0])) 0x81100 (s @ [0])"

lemma client_names:
  "name_in (client_mem [0x68, 0x69]) (caller_iodata client_image) 0x81000 svc_mgr_name"
  "name_in (client_mem [0x68, 0x69]) (caller_iodata client_image) 0x81100 [0x68, 0x69]"
  "name_in (client_mem [0x79, 0x6F]) (caller_iodata client_image) 0x81000 svc_mgr_name"
  "name_in (client_mem [0x79, 0x6F]) (caller_iodata client_image) 0x81100 [0x79, 0x6F]"
proof -
  have "cstr (client_mem [0x68, 0x69]) 0x81000 svc_mgr_name" "cstr (client_mem [0x79, 0x6F]) 0x81000 svc_mgr_name"
    by code_simp+
  then show "name_in (client_mem [0x68, 0x69]) (caller_iodata client_image) 0x81000 svc_mgr_name"
    "name_in (client_mem [0x79, 0x6F]) (caller_iodata client_image) 0x81000 svc_mgr_name"
    by (auto simp: name_in_def client_image_def svc_mgr_name no_wrap_def in_region)
  have "cstr (client_mem [0x68, 0x69]) 0x81100 [0x68, 0x69]" "cstr (client_mem [0x79, 0x6F]) 0x81100 [0x79, 0x6F]"
    by code_simp+
  then show "name_in (client_mem [0x68, 0x69]) (caller_iodata client_image) 0x81100 [0x68, 0x69]"
    "name_in (client_mem [0x79, 0x6F]) (caller_iodata client_image) 0x81100 [0x79, 0x6F]"
    by (auto simp: name_in_def client_image_def no_wrap_def in_region)
qed

lemma client_iodata: "iodata_ok (caller_iodata client_image)" "caller_iodata client_image = 0x80400"
  by (simp_all add: iodata_ok_def client_image_def)

lemma demo_rdata: "rdata_ok demo_image"
  by (simp add: rdata_ok_def demo_image_def svcmgr_linked_def)

lemma client_mem_registry:
  assumes "agree_on (- srv_shared demo) (client_mem s) m" and "length s < 256"
  shows "registry 0x9100 (srv_shared demo) [demo_service] (demo_state\<lparr>pmem := m\<rparr>)"
proof -
  have "agree_on (- srv_shared demo) demo_mem (client_mem s)"
    unfolding client_mem_def using assms(2)
    by (intro agree_on_trans [OF agree_on_store_bytes agree_on_store_bytes])
      (auto simp: no_wrap_def svc_mgr_name demo_def in_region)
  from agree_on_trans [OF this assms(1)] show ?thesis
    using demo_registry
    by (intro registry_stable [OF demo_registry]) (auto simp: registry_def demo_state_def)
qed

text \<open>What building and handing over a message changes.\<close>

lemma client_msg_agree:
  assumes "bio_ext (bio_init j 0x80400 512 4, client_mem s) (msg, m1)"
  shows "agree_on (- srv_shared demo) (client_mem s) m1"
proof -
  have "bio_free (bio_init j 0x80400 512 4) \<subseteq> region 0x80400 512"
    by (rule iodata_free) (simp add: iodata_ok_def)
  moreover have "region 0x80400 512 \<subseteq> srv_shared demo" by (auto simp: demo_def in_region)
  ultimately show ?thesis by (intro agree_on_mono [OF bio_ext_agree [OF assms]]) blast
qed

lemma handed_agree: "agree_on (- srv_shared demo) m (handed 0x1004 code b m)"
  by (rule agree_on_mono [OF handed_txn(2)]) (auto simp: demo_def in_region no_wrap_def)

lemma handle_agree:
  assumes "region 0x80400 512 \<subseteq> S" and "unat (0x80400 :: addr) + 32 \<le> unat e" and "unat e \<le> 0x80600"
  shows "agree_on (- S) m (driver_handle m (e - 16) h)"
proof -
  have u: "unat (e - 16) = unat e - 16" using assms(2) by (simp add: unat_sub word_le_nat_alt)
  then have u8: "unat (e - 16 + 8) = unat e - 8" using assms(2,3) by (subst unat_add_nowrap) simp_all
  have "x \<in> S" if "unat e - 16 \<le> unat x" "unat x < unat e" for x
    using assms(1) that assms(2,3) by (intro subsetD [OF assms(1)]) (simp add: in_region)
  then have S: "- S \<inter> region (e - 16) 4 = {}" "- S \<inter> region (e - 16 + 8) 4 = {}"
    using assms(2) unfolding disjoint_iff in_region u u8 by force+
  have "no_wrap (e - 16) 4" "no_wrap (e - 16 + 8) 4"
    using assms(2,3) unfolding no_wrap_def u u8 by simp_all
  with S show ?thesis
    unfolding driver_handle_def by (intro agree_on_trans [OF agree_on_store32 agree_on_store32])
qed

subsection \<open>Properties\<close>

text \<open>C8: a lookup reaches the service manager and its answer comes back: the message that
  \<open>svcmgr_lookup\<close> builds for a name of at most 213 characters fits its buffer; however the driver
  carries it, the service manager answers with status 0; and however the reply is carried, the
  client reads the handle that the registry shows under the name to a caller with its user id,
  0 if there is none. Looking up changes nothing but the reply buffer and the print buffer.\<close>
theorem lookup_end_to_end:
  assumes "iodata_ok (caller_iodata im)" and "name_in m (caller_iodata im) mgr svc_mgr_name"
    and "name_in m (caller_iodata im) a s" and "length s \<le> 213"
    and "registry fn S ss p" and "rdata_ok im'"
    and "txn_target (load_txn (pmem p) txn) = svcmgr_handle (globals p)"
    and "txn_code (load_txn (pmem p) txn) \<in> {SVC_MGR_GET_SERVICE, SVC_MGR_CHECK_SERVICE}"
  shows "\<exists>msg m1. lookup_msg im mgr a m = Some (msg, m1) \<and> \<not> overflowed msg \<and>
    (carried (msg, m1) (load_txn (pmem p) txn) (pmem p) \<longrightarrow>
      (\<exists>rest reply x n m2. svcmgr_handler im' fn bs txn (msg_for im' txn p) (reply_for im') p =
           returns (0, rest, reply) ((call_str8 x n p)\<lparr>pmem := m2\<rparr>) \<and>
         \<not> overflowed reply \<and> agree_on (- bio_free (reply_for im')) (pmem p) m2 \<and>
         (\<forall>t mr r. carried (reply, m2) t mr \<longrightarrow>
            fst (bio_get_ref mr (bio_init_from_txn r t)) =
              visible ss (map ucast s) (txn_sender_euid (load_txn (pmem p) txn)))))"
proof -
  let ?t = "load_txn (pmem p) txn"
  obtain msg m1 where msg: "lookup_msg im mgr a m = Some (msg, m1)" "\<not> overflowed msg"
    and reads: "\<And>t mr r. carried (msg, m1) t mr \<Longrightarrow> \<exists>r1 r2 x len.
      after_interface mr (bio_init_from_txn r t) = Some r1 \<and> bio_get_string16 mr r1 = (x, len, r2) \<and>
      x \<noteq> NULL \<and> load_u16s mr x (unat len) = map ucast s"
    by (rule lookup_msg_read [OF assms(1-4)]) (rule that)
  have "\<exists>rest reply x n m2. svcmgr_handler im' fn bs txn (msg_for im' txn p) (reply_for im') p =
           returns (0, rest, reply) ((call_str8 x n p)\<lparr>pmem := m2\<rparr>) \<and>
         \<not> overflowed reply \<and> agree_on (- bio_free (reply_for im')) (pmem p) m2 \<and>
         (\<forall>t mr r. carried (reply, m2) t mr \<longrightarrow>
            fst (bio_get_ref mr (bio_init_from_txn r t)) = visible ss (map ucast s) (txn_sender_euid ?t))"
    if c: "carried (msg, m1) ?t (pmem p)"
  proof -
    from reads [OF c, of "junk_io im'"] obtain r1 r2 x len
      where r: "after_interface (pmem p) (msg_for im' txn p) = Some r1"
        "bio_get_string16 (pmem p) r1 = (x, len, r2)" "x \<noteq> NULL" "load_u16s (pmem p) x (unat len) = map ucast s"
      by (auto simp: msg_for_def)
    have "txn_code ?t \<noteq> PING_TRANSACTION" using assms(8) by (auto simp: ping_code svc_mgr_codes)
    with r(1) assms(7) have rq: "is_request p txn (msg_for im' txn p) r1" by (simp add: is_request_def)
    obtain reply m2 where put: "put_handle (visible ss (load_u16s (pmem p) x (unat len)) (txn_sender_euid ?t))
        (reply_for im', pmem p) = (reply, m2)" by fastforce
    from handler_find [OF assms(5) rq assms(8) r(2,3) put] handle_reply [OF assms(6) put]
    show ?thesis unfolding r(4) by (blast dest: bio_ext_agree)
  qed
  with msg show ?thesis by blast
qed

theorem lookup_end_to_end_witness:
  "\<exists>msg m1. lookup_msg client_image 0x81000 0x81100 (client_mem [0x68, 0x69]) = Some (msg, m1) \<and>
     (let p = demo_state\<lparr>pmem := handed 0x1004 SVC_MGR_CHECK_SERVICE msg m1\<rparr> in
      \<exists>rest reply p'. svcmgr_handler demo_image 0x9100 example_bs 0x1004 (msg_for demo_image 0x1004 p)
           (reply_for demo_image) p = returns (0, rest, reply) p' \<and>
         (\<forall>t mr r. carried (reply, pmem p') t mr \<longrightarrow> fst (bio_get_ref mr (bio_init_from_txn r t)) = 7))"
proof -
  let ?m = "client_mem [0x68, 0x69]"
  obtain msg m1 where msg: "lookup_msg client_image 0x81000 0x81100 ?m = Some (msg, m1)"
    and ext: "bio_ext (bio_init (junk_io client_image) (caller_iodata client_image) 512 4, ?m) (msg, m1)"
    by (rule lookup_msg_read [OF client_iodata(1) client_names(1,2)]) (simp, rule that)
  note ext = ext [unfolded client_iodata(2)]
  let ?p = "demo_state\<lparr>pmem := handed 0x1004 SVC_MGR_CHECK_SERVICE msg m1\<rparr>"
  have t: "load_txn (pmem ?p) 0x1004 = in_place SVC_MGR_CHECK_SERVICE msg"
    by (simp add: handed_txn no_wrap_def)
  have c: "carried (msg, m1) (load_txn (pmem ?p) 0x1004) (pmem ?p)"
    unfolding t by simp (rule handed_carried(1) [OF ext]; auto simp: no_wrap_def in_region)
  have reg: "registry 0x9100 (srv_shared demo) [demo_service] ?p"
    by (rule client_mem_registry [OF agree_on_trans [OF client_msg_agree [OF ext] handed_agree]]) simp
  have see: "visible [demo_service] (map ucast [0x68, 0x69 :: byte]) (txn_sender_euid (load_txn (pmem ?p) 0x1004)) = 7"
    unfolding t by (simp add: in_place_def visible_def reg_find_def demo_service_def is_isolated_def)
  have code: "txn_target (load_txn (pmem ?p) 0x1004) = svcmgr_handle (globals ?p)"
    "txn_code (load_txn (pmem ?p) 0x1004) \<in> {SVC_MGR_GET_SERVICE, SVC_MGR_CHECK_SERVICE}"
    unfolding t by (simp_all add: in_place_def demo_state_def demo_start_def)
  from lookup_end_to_end [OF client_iodata(1) client_names(1,2) _ reg demo_rdata code, where bs = example_bs]
    msg c see show ?thesis by (fastforce simp: Let_def)
qed

text \<open>C7: publishing registers: the message that \<open>svcmgr_publish\<close> builds for a name of at most 127
  characters fits its buffer; when the driver carries it, with the object turned into the handle
  \<open>h\<close>, the service manager adds exactly this name with this handle to its registry, not open to
  isolated callers, so that after a success the others find \<open>h\<close> under the name. A name that is
  registered already gets the handle; the empty name is refused, and so is a new name when
  \<open>malloc\<close> gives NULL, but no other.\<close>
theorem publish_end_to_end:
  assumes "iodata_ok (caller_iodata im)" and "name_in m (caller_iodata im) mgr svc_mgr_name"
    and "name_in m (caller_iodata im) a s" and "length s \<le> 127" and "h \<noteq> 0"
    and "registry fn S ss p" and "reply_room S {} (reply_for im')"
    and "malloc_ok im' S" and "honest_kernel im' area" and "area \<subseteq> S"
    and "txn_in area (load_txn (pmem p) txn)"
    and "txn_target (load_txn (pmem p) txn) = svcmgr_handle (globals p)"
    and "txn_code (load_txn (pmem p) txn) = SVC_MGR_ADD_SERVICE"
  shows "\<exists>msg m1. publish_msg im mgr a ptr m = Some (msg, m1) \<and> \<not> overflowed msg \<and>
    (carried (msg, driver_handle m1 (io_data msg - 16) h) (load_txn (pmem p) txn) (pmem p) \<longrightarrow>
      wp (svcmgr_handler im' fn bs txn (msg_for im' txn p) (reply_for im') p)
        (\<lambda>(res, _, _) p'. \<exists>ss'. registry fn S ss' p' \<and> add_result (svc_block im' (map ucast s) p) ss (map ucast s) h 0 = (res, ss') \<and>
           (res = 0 \<longrightarrow> (\<forall>uid. \<not> is_isolated uid \<longrightarrow> visible ss' (map ucast s) uid = h)))
        (\<lambda>p'. \<exists>ss'. registry fn S ss' p'))"
proof -
  let ?t = "load_txn (pmem p) txn"
  obtain msg m1 where msg: "publish_msg im mgr a ptr m = Some (msg, m1)" "\<not> overflowed msg"
    and reads: "\<And>h t mr r. h \<noteq> 0 \<Longrightarrow> carried (msg, driver_handle m1 (io_data msg - 16) h) t mr \<Longrightarrow>
      \<exists>r1 r2 r3 r4 x len. after_interface mr (bio_init_from_txn r t) = Some r1 \<and>
        bio_get_string16 mr r1 = (x, len, r2) \<and> x \<noteq> NULL \<and> load_u16s mr x (unat len) = map ucast s \<and>
        bio_get_ref mr r2 = (h, r3) \<and> bio_get_uint32 mr r3 = (0, r4)"
    by (rule publish_msg_read [OF assms(1-4)]) (rule that)
  have "wp (svcmgr_handler im' fn bs txn (msg_for im' txn p) (reply_for im') p)
        (\<lambda>(res, _, _) p'. \<exists>ss'. registry fn S ss' p' \<and> add_result (svc_block im' (map ucast s) p) ss (map ucast s) h 0 = (res, ss') \<and>
           (res = 0 \<longrightarrow> (\<forall>uid. \<not> is_isolated uid \<longrightarrow> visible ss' (map ucast s) uid = h)))
        (\<lambda>p'. \<exists>ss'. registry fn S ss' p')"
    if c: "carried (msg, driver_handle m1 (io_data msg - 16) h) ?t (pmem p)"
  proof -
    from reads [OF assms(5) c, of "junk_io im'"] obtain r1 r2 r3 r4 x len
      where r: "after_interface (pmem p) (msg_for im' txn p) = Some r1"
        "bio_get_string16 (pmem p) r1 = (x, len, r2)" "x \<noteq> NULL" "load_u16s (pmem p) x (unat len) = map ucast s"
        "bio_get_ref (pmem p) r2 = (h, r3)" "bio_get_uint32 (pmem p) r3 = (0, r4)"
      by (auto simp: msg_for_def)
    have "is_request p txn (msg_for im' txn p) r1"
      using r(1) assms(12,13) by (simp add: is_request_def ping_code svc_mgr_codes)
    from add_request_adds [OF assms(6) this assms(13) r(2,3,5,6) msg_for_in [OF assms(11,10)] assms(7-10)]
    show ?thesis unfolding r(4) by (rule wp_mono) auto
  qed
  with msg show ?thesis by blast
qed

theorem publish_end_to_end_witness:
  "\<exists>msg m1. publish_msg client_image 0x81000 0x81100 0x9999 (client_mem [0x79, 0x6F]) = Some (msg, m1) \<and>
     (let p = demo_state\<lparr>pmem := handed 0x1004 SVC_MGR_ADD_SERVICE msg (driver_handle m1 (io_data msg - 16) 5)\<rparr> in
      wp (svcmgr_handler demo_image 0x9100 example_bs 0x1004 (msg_for demo_image 0x1004 p) (reply_for demo_image) p)
        (\<lambda>(res, _, _) p'. \<exists>ss'. registry 0x9100 (srv_shared demo) ss' p' \<and>
           res = 0 \<and> visible ss' [0x79, 0x6F] 1000 = 5)
        (\<lambda>p'. \<exists>ss'. registry 0x9100 (srv_shared demo) ss' p'))"
proof -
  let ?m = "client_mem [0x79, 0x6F]"
  obtain msg m1 where msg: "publish_msg client_image 0x81000 0x81100 0x9999 ?m = Some (msg, m1)"
    and ext: "bio_ext (bio_init (junk_io client_image) (caller_iodata client_image) 512 4, ?m) (msg, m1)"
    and end_: "unat (caller_iodata client_image) + 32 \<le> unat (io_data msg)"
    by (rule publish_msg_read [OF client_iodata(1) client_names(3,4)]) (simp, rule that)
  note ext = ext [unfolded client_iodata(2)] and end_ = end_ [unfolded client_iodata(2)]
  let ?m1 = "driver_handle m1 (io_data msg - 16) 5"
  let ?p = "demo_state\<lparr>pmem := handed 0x1004 SVC_MGR_ADD_SERVICE msg ?m1\<rparr>"
  have t: "load_txn (pmem ?p) 0x1004 = in_place SVC_MGR_ADD_SERVICE msg"
    by (simp add: handed_txn no_wrap_def)
  have c: "carried (msg, ?m1) (load_txn (pmem ?p) 0x1004) (pmem ?p)"
    unfolding t by simp (rule handed_carried(1) [OF ext]; auto simp: no_wrap_def in_region)
  have ti: "txn_in (srv_area demo) (load_txn (pmem ?p) 0x1004)"
  proof -
    have "txn_in (region 0x80400 (unat (512 :: u32))) (in_place SVC_MGR_ADD_SERVICE msg)"
      by (rule handed_carried(2) [OF ext, where a = "0x1004"]) (auto simp: no_wrap_def in_region)
    moreover have "region 0x80400 (unat (512 :: u32)) \<subseteq> srv_area demo" by (auto simp: demo_def in_region)
    ultimately show ?thesis unfolding t txn_in_def by blast
  qed
  have "bio_inv 0x80400 0x80410 0x80600 msg"
    using bio_ext_inv [OF bio_init_inv ext] by simp
  then have "unat (io_data msg) \<le> 0x80600" by (simp add: bio_inv_def)
  note in_msg = handle_agree [OF _ end_ this]
  have reg: "registry 0x9100 (srv_shared demo) [demo_service] ?p"
  proof (rule client_mem_registry [OF agree_on_trans])
    show "agree_on (- srv_shared demo) (client_mem [0x79, 0x6F]) m1" by (rule client_msg_agree [OF ext])
    show "agree_on (- srv_shared demo) m1 (handed 0x1004 SVC_MGR_ADD_SERVICE msg ?m1)"
      by (rule agree_on_trans [OF in_msg handed_agree]) (auto simp: demo_def in_region)
  qed simp
  have code: "txn_target (load_txn (pmem ?p) 0x1004) = svcmgr_handle (globals ?p)"
    "txn_code (load_txn (pmem ?p) 0x1004) = SVC_MGR_ADD_SERVICE"
    unfolding t by (simp_all add: in_place_def demo_state_def demo_start_def)
  have uid: "\<not> is_isolated 1000" by (simp add: is_isolated_def)
  have "svc_block demo_image [0x79, 0x6F] ?p = svc_block demo_image [0x79, 0x6F] demo_state"
    by (simp add: svc_block_def malloc_def Let_def)
  then have "fst (add_result (svc_block demo_image [0x79, 0x6F] ?p) [demo_service] [0x79, 0x6F] 5 0) = 0"
    using demo_block by (simp add: add_result_def reg_find_def demo_service_def)
  then have res: "add_result (svc_block demo_image [0x79, 0x6F] ?p) [demo_service] [0x79, 0x6F] 5 0 = (res, ss') \<Longrightarrow>
      res = 0" for res ss'
    by simp
  with uid publish_end_to_end [OF client_iodata(1) client_names(3,4) _ _ reg demo_room demo_env ti code,
      where bs = example_bs and h = 5 and ptr = "0x9999"] msg c
  show ?thesis by (fastforce simp: Let_def elim!: wp_mono)
qed

text \<open>C17: listing: request \<open>n\<close> is answered with the name of the \<open>n\<close>-th service of the list, in which
  \<open>add_result\<close> puts new services first, and with -1 beyond the last one. However the reply is
  carried, the client reads the whole name from it if it has at most 117 units. A longer one, which
  the registry accepts up to 127 units, does not fit the reply: the answer still says success, but
  holds the length only, and the client reads a null string.\<close>
theorem list_end_to_end:
  assumes "registry fn S ss p" and "is_request p txn (msg_for im' txn p) msg1"
    and "txn_code (load_txn (pmem p) txn) = SVC_MGR_LIST_SERVICES"
    and "bio_get_uint32 (pmem p) msg1 = (n, msg2)"
    and "rdata_ok im'" and "bio_free (reply_for im') \<subseteq> S"
  shows "if unat n < length ss
    then \<exists>reply m2. svcmgr_handler im' fn bs txn (msg_for im' txn p) (reply_for im') p =
           returns (0, msg2, reply) (p\<lparr>pmem := m2\<rparr>) \<and> registry fn S ss (p\<lparr>pmem := m2\<rparr>) \<and>
         (overflowed reply \<longleftrightarrow> 117 < length (listed (ss ! unat n))) \<and>
         (\<forall>t mr r. carried (reply, m2) t mr \<longrightarrow>
            name_or_null (listed (ss ! unat n)) mr (bio_get_string16 mr (bio_init_from_txn r t)))
    else svcmgr_handler im' fn bs txn (msg_for im' txn p) (reply_for im') p =
           returns (-1, msg2, reply_for im') p"
proof (cases "unat n < length ss")
  case True
  then have "ss ! unat n \<in> set ss" by simp
  from listed_sem [OF assms(1) this assms(6)]
  have sem: "item_sem (PutStr16 (si_name (svc_at (ss ! unat n)))) (reply_for im', pmem p) (VStr (listed (ss ! unat n)))" .
  have room: "reply_room S {} (reply_for im')" using reply_inv [OF assms(5)] assms(6) by (auto simp: reply_room_def)
  show ?thesis
  proof (rule string_reply [OF assms(5) sem], goal_cases)
    case (1 reply m2)
    have "svcmgr_handler im' fn bs txn (msg_for im' txn p) (reply_for im') p = returns (0, msg2, reply) (p\<lparr>pmem := m2\<rparr>)"
      using True 1(1) by (simp add: handler_list [OF assms(1-4)])
    with True reply_put(1) [OF assms(1) room 1(3)] 1(2,4) show ?case by (simp only: if_True) blast
  qed
qed (simp add: handler_list [OF assms(1-4)])

theorem list_end_to_end_witness:
  "\<exists>msg2 reply m2. svcmgr_handler demo_image 0x9100 example_bs 0x1058 (demo_msg 0x1058) (reply_for demo_image)
       demo_state = returns (0, msg2, reply) (demo_state\<lparr>pmem := m2\<rparr>) \<and> \<not> overflowed reply \<and>
     (\<forall>t mr r. carried (reply, m2) t mr \<longrightarrow>
        name_or_null [0x68, 0x69] mr (bio_get_string16 mr (bio_init_from_txn r t)))"
proof -
  obtain msg2 where n: "bio_get_uint32 (pmem demo_state) demo_list_rest = (0, msg2)"
    using demo_strings by (metis prod.collapse)
  have "bio_free (reply_for demo_image) \<subseteq> srv_shared demo" using demo_room by (auto simp: reply_room_def)
  from list_end_to_end [OF demo_registry demo_requests(3) [unfolded demo_msg_def] demo_codes(3) n demo_rdata this,
      of example_bs]
  show ?thesis by (auto simp: demo_msg_def demo_service_def listed_def)
qed

text \<open>C9: a call of the hello service: the message of a client with a name of fewer than 244
  characters fits its buffer; however the driver carries it, the service counts the call and
  answers with status 0; and however the reply is carried, the client reads the new count.\<close>
theorem hello_end_to_end:
  assumes "iodata_ok (caller_iodata im)" and "name_in m (caller_iodata im) a s" and "length s < 244"
    and "length junk = 512" and "rdata_ok im'"
    and "txn_code (load_txn (pmem p) txn) = HELLO_SVR_CMD_SAYHELLO_TO"
  shows "\<exists>msg m1. name_msg im a m = Some (msg, m1) \<and> \<not> overflowed msg \<and>
    (carried (msg, m1) (load_txn (pmem p) txn) (pmem p) \<longrightarrow>
      (\<exists>rest reply m2. hello_service_handler junk bs txn (msg_for im' txn p) (reply_for im') p =
           returns (0, rest, reply) (p\<lparr>pmem := m2,
             globals := (globals p)\<lparr>sayhello_to_cnt := sayhello_to_cnt (globals p) + 1\<rparr>\<rparr>) \<and>
         \<not> overflowed reply \<and> agree_on (- bio_free (reply_for im')) (pmem p) m2 \<and>
         (\<forall>t mr r. carried (reply, m2) t mr \<longrightarrow>
            fst (bio_get_uint32 mr (bio_init_from_txn r t)) = sayhello_to_cnt (globals p) + 1)))"
proof -
  let ?t = "load_txn (pmem p) txn" and ?n = "sayhello_to_cnt (globals p) + 1"
  obtain msg m1 where msg: "name_msg im a m = Some (msg, m1)" "\<not> overflowed msg"
    and reads: "\<And>t mr r. carried (msg, m1) t mr \<Longrightarrow> \<exists>r1 r2 x len.
      bio_get_uint32 mr (bio_init_from_txn r t) = (0, r1) \<and> bio_get_string16 mr r1 = (x, len, r2) \<and>
      x \<noteq> NULL \<and> load_u16s mr x (unat len) = map ucast s"
    by (rule name_msg_read [OF assms(1-3)]) (rule that)
  have "\<exists>rest reply m2. hello_service_handler junk bs txn (msg_for im' txn p) (reply_for im') p =
           returns (0, rest, reply) (p\<lparr>pmem := m2, globals := (globals p)\<lparr>sayhello_to_cnt := ?n\<rparr>\<rparr>) \<and>
         \<not> overflowed reply \<and> agree_on (- bio_free (reply_for im')) (pmem p) m2 \<and>
         (\<forall>t mr r. carried (reply, m2) t mr \<longrightarrow> fst (bio_get_uint32 mr (bio_init_from_txn r t)) = ?n)"
    if c: "carried (msg, m1) ?t (pmem p)"
  proof -
    from reads [OF c, of "junk_io im'"] obtain r1 r2 x len
      where r: "bio_get_uint32 (pmem p) (msg_for im' txn p) = (0, r1)"
        "bio_get_string16 (pmem p) r1 = (x, len, r2)" "x \<noteq> NULL" "load_u16s (pmem p) x (unat len) = map ucast s"
      by (auto simp: msg_for_def)
    have "unat len = length s" using arg_cong [OF r(4), of length] by simp
    then have len: "unat len < 512" using assms(3) by simp
    obtain reply m2 where put: "bio_put_uint32 ?n (reply_for im', pmem p) = (reply, m2)" by fastforce
    note sent = number_reply [OF assms(5) put]
    have "hello_service_handler junk bs txn (msg_for im' txn p) (reply_for im') p =
        returns (0, r2, reply) (p\<lparr>pmem := m2, globals := (globals p)\<lparr>sayhello_to_cnt := ?n\<rparr>\<rparr>)"
      using hello_to_call [OF assms(4,6) r(1,2) len, of bs "reply_for im'"] r(3) put by (simp add: Let_def)
    with sent(1,3) bio_ext_agree [OF sent(2)] show ?thesis by blast
  qed
  with msg show ?thesis by blast
qed

definition hello_server :: "mem \<Rightarrow> server_globals process" where
  "hello_server m = (hello_process 2)\<lparr>pmem := m\<rparr>"

definition hello_image :: "server_globals image" where
  "hello_image = \<lparr>loop_readbuf = 0x1000, call_readbuf = 0x2000, parse_rdata = 0x3000,
     reply_status = 0x4000, caller_iodata = 0x5000, junk_txn = example_reply_txn,
     junk_io = zero_io, handler_code = (\<lambda>_. None), death_code = (\<lambda>_. None),
     kernel = (\<lambda>h. example_answer [] []), allocator = page_alloc\<rparr>"

theorem hello_end_to_end_witness:
  "\<exists>msg m1. name_msg client_image 0x81100 (client_mem [0x79, 0x6F]) = Some (msg, m1) \<and>
     (let p = hello_server (handed 0x1004 HELLO_SVR_CMD_SAYHELLO_TO msg m1) in
      \<exists>rest reply p'. hello_service_handler (replicate 512 0) example_bs 0x1004 (msg_for hello_image 0x1004 p)
           (reply_for hello_image) p = returns (0, rest, reply) p' \<and> sayhello_to_cnt (globals p') = 7 \<and>
         (\<forall>t mr r. carried (reply, pmem p') t mr \<longrightarrow> fst (bio_get_uint32 mr (bio_init_from_txn r t)) = 7))"
proof -
  let ?m = "client_mem [0x79, 0x6F]"
  obtain msg m1 where msg: "name_msg client_image 0x81100 ?m = Some (msg, m1)"
    and ext: "bio_ext (bio_init (junk_io client_image) (caller_iodata client_image) 512 4, ?m) (msg, m1)"
    by (rule name_msg_read [OF client_iodata(1) client_names(4)]) (simp, rule that)
  note ext = ext [unfolded client_iodata(2)]
  let ?p = "hello_server (handed 0x1004 HELLO_SVR_CMD_SAYHELLO_TO msg m1)"
  have t: "load_txn (pmem ?p) 0x1004 = in_place HELLO_SVR_CMD_SAYHELLO_TO msg"
    by (simp add: handed_txn no_wrap_def hello_server_def)
  have c: "carried (msg, m1) (load_txn (pmem ?p) 0x1004) (pmem ?p)"
    unfolding t by (simp add: hello_server_def) (rule handed_carried(1) [OF ext]; auto simp: no_wrap_def in_region)
  have code: "txn_code (load_txn (pmem ?p) 0x1004) = HELLO_SVR_CMD_SAYHELLO_TO"
    unfolding t by (simp add: in_place_def)
  have image: "rdata_ok hello_image" by (simp add: rdata_ok_def hello_image_def)
  have n: "sayhello_to_cnt (globals ?p) + 1 = 7" by (simp add: hello_server_def hello_process_def)
  from hello_end_to_end [OF client_iodata(1) client_names(4) _ _ image code, where bs = example_bs and junk = "replicate 512 0"]
    msg c show ?thesis unfolding n by (fastforce simp: Let_def)
qed

end
