(* ===== verification/Program_Runs.thy ===== *)
theory Program_Runs
  imports End_To_End
begin

text \<open>
  What the programs that use the service manager have in common: they open the driver, build messages
  in a local array, call, and free the reply. The locale \<open>binder_program\<close> proves once, against any
  kernel that keeps to the binder protocol, that each of these gets somewhere and what it leaves
  alone; the log of system calls is described by a predicate of the program.
\<close>

subsection \<open>The program's memory\<close>

text \<open>What system calls and messages may overwrite.\<close>

definition client_shared :: "'g image \<Rightarrow> addr set \<Rightarrow> addr set" where
  "client_shared im area = area \<union> region (call_readbuf im) 128 \<union> region (caller_iodata im) 512"

text \<open>The strings of the program and of \<open>argv\<close> lie elsewhere.\<close>

definition strings_at :: "'g image \<Rightarrow> addr set \<Rightarrow> (addr \<times> byte list) set \<Rightarrow> mem \<Rightarrow> bool" where
  "strings_at im area ss m \<longleftrightarrow> (\<forall>(a, s)\<in>ss. name_in m (caller_iodata im) a s \<and>
     region a (Suc (length s)) \<inter> client_shared im area = {})"

definition client_setup :: "'g image \<Rightarrow> addr set \<Rightarrow> bool" where
  "client_setup im area \<longleftrightarrow> honest_kernel im area \<and> unat (call_readbuf im) + 128 < 4294967296 \<and>
     iodata_ok (caller_iodata im)"

lemma strings_keep:
  assumes "strings_at im area ss m" and agree: "agree_on (- client_shared im area) m m'"
  shows "strings_at im area ss m'"
  unfolding strings_at_def
proof (clarify, rule conjI)
  fix a s
  assume "(a, s) \<in> ss"
  with assms(1) have s: "name_in m (caller_iodata im) a s" "region a (Suc (length s)) \<inter> client_shared im area = {}"
    by (auto simp: strings_at_def)
  then have "cstr m' a s" by (intro cstr_outside [OF agree s(2)]) (simp_all add: name_in_def)
  with s show "name_in m' (caller_iodata im) a s" "region a (Suc (length s)) \<inter> client_shared im area = {}"
    by (simp_all add: name_in_def)
qed

lemma area_shared: "area \<subseteq> client_shared im area"
  by (auto simp: client_shared_def)

subsection \<open>The contract\<close>

text \<open>The system calls of a program that opens the driver, calls, and frees replies.\<close>

fun program_request :: "'g image \<Rightarrow> request \<Rightarrow> bool" where
  "program_request im (WriteRead d bwr m) \<longleftrightarrow>
     (\<exists>msg target code. write_buffer bwr = call_frame im msg target code) \<and> read_buffer bwr = call_readbuf im \<or>
     (\<exists>a. write_buffer bwr = le32 BC_FREE_BUFFER @ le32 a) \<and> read_buffer bwr = 0"
| "program_request im rq \<longleftrightarrow> True"

lemma program_request_plain:
  assumes "program_request im rq"
  shows "cookie_of rq = []" and "ref_of rq = []"
  using assms by (cases rq; auto simp: call_frame_def Let_def bc_values le32_def)+

text \<open>\<open>good im x h\<close> is what a program says of its log \<open>h\<close>; \<open>g\<close> are its static variables.\<close>

definition program_inv ::
  "('g image \<Rightarrow> 'x \<Rightarrow> request list \<Rightarrow> bool) \<Rightarrow> 'g image \<Rightarrow> addr set \<Rightarrow> (addr \<times> byte list) set \<Rightarrow> 'x \<Rightarrow> 'g \<Rightarrow>
   'g process \<Rightarrow> bool" where
  "program_inv good im area ss x g p \<longleftrightarrow>
     good im x (requests p) \<and> strings_at im area ss (pmem p) \<and> globals p = g"

definition program_waits ::
  "('g image \<Rightarrow> 'x \<Rightarrow> request list \<Rightarrow> bool) \<Rightarrow> 'g image \<Rightarrow> 'x \<Rightarrow> 'g \<Rightarrow> 'g process \<Rightarrow> bool" where
  "program_waits good im x g p \<longleftrightarrow> good im x (requests p) \<and> globals p = g"

locale binder_program =
  fixes good :: "'g image \<Rightarrow> 'x \<Rightarrow> request list \<Rightarrow> bool"
  assumes no_deaths: "good im x h \<Longrightarrow> death_cookies h = []"
    and keeps: "good im x h \<Longrightarrow> program_request im rq \<Longrightarrow> good im x (h @ [rq])"
begin

lemma keeps_all: "good im x h \<Longrightarrow> \<forall>rq\<in>set rs. program_request im rq \<Longrightarrow> good im x (h @ rs)"
proof (induction rs arbitrary: h)
  case (Cons rq rs)
  then show ?case using Cons.IH [OF keeps [OF Cons.prems(1)], of rq] by simp
qed simp

lemma at_rest: "program_inv good im area ss x g p \<Longrightarrow> program_waits good im x g p"
  by (simp add: program_inv_def program_waits_def)

lemma client: "program_inv good im area ss x g p \<Longrightarrow> is_client p"
  by (auto simp: program_inv_def is_client_def no_deaths)

lemma inv_mem:
  "program_inv good im area ss x g p \<Longrightarrow> agree_on (- client_shared im area) (pmem p) m \<Longrightarrow>
   program_inv good im area ss x g (p\<lparr>pmem := m\<rparr>)"
  by (auto simp: program_inv_def intro: strings_keep)

lemma logged:
  "program_inv good im area ss x g p \<Longrightarrow> program_request im rq \<Longrightarrow> program_inv good im area ss x g (log_request rq p)"
  by (simp add: program_inv_def log_request_def keeps)

lemma inv_blocks: "program_inv good im area ss x g (p\<lparr>blocks := bl\<rparr>) = program_inv good im area ss x g p"
  by (simp add: program_inv_def)

text \<open>A step of the environment with more such calls in the log.\<close>

lemma inv_step:
  assumes "program_inv good im area ss x g p" and "env_step S p p'" and "S \<subseteq> client_shared im area"
    and "good im x' (requests p')"
  shows "program_inv good im area ss x' g p'"
proof -
  have "agree_on (- client_shared im area) (pmem p) (pmem p')"
    using assms(2,3) by (auto simp: env_step_def intro: agree_on_mono)
  with assms show ?thesis by (auto simp: program_inv_def env_step_def intro: strings_keep)
qed

lemma waits_step:
  "program_inv good im area ss x g p \<Longrightarrow> env_step S p p' \<Longrightarrow> good im x' (requests p') \<Longrightarrow> program_waits good im x' g p'"
  by (simp add: program_inv_def program_waits_def env_step_def)

lemma syscall_keeps:
  assumes "program_inv good im area ss x g p" and "program_request im rq"
  shows "wp (syscall im rq p) (\<lambda>_. program_inv good im area ss x g) (program_waits good im x g)"
  using logged [OF assms] at_rest [OF logged [OF assms]]
  by (simp add: syscall_def Let_def) (simp add: program_inv_def)

lemma opens:
  assumes "program_inv good im area ss x g p"
  shows "wp (binder_open im n p) (\<lambda>_. program_inv good im area ss x g) (program_waits good im x g)"
proof -
  let ?inv = "program_inv good im area ss x g"
  have "?inv (snd (malloc im k p))" for k
    using assms by (simp add: malloc_def Let_def inv_blocks)
  moreover have "?inv q \<Longrightarrow> ?inv (free_block a q)" for a q
    by (simp add: free_block_def logged inv_blocks)
  moreover have "?inv (free_block a (log_request (Close d) q))" if "?inv q" for a d q
    using logged [OF that, of "Close d"] by (simp add: free_block_def logged inv_blocks)
  ultimately show ?thesis
    unfolding binder_open_def Let_def
    by (auto simp: fail_open_def fail_map_def split: prod.split intro!: wp_mono [OF syscall_keeps]) (metis snd_conv)+
qed

lemma calls_good:
  assumes "program_inv good im area ss x g p" and "calls_only im (call_frame im msg target code) p p'"
  shows "good im x (requests p')"
proof -
  from assms(2) obtain rs where rs: "requests p' = requests p @ rs"
    "\<forall>rq\<in>set rs. call_request im (call_frame im msg target code) rq"
    using call_log_requests by (fastforce simp: calls_only_def)
  then have "\<forall>rq\<in>set rs. program_request im rq" by (fastforce simp: call_request_def)
  with assms(1) rs(1) show ?thesis by (auto simp: program_inv_def intro: keeps_all)
qed

lemma calls_end:
  assumes "client_setup im area" and inv: "program_inv good im area ss x g p"
  shows "wp (binder_call im bs msg reply target code p)
    (\<lambda>(r, rep) p'. program_inv good im area ss x g p' \<and> (\<not> overflowed msg \<longrightarrow>
       call_ends im bs (call_frame im msg target code) reply p r rep p'))
    (program_waits good im x g)"
proof -
  have "program_inv good im area ss x g p'"
    if "env_step (client_shared im area) p p'" "calls_only im (call_frame im msg target code) p p'" for p'
    using that by (intro inv_step [OF inv]) (auto intro: calls_good [OF inv])
  moreover have "program_waits good im x g p'"
    if "env_step (client_shared im area) p p'" "calls_only im (call_frame im msg target code) p p'" for p'
    using that by (intro waits_step [OF inv]) (auto intro: calls_good [OF inv])
  ultimately show ?thesis
    by (intro wp_mono [OF binder_call_wp [of im area "client_shared im area"]])
      (use assms client [OF inv] in \<open>auto simp: client_setup_def client_shared_def intro: call_ends_calls split: if_splits\<close>)
qed

lemma calls:
  assumes "client_setup im area" and "program_inv good im area ss x g p"
  shows "wp (binder_call im bs msg reply target code p) (\<lambda>(r, rep). program_inv good im area ss x g)
    (program_waits good im x g)"
  by (rule wp_mono [OF calls_end [OF assms]]) auto

lemma frees:
  assumes "client_setup im area" and inv: "program_inv good im area ss x g p"
  shows "wp (binder_done im bs reply p) (\<lambda>_. program_inv good im area ss x g) (program_waits good im x g)"
proof -
  let ?dat = "le32 BC_FREE_BUFFER @ le32 (io_data0 reply)"
  have "program_request im (write_request bs ?dat (pmem p))" by (auto simp: write_request_def)
  then have "good im x (requests p @ [write_request bs ?dat (pmem p)])"
    using inv by (auto simp: program_inv_def intro: keeps)
  then have "wp (binder_write im bs ?dat p) (\<lambda>_. program_inv good im area ss x g) (program_waits good im x g)"
    using assms(1) by (intro wp_mono [OF binder_write_sends [OF _ order_refl]])
      (auto simp: sends_def sending_def client_setup_def intro: inv_step [OF inv _ area_shared] waits_step [OF inv])
  with inv show ?thesis by (simp add: binder_done_def)
qed

subsection \<open>Messages\<close>

text \<open>A message of the program goes into its array.\<close>

lemma message:
  assumes ready: "client_setup im area" and inv: "program_inv good im area ss x g p"
    and items: "\<forall>v\<in>set items. item_ok v (bio_init (junk_io im) (caller_iodata im) 512 4, pmem p)"
  shows "\<exists>msg m. run_all bio_put items (bio_init (junk_io im) (caller_iodata im) 512 4, pmem p) = Some (msg, m) \<and>
    program_inv good im area ss x g (p\<lparr>pmem := m\<rparr>)"
proof -
  let ?b = "bio_init (junk_io im) (caller_iodata im) 512 4"
  have buf: "iodata_ok (caller_iodata im)" using ready by (simp add: client_setup_def)
  then have "bio_inv (unat (caller_iodata im)) (unat (caller_iodata im) + 16) (unat (caller_iodata im) + 512) ?b"
    using bio_init_inv [of "caller_iodata im" 512 4 "junk_io im"] by (simp add: iodata_ok_def)
  from items.put_all_returns [OF this items] obtain msg m where
    run: "run_all bio_put items (?b, pmem p) = Some (msg, m)" and ext: "bio_ext (?b, pmem p) (msg, m)" by auto
  have "- client_shared im area \<subseteq> - bio_free ?b"
    using iodata_free [OF buf, of "junk_io im"] by (auto simp: client_shared_def)
  with bio_ext_agree [OF ext] have "agree_on (- client_shared im area) (pmem p) m" by (rule agree_on_mono)
  with run inv_mem [OF inv] show ?thesis by blast
qed

lemma string_item:
  assumes "client_setup im area" and "program_inv good im area ss x g p" and "(a, s) \<in> ss"
  shows "item_ok (PutStr16x a) (bio_init (junk_io im) (caller_iodata im) 512 4, pmem p)"
proof (rule item_sem_ok [OF name_sem])
  show "iodata_ok (caller_iodata im)" using assms(1) by (simp add: client_setup_def)
  show "name_in (pmem p) (caller_iodata im) a s" using assms(2,3) by (auto simp: program_inv_def strings_at_def)
qed

end

end
