(* ===== verification/Client_Runs.thy ===== *)
theory Client_Runs
  imports Program_Runs
begin

text \<open>
  Whole runs of \<open>test_client.c\<close> against any kernel that keeps to the binder protocol: the client
  always gets somewhere, and what it does with the references to the two services.
\<close>

subsection \<open>The client as a program\<close>

text \<open>What the client says of its log: since the log was \<open>h0\<close>, it has taken and given back the
  references \<open>rs\<close>.\<close>

definition client_log :: "'g image \<Rightarrow> request list \<times> ref_change list \<Rightarrow> request list \<Rightarrow> bool" where
  "client_log im = (\<lambda>(h0, rs) h. death_cookies h = [] \<and> (\<exists>l. h = h0 @ l \<and> ref_changes l = rs))"

definition client_inv ::
  "'g image \<Rightarrow> addr set \<Rightarrow> (addr \<times> byte list) set \<Rightarrow> request list \<Rightarrow> ref_change list \<Rightarrow> 'g process \<Rightarrow> bool" where
  "client_inv im area ss h0 rs p \<longleftrightarrow> program_inv client_log im area ss (h0, rs) (globals p) p"

interpretation client: binder_program client_log
  by unfold_locales (fastforce simp: client_log_def program_request_plain)+

lemma client_inv_split:
  "client_inv im area ss h0 rs p \<longleftrightarrow> death_cookies (requests p) = [] \<and>
     (\<exists>l. requests p = h0 @ l \<and> ref_changes l = rs) \<and> strings_at im area ss (pmem p)"
  by (auto simp: client_inv_def program_inv_def client_log_def)

lemma client_now: "client_inv im area ss h0 rs p \<Longrightarrow> client_inv im area ss (requests p) [] p"
  by (auto simp: client_inv_split)

lemma client_opens:
  "client_inv im area ss h0 rs p \<Longrightarrow> wp (binder_open im n p) (\<lambda>_. client_inv im area ss h0 rs) (\<lambda>_. True)"
  unfolding client_inv_def by (rule wp_mono [OF client.opens]) (auto simp: program_inv_def)

lemma client_calls_driver:
  assumes "client_setup im area" and "client_inv im area ss h0 rs p"
  shows "wp (binder_call im bs msg reply target code p)
    (\<lambda>(r, rep) p'. client_inv im area ss h0 rs p' \<and>
       (\<not> overflowed msg \<longrightarrow> call_ends im bs (call_frame im msg target code) reply p r rep p')) (\<lambda>_. True)"
  by (rule wp_mono [OF client.calls_end [OF assms(1) assms(2) [unfolded client_inv_def]]])
    (auto simp: client_inv_def program_inv_def)

lemma client_calls_plain:
  assumes "client_setup im area" and "client_inv im area ss h0 rs p"
  shows "wp (binder_call im bs msg reply target code p) (\<lambda>(r, rep). client_inv im area ss h0 rs) (\<lambda>_. True)"
  by (rule wp_mono [OF client_calls_driver [OF assms]]) auto

lemma client_writes:
  assumes "client_setup im area" and inv: "client_inv im area ss h0 rs p"
  shows "wp (binder_acquire im bs h p) (\<lambda>_. client_inv im area ss h0 (rs @ [Acquired h])) (\<lambda>_. True)"
    and "wp (binder_release im bs h p) (\<lambda>_. client_inv im area ss h0 (rs @ [Released h])) (\<lambda>_. True)"
    and "wp (binder_done im bs reply p) (\<lambda>_. client_inv im area ss h0 rs) (\<lambda>_. True)"
proof -
  have honest: "honest_kernel im area" using assms(1) by (simp add: client_setup_def)
  have step: "client_inv im area ss h0 (rs @ ref_of rq) p'" if "sends area rq p p'" "cookie_of rq = []" for rq p'
  proof -
    have "client_log im (h0, rs @ ref_of rq) (requests p')"
      using that inv by (fastforce simp: client_log_def client_inv_split sends_def)
    with that inv client.inv_step [OF inv [unfolded client_inv_def] _ area_shared, of p' "(h0, rs @ ref_of rq)"]
    show ?thesis by (auto simp: sends_def client_inv_def program_inv_def)
  qed
  show "wp (binder_acquire im bs h p) (\<lambda>_. client_inv im area ss h0 (rs @ [Acquired h])) (\<lambda>_. True)"
    by (rule wp_mono [OF one_command_wp(1) [OF honest order_refl]]) (use step in fastforce)+
  show "wp (binder_release im bs h p) (\<lambda>_. client_inv im area ss h0 (rs @ [Released h])) (\<lambda>_. True)"
    by (rule wp_mono [OF one_command_wp(2) [OF honest order_refl]]) (use step in fastforce)+
  show "wp (binder_done im bs reply p) (\<lambda>_. client_inv im area ss h0 rs) (\<lambda>_. True)"
    by (rule wp_mono [OF client.frees [OF assms(1) inv [unfolded client_inv_def]]])
      (auto simp: client_inv_def program_inv_def)
qed

subsection \<open>Messages\<close>

lemma client_message:
  assumes ready: "client_setup im area" and inv: "client_inv im area ss h0 rs p"
    and items: "\<forall>v\<in>set items. item_ok v (bio_init (junk_io im) (caller_iodata im) 512 4, pmem p)"
  shows "\<exists>msg m. run_all bio_put items (bio_init (junk_io im) (caller_iodata im) 512 4, pmem p) = Some (msg, m) \<and>
    client_inv im area ss h0 rs (p\<lparr>pmem := m\<rparr>)"
  using client.message [OF ready inv [unfolded client_inv_def] items] by (simp add: client_inv_def)

lemmas client_string = client.string_item [OF _ client_inv_def [THEN iffD1]]

text \<open>
  A lookup in the log: its system calls \<open>l\<close> after \<open>h\<close> carry, to the service manager, a message from
  whose bytes any receiver reads the interface header and this name; the handle is the one that the
  reply in the last answer holds, 0 if the call failed.
\<close>

definition asks_for :: "byte list \<Rightarrow> binder_io \<Rightarrow> mem \<Rightarrow> bool" where
  "asks_for name msg m \<longleftrightarrow> (\<forall>t mr r. carried (msg, m) t mr \<longrightarrow>
     (\<exists>r1 r2 x len. after_interface mr (bio_init_from_txn r t) = Some r1 \<and> bio_get_string16 mr r1 = (x, len, r2) \<and>
        x \<noteq> NULL \<and> load_u16s mr x (unat len) = map ucast name))"

definition looked_up :: "'g image \<Rightarrow> byte list \<Rightarrow> request list \<Rightarrow> request list \<Rightarrow> u32 \<Rightarrow> bool" where
  "looked_up im name h l handle \<longleftrightarrow>
     (\<exists>msg d bwr m rs. l = WriteRead d bwr m # rs \<and> asks_for name msg m \<and>
        call_log im (call_frame im msg BINDER_SERVICE_MANAGER SVC_MGR_CHECK_SERVICE) h l) \<and>
     ((\<exists>t. replied (kernel im (h @ l)) t \<and>
         handle = fst (bio_get_ref (mem_after im (h @ l)) (bio_init_from_txn (junk_io im) t))) \<or>
      rejected (kernel im (h @ l)) \<and> handle = 0)"

abbreviation taken :: "u32 \<Rightarrow> ref_change list" where
  "taken h \<equiv> if h = 0 then [] else [Acquired h]"

lemma client_looks_up:
  assumes ready: "client_setup im area" and inv: "client_inv im area ss h0 rs p"
    and names: "(sym_mgr sy, svc_mgr_name) \<in> ss" "(name, s) \<in> ss" and short: "length s \<le> 213"
  shows "wp (svcmgr_lookup im sy bs BINDER_SERVICE_MANAGER name p)
    (\<lambda>h p'. \<exists>l. looked_up im s (requests p) l h \<and> client_inv im area ss (requests p @ l) (taken h) p') (\<lambda>_. True)"
proof -
  have buf: "iodata_ok (caller_iodata im)" using ready by (simp add: client_setup_def)
  have at: "name_in (pmem p) (caller_iodata im) a t" if "(a, t) \<in> ss" for a t
    using inv that by (auto simp: client_inv_split strings_at_def)
  obtain msg m where msg: "lookup_msg im (sym_mgr sy) name (pmem p) = Some (msg, m)" "\<not> overflowed msg"
    and asks: "asks_for s msg m"
    by (rule lookup_msg_read [OF buf at [OF names(1)] at [OF names(2)] short]) (auto simp: asks_for_def)
  have "\<exists>msg m. lookup_msg im (sym_mgr sy) name (pmem p) = Some (msg, m) \<and>
      client_inv im area ss (requests p) [] (p\<lparr>pmem := m\<rparr>)"
    unfolding lookup_msg_run
    by (rule client_message [OF ready client_now [OF inv]]) (use client_string [OF ready inv] names in auto)
  with msg(1) have p1: "client_inv im area ss (requests p) [] (p\<lparr>pmem := m\<rparr>)" by simp
  let ?w = "call_frame im msg BINDER_SERVICE_MANAGER SVC_MGR_CHECK_SERVICE"
  show ?thesis
    unfolding svcmgr_lookup_def msg(1) option.case prod.case wp_and_then
  proof (rule wp_mono [OF client_calls_driver [OF ready p1]], goal_cases)
    case (1 v q)
    obtain r reply where v: "v = (r, reply)" by (cases v)
    with 1 msg(2) have q: "client_inv im area ss (requests p) [] q"
      and ends: "call_ends im bs ?w (junk_io im) (p\<lparr>pmem := m\<rparr>) r reply q" by auto
    from ends obtain bwr l where l: "requests q = requests p @ WriteRead (fd bs) bwr m # l"
      "call_log im ?w (requests p) (WriteRead (fd bs) bwr m # l)"
      by (auto simp: call_ends_def)
    let ?l = "WriteRead (fd bs) bwr m # l"
    have now: "client_inv im area ss (requests p @ ?l) [] q" using client_now [OF q] l(1) by simp
    have up: "looked_up im s (requests p) ?l h"
      if "(\<exists>t. replied (kernel im (requests q)) t \<and>
         h = fst (bio_get_ref (mem_after im (requests q)) (bio_init_from_txn (junk_io im) t))) \<or>
      rejected (kernel im (requests q)) \<and> h = 0" for h
      using that asks l unfolding looked_up_def by auto
    note res = ends [unfolded call_ends_def call_result_def]
    show ?case
    proof (cases "r = 0")
      case True
      then obtain t where t: "replied (kernel im (requests q)) t" "reply = bio_init_from_txn (junk_io im) t"
        "pmem q = mem_after im (requests q)" using res by auto
      obtain h reply' where h: "bio_get_ref (pmem q) reply = (h, reply')" by fastforce
      have up_h: "looked_up im s (requests p) ?l h"
        by (rule up) (use t h in \<open>auto intro!: exI [of _ t]\<close>)
      moreover have acquired: "wp (if h \<noteq> 0 then binder_acquire im bs h q else returns () q)
          (\<lambda>_. client_inv im area ss (requests p @ ?l) (taken h)) (\<lambda>_. True)"
        using now client_writes(1) [OF ready now, of bs h] by simp
      moreover have "wp (binder_done im bs reply' q') (\<lambda>_ q'. looked_up im s (requests p) ?l h \<and>
          client_inv im area ss (requests p @ ?l) (taken h) q') (\<lambda>_. True)"
        if "client_inv im area ss (requests p @ ?l) (taken h) q'" for q'
        by (rule wp_mono [OF client_writes(3) [OF ready that]]) (use up_h in auto)
      ultimately have "wp (if h \<noteq> 0 then binder_acquire im bs h q else returns () q)
          (\<lambda>_ q'. wp (binder_done im bs reply' q') (\<lambda>_ q'. looked_up im s (requests p) ?l h \<and>
            client_inv im area ss (requests p @ ?l) (taken h) q') (\<lambda>_. True)) (\<lambda>_. True)"
        by (intro wp_mono [OF acquired]) auto
      then show ?thesis
        unfolding v prod.case h Let_def True wp_and_then wp_returns
        by (auto elim!: wp_mono intro: exI [of _ ?l])
    next
      case False
      then have "rejected (kernel im (requests q))" using res by auto
      then have "looked_up im s (requests p) ?l 0" by (intro up) simp
      with now False show ?thesis by (auto simp: v intro!: exI [of _ ?l])
    qed
  qed simp
qed

lemma client_says:
  assumes ready: "client_setup im area" and inv: "client_inv im area ss h0 rs p"
  shows "wp (say im bs h code p) (\<lambda>_. client_inv im area ss h0 rs) (\<lambda>_. True)"
proof -
  obtain msg m where msg: "plain_msg im (pmem p) = (msg, m)" by fastforce
  have "run_all bio_put [PutU32 0] (bio_init (junk_io im) (caller_iodata im) 512 4, pmem p) = Some (msg, m)"
    using msg by (simp add: plain_msg_def)
  with client_message [OF ready inv, of "[PutU32 0]"] have p1: "client_inv im area ss h0 rs (p\<lparr>pmem := m\<rparr>)" by auto
  show ?thesis
    unfolding say_def msg Let_def prod.case wp_and_then
    by (rule wp_mono [OF client_calls_plain [OF ready p1]]) (auto intro!: wp_mono [OF client_writes(3) [OF ready]])
qed

lemma client_says_to:
  assumes ready: "client_setup im area" and inv: "client_inv im area ss h0 rs p" and name: "(a, s) \<in> ss"
  shows "wp (say_to im bs h code a p) (\<lambda>_. client_inv im area ss h0 rs) (\<lambda>_. True)"
proof -
  have "\<exists>msg m. name_msg im a (pmem p) = Some (msg, m) \<and> client_inv im area ss h0 rs (p\<lparr>pmem := m\<rparr>)"
    unfolding name_msg_run
    by (rule client_message [OF ready inv]) (use client_string [OF ready inv name] in auto)
  then obtain msg m where msg: "name_msg im a (pmem p) = Some (msg, m)"
    and p1: "client_inv im area ss h0 rs (p\<lparr>pmem := m\<rparr>)" by blast
  show ?thesis
    unfolding say_to_def msg option.case prod.case wp_and_then
    by (rule wp_mono [OF client_calls_plain [OF ready p1]])
      (auto split: prod.split intro!: wp_mono [OF client_writes(3) [OF ready]])
qed

subsection \<open>main\<close>

lemma c_streq_cstr: "cstr m a s \<Longrightarrow> cstr m b t \<Longrightarrow> c_streq m a b = Some (s = t)"
proof (induction s arbitrary: a b t)
  case Nil
  then show ?case by (cases t) (auto simp: c_streq.simps [of m a b])
next
  case (Cons c s)
  show ?case
  proof (cases t)
    case Nil
    with Cons.prems show ?thesis by (simp add: c_streq.simps [of m a b])
  next
    case (Cons d t')
    with Cons.prems Cons.IH [of "a + 1" "b + 1" t'] show ?thesis by (simp add: c_streq.simps [of m a b])
  qed
qed

text \<open>The arguments: \<open>argv\<close> has the program's name and points to \<open>args\<close> behind it; the literals.\<close>

definition client_args :: "symbols \<Rightarrow> addr list \<Rightarrow> byte list list \<Rightarrow> (addr \<times> byte list) set" where
  "client_args sy argv args = {(sym_mgr sy, svc_mgr_name), (sym_hello sy, map of_char ''hello''),
     (sym_goodbye sy, map of_char ''goodbye'')} \<union> set (zip (tl argv) args)"

lemma client_arg: "Suc i < length argv \<Longrightarrow> length args = length argv - 1 \<Longrightarrow> (argv ! Suc i, args ! i) \<in> client_args sy argv args"
  by (auto simp: client_args_def set_zip nth_tl intro!: disjI2 exI [of _ i])

lemma client_calls_keep:
  assumes ready: "client_setup im area" and inv: "client_inv im area (client_args sy argv args) h0 rs p"
    and argv: "length argv \<ge> 2" "length args = length argv - 1"
  shows "wp (client_calls im sy bs argv p) (\<lambda>_. client_inv im area (client_args sy argv args) h0 rs) (\<lambda>_. True)"
proof -
  let ?ss = "client_args sy argv args"
  have str: "cstr (pmem p) a s" if "(a, s) \<in> ?ss" for a s
    using that inv by (auto simp: client_inv_split strings_at_def name_in_def)
  have "(sym_hello sy, map of_char ''hello'') \<in> ?ss" by (simp add: client_args_def)
  note hello = str [OF this]
  have one: "cstr (pmem p) (argv ! 1) (args ! 0)" using str client_arg [of 0 argv args sy] argv by simp
  have two: "(argv ! 2, args ! 1) \<in> ?ss" if "length argv = 3" using client_arg [of 1 argv args sy] argv that by (simp add: numeral_2_eq_2)
  note to = wp_mono [OF client_says_to [OF ready inv two]] and plain = client_says [OF ready inv]
  show ?thesis
    using argv(1) inv
    by (auto simp: client_calls_def c_streq_cstr [OF one hello] client_sayhello_def client_saygoodbye_def
        client_sayhello_to_def client_saygoodbye_to_def split: bool.split intro!: plain to simp del: One_nat_def)
qed

text \<open>How the client leaves, with result \<open>r\<close> and log \<open>h\<close>: it never got to a lookup, or it has looked up
  the goodbye service first and then the hello service, and has taken and given back these
  references.\<close>

definition client_outcome :: "'g image \<Rightarrow> int \<Rightarrow> request list \<Rightarrow> bool" where
  "client_outcome im r h \<longleftrightarrow>
     r = -1 \<and> ref_changes h = [] \<and> (\<forall>d bwr m. WriteRead d bwr m \<notin> set h) \<or>
     (\<exists>h0 l1 mid l2 rest goodbye hello. h = h0 @ l1 @ mid @ l2 @ rest \<and>
        looked_up im (map of_char ''goodbye'') h0 l1 goodbye \<and>
        looked_up im (map of_char ''hello'') (h0 @ l1 @ mid) l2 hello \<and>
        ref_changes h0 = [] \<and> ref_changes mid = taken goodbye \<and>
        (if hello = 0 then r = -1 \<and> ref_changes rest = []
         else r = 0 \<and> ref_changes rest = [Acquired hello, Released hello]))"

text \<open>A run of \<open>main\<close> up to the second lookup, and its end.\<close>

definition found ::
  "'g image \<Rightarrow> request list \<Rightarrow> u32 \<Rightarrow> bool" where
  "found im h hello \<longleftrightarrow> (\<exists>h0 l1 mid l2 goodbye. h = h0 @ l1 @ mid @ l2 \<and>
     looked_up im (map of_char ''goodbye'') h0 l1 goodbye \<and>
     looked_up im (map of_char ''hello'') (h0 @ l1 @ mid) l2 hello \<and>
     ref_changes h0 = [] \<and> ref_changes mid = taken goodbye)"

lemma client_leaves:
  assumes "found im h hello" and "h' = h @ rest"
    and "if hello = 0 then r = -1 \<and> ref_changes rest = [] else r = 0 \<and> ref_changes rest = [Acquired hello, Released hello]"
  shows "client_outcome im r h'"
  using assms unfolding found_def client_outcome_def by (metis append.assoc)

text \<open>Opening the driver makes no \<open>BINDER_WRITE_READ\<close>.\<close>

lemma binder_open_quiet:
  assumes "\<forall>d bwr m. WriteRead d bwr m \<notin> set (requests p)"
  shows "wp (binder_open im n p) (\<lambda>_ p'. \<forall>d bwr m. WriteRead d bwr m \<notin> set (requests p')) (\<lambda>_. True)"
  using assms
  by (simp add: binder_open_def Let_def malloc_def syscall_def log_request_def fail_open_def fail_map_def free_block_def)

text \<open>C10: the C client, started with one argument or more, each shorter than 512 characters, against any
  kernel that keeps to the protocol, always gets somewhere: it waits for the driver, or returns 0 or
  -1. Unless the driver could not be opened it has looked up the goodbye service and then the hello
  service; a reference to the handle found, if any, is taken. It returns 0 exactly if the hello
  service was found, whose reference it then gives back; but the reference to the goodbye service
  is never given back.\<close>
theorem client_main_references:
  assumes ready: "client_setup im area" and inv: "client_inv im area (client_args sy argv args) [] [] p"
    and start: "requests p = []" and argv: "length argv \<ge> 1" "length args = length argv - 1"
  shows "wp (client_main im sy argv p)
    (\<lambda>r p'. client_outcome im r (requests p'))
    (\<lambda>_. True)"
proof (cases "length argv = 1")
  case True
  then show ?thesis using start by (simp add: client_main_def client_outcome_def)
next
  case False
  let ?ss = "client_args sy argv args"
  let ?inv = "client_inv im area ?ss"
  let ?done = "\<lambda>r p'. client_outcome im r (requests p')"
  have two: "length argv \<ge> 2" using False argv(1) by linarith
  have names: "(sym_mgr sy, svc_mgr_name) \<in> ?ss" "(sym_hello sy, map of_char ''hello'') \<in> ?ss"
    "(sym_goodbye sy, map of_char ''goodbye'') \<in> ?ss" by (simp_all add: client_args_def)
  have globals: "?inv h rs (q\<lparr>globals := g\<rparr>) = ?inv h rs q" for h rs q g by (simp add: client_inv_split)
  have served: "wp (and_then (client_calls im sy bs argv q) (\<lambda>_ q.
        and_then (binder_release im bs h q) (\<lambda>_. returns 0))) ?done (\<lambda>_. True)"
    if q: "?inv base [Acquired h] q" and h: "h \<noteq> 0" and f: "found im base h" for bs q h base
  proof -
    have "?done 0 q'" if "?inv base ([Acquired h] @ [Released h]) q'" for q'
      using that client_leaves [OF f] h by (auto simp: client_inv_split)
    then show ?thesis unfolding wp_and_then wp_returns
      by (intro wp_mono [OF client_calls_keep [OF ready q two argv(2)]] wp_mono [OF client_writes(2) [OF ready]]) auto
  qed
  have open_: "wp (binder_open im (128 * 1024) p)
      (\<lambda>_ q. ?inv [] [] q \<and> (\<forall>d bwr m. WriteRead d bwr m \<notin> set (requests q))) (\<lambda>_. True)"
    by (rule wp_mono [OF wp_conj [OF client_opens [OF inv] binder_open_quiet]]) (use start in auto)
  show ?thesis
    unfolding client_main_def if_not_P [OF False] wp_and_then
  proof (rule wp_mono [OF open_], goal_cases)
    case (1 r q)
    then have q: "?inv [] [] q" "ref_changes (requests q) = []" by (auto simp: client_inv_split)
    show ?case
    proof (cases r)
      case None
      with 1 q show ?thesis by (simp add: client_outcome_def)
    next
      case (Some bs)
      show ?thesis
        unfolding Some option.case wp_and_then
      proof (rule wp_mono [OF client_looks_up [OF ready q(1) names(1,3)]], goal_cases)
        case (2 g q1)
        then obtain l1 where l1: "looked_up im (map of_char ''goodbye'') (requests q) l1 g"
          "?inv (requests q @ l1) (taken g) q1" by auto
        then obtain mid where mid: "requests q1 = requests q @ l1 @ mid" "ref_changes mid = taken g"
          by (auto simp: client_inv_split)
        have q1: "?inv (requests q @ l1) (taken g) (q1\<lparr>globals := (globals q1)\<lparr>g_goodbyehandle := g\<rparr>\<rparr>)"
          using l1(2) by (simp add: globals)
        show ?case
          unfolding Let_def wp_and_then
        proof (rule wp_mono [OF client_looks_up [OF ready q1 names(1,2)]], goal_cases)
          case (2 h q2)
          then obtain l2 where l2: "looked_up im (map of_char ''hello'') (requests q1) l2 h"
            "?inv (requests q1 @ l2) (taken h) q2" by auto
          have f: "found im (requests q1 @ l2) h"
            using l1(1) l2(1) mid q(2) unfolding found_def by (metis append.assoc)
          show ?case
          proof (cases "h = 0")
            case True
            with l2(2) client_leaves [OF f] show ?thesis by (auto simp: client_inv_split)
          next
            case h: False
            then have "?inv (requests q1 @ l2) [Acquired h] (q2\<lparr>globals := (globals q2)\<lparr>g_hellohandle := h\<rparr>\<rparr>)"
              using l2(2) by (simp add: globals)
            from served [OF this h f] h show ?thesis by (simp add: Let_def)
          qed
        qed simp_all
      qed simp_all
    qed
  qed simp
qed

definition example_client :: "client_globals process" where
  "example_client = \<lparr>pmem = store_bytes (store_bytes (store_bytes (store_bytes (\<lambda>_. 0)
       0x81000 (svc_mgr_name @ [0])) 0x81100 (map of_char ''hello'' @ [0])) 0x81200 (map of_char ''goodbye'' @ [0]))
       0x81300 [0x79, 0x6F, 0],
     blocks = [], requests = [], budget = 20, threads = [], globals = \<lparr>g_hellohandle = 0, g_goodbyehandle = 0\<rparr>\<rparr>"

definition example_client_image :: "client_globals image" where
  "example_client_image = \<lparr>loop_readbuf = 0x1000, call_readbuf = 0x2000, parse_rdata = 0x3000,
     reply_status = 0x4000, caller_iodata = 0x80400, junk_txn = example_reply_txn,
     junk_io = zero_io, handler_code = (\<lambda>_. None), death_code = (\<lambda>_. None),
     kernel = (\<lambda>h. example_answer [] []), allocator = page_alloc\<rparr>"

definition example_symbols :: symbols where
  "example_symbols = \<lparr>sym_mgr = 0x81000, sym_hello = 0x81100, sym_goodbye = 0x81200,
     sym_hello_handler = 0, sym_goodbye_handler = 0, sym_server_handler = 0\<rparr>"

lemma example_client_strings:
  "cstr (pmem example_client) 0x81000 svc_mgr_name" "cstr (pmem example_client) 0x81100 (map of_char ''hello'')"
  "cstr (pmem example_client) 0x81200 (map of_char ''goodbye'')" "cstr (pmem example_client) 0x81300 [0x79, 0x6F]"
  by code_simp+

theorem client_main_references_witness:
  "wp (client_main example_client_image example_symbols [0x81000, 0x81300] example_client)
    (\<lambda>r p'. client_outcome example_client_image r (requests p'))
    (\<lambda>_. True)"
proof (rule client_main_references)
  let ?args = "client_args example_symbols [0x81000, 0x81300] [[0x79, 0x6F]]"
  have "honest_kernel example_client_image {}"
    by (simp add: honest_kernel_def example_client_image_def speaks_example)
  then show "client_setup example_client_image {}"
    by (simp add: client_setup_def example_client_image_def iodata_ok_def)
  have "strings_at example_client_image {} ?args (pmem example_client)"
    using example_client_strings
    by (auto simp: strings_at_def client_args_def example_symbols_def example_client_image_def name_in_def
        svc_mgr_name no_wrap_def in_region client_shared_def)
  then show "client_inv example_client_image {} ?args [] [] example_client"
    by (simp add: client_inv_split example_client_def)
qed (simp_all add: example_client_def)

end
