(* ===== verification/Cpp_Binder.thy ===== *)
theory Cpp_Binder
  imports Test_Server
begin

text \<open>
  \<open>BinderServicemanager/cpp\<close>: the two services and their client once more, in C++ over Android's
  \<open>libbinder\<close>: \<open>IHelloService.h\<close>, \<open>BnHelloService.cpp\<close>, \<open>BpHelloService.cpp\<close> and the same for
  goodbye, \<open>test_server.cpp\<close>, \<open>test_client.cpp\<close>. What they use of the library is the parameter
  \<open>libbinder\<close>, over a type of parcels; the services' static counters are \<^typ>\<open>server_globals\<close>, as in
  the C server. What the client logs is its result and is modelled; the other log lines are not.
\<close>

subsection \<open>What the code uses of the library\<close>

text \<open>\<open>const Parcel &data\<close>: reading moves the position in the parcel, so readers return it anew.
  The status of a write is not used by the code.\<close>

record 'p libbinder =
  new_parcel :: 'p
  writeInt32 :: "u32 \<Rightarrow> 'p \<Rightarrow> 'p"
  writeString16 :: "u16 list \<Rightarrow> 'p \<Rightarrow> 'p"
  readInt32 :: "'p \<Rightarrow> u32 \<times> 'p"
  readString16 :: "'p \<Rightarrow> u16 list \<times> 'p"
  String16 :: "byte list \<Rightarrow> u16 list"
  String8 :: "u16 list \<Rightarrow> byte list"
  BBinder_onTransact :: "u32 \<Rightarrow> 'p \<Rightarrow> 'p \<Rightarrow> u32 \<Rightarrow> int \<times> 'p \<times> 'p"
  NO_ERROR :: int

text \<open>\<open>remote()->transact(code, data, &reply)\<close>, where \<open>'w\<close> is the rest of the system.\<close>

type_synonym ('p, 'w) remote = "u32 \<Rightarrow> 'p \<Rightarrow> 'p \<Rightarrow> 'w \<Rightarrow> int \<times> 'p \<times> 'w"

subsection \<open>The interfaces\<close>

definition HELLO_SVR_CMD_SAYHELLO_cpp :: u32 where "HELLO_SVR_CMD_SAYHELLO_cpp = 0"
definition HELLO_SVR_CMD_SAYHELLO_TO_cpp :: u32 where "HELLO_SVR_CMD_SAYHELLO_TO_cpp = 1"
definition GOODBYE_SVR_CMD_SAYGOODBYE_cpp :: u32 where "GOODBYE_SVR_CMD_SAYGOODBYE_cpp = 0"
definition GOODBYE_SVR_CMD_SAYGOODBYE_TO_cpp :: u32 where "GOODBYE_SVR_CMD_SAYGOODBYE_TO_cpp = 1"

lemmas cpp_codes = HELLO_SVR_CMD_SAYHELLO_cpp_def HELLO_SVR_CMD_SAYHELLO_TO_cpp_def
  GOODBYE_SVR_CMD_SAYGOODBYE_cpp_def GOODBYE_SVR_CMD_SAYGOODBYE_TO_cpp_def

subsection \<open>The services\<close>

text \<open>The two methods of \<open>BnHelloService\<close>; \<open>sayhello_to\<close> only logs its argument.\<close>

definition bn_sayhello :: "server_globals \<Rightarrow> server_globals" where
  "bn_sayhello g = g\<lparr>sayhello_cnt := sayhello_cnt g + 1\<rparr>"

definition bn_sayhello_to :: "byte list \<Rightarrow> server_globals \<Rightarrow> u32 \<times> server_globals" where
  "bn_sayhello_to name g =
     (let g = g\<lparr>sayhello_to_cnt := sayhello_to_cnt g + 1\<rparr> in (sayhello_to_cnt g, g))"

definition bn_saygoodbye :: "server_globals \<Rightarrow> server_globals" where
  "bn_saygoodbye g = g\<lparr>saygoodbye_cnt := saygoodbye_cnt g + 1\<rparr>"

definition bn_saygoodbye_to :: "byte list \<Rightarrow> server_globals \<Rightarrow> u32 \<times> server_globals" where
  "bn_saygoodbye_to name g =
     (let g = g\<lparr>saygoodbye_to_cnt := saygoodbye_to_cnt g + 1\<rparr> in (saygoodbye_to_cnt g, g))"

text \<open>\<open>onTransact\<close> returns the status, the two parcels and the counters.\<close>

definition hello_onTransact ::
  "'p libbinder \<Rightarrow> u32 \<Rightarrow> 'p \<Rightarrow> 'p \<Rightarrow> u32 \<Rightarrow> server_globals \<Rightarrow> (int \<times> 'p \<times> 'p) \<times> server_globals" where
  "hello_onTransact lib code data reply flags g =
     (if code = HELLO_SVR_CMD_SAYHELLO_cpp then ((NO_ERROR lib, data, reply), bn_sayhello g)
      else if code = HELLO_SVR_CMD_SAYHELLO_TO_cpp then
        let (policy, data) = readInt32 lib data;
            (name16, data) = readString16 lib data;
            name8 = String8 lib name16;
            (cnt, g) = bn_sayhello_to name8 g;
            reply = writeInt32 lib cnt reply
        in ((NO_ERROR lib, data, reply), g)
      else (BBinder_onTransact lib code data reply flags, g))"

definition goodbye_onTransact ::
  "'p libbinder \<Rightarrow> u32 \<Rightarrow> 'p \<Rightarrow> 'p \<Rightarrow> u32 \<Rightarrow> server_globals \<Rightarrow> (int \<times> 'p \<times> 'p) \<times> server_globals" where
  "goodbye_onTransact lib code data reply flags g =
     (if code = GOODBYE_SVR_CMD_SAYGOODBYE_cpp then ((NO_ERROR lib, data, reply), bn_saygoodbye g)
      else if code = GOODBYE_SVR_CMD_SAYGOODBYE_TO_cpp then
        let (policy, data) = readInt32 lib data;
            (name16, data) = readString16 lib data;
            name8 = String8 lib name16;
            (cnt, g) = bn_saygoodbye_to name8 g;
            reply = writeInt32 lib cnt reply
        in ((NO_ERROR lib, data, reply), g)
      else (BBinder_onTransact lib code data reply flags, g))"

subsection \<open>The proxies\<close>

definition bp_sayhello :: "'p libbinder \<Rightarrow> ('p, 'w) remote \<Rightarrow> 'w \<Rightarrow> 'w" where
  "bp_sayhello lib transact w =
     (let data = writeInt32 lib 0 (new_parcel lib);
          (status, reply, w) = transact HELLO_SVR_CMD_SAYHELLO_cpp data (new_parcel lib) w
      in w)"

definition bp_sayhello_to :: "'p libbinder \<Rightarrow> ('p, 'w) remote \<Rightarrow> byte list \<Rightarrow> 'w \<Rightarrow> u32 \<times> 'w" where
  "bp_sayhello_to lib transact name w =
     (let data = writeInt32 lib 0 (new_parcel lib);
          data = writeString16 lib (String16 lib name) data;
          (status, reply, w) = transact HELLO_SVR_CMD_SAYHELLO_TO_cpp data (new_parcel lib) w
      in (fst (readInt32 lib reply), w))"

definition bp_saygoodbye :: "'p libbinder \<Rightarrow> ('p, 'w) remote \<Rightarrow> 'w \<Rightarrow> 'w" where
  "bp_saygoodbye lib transact w =
     (let data = writeInt32 lib 0 (new_parcel lib);
          (status, reply, w) = transact GOODBYE_SVR_CMD_SAYGOODBYE_cpp data (new_parcel lib) w
      in w)"

definition bp_saygoodbye_to :: "'p libbinder \<Rightarrow> ('p, 'w) remote \<Rightarrow> byte list \<Rightarrow> 'w \<Rightarrow> u32 \<times> 'w" where
  "bp_saygoodbye_to lib transact name w =
     (let data = writeInt32 lib 0 (new_parcel lib);
          data = writeString16 lib (String16 lib name) data;
          (status, reply, w) = transact GOODBYE_SVR_CMD_SAYGOODBYE_TO_cpp data (new_parcel lib) w
      in (fst (readInt32 lib reply), w))"

subsection \<open>The programs\<close>

text \<open>\<open>test_server.cpp\<close>. The service manager's proxy and the thread pool belong to the library; a
  pool that is never left is None. The status of \<open>addService\<close> is not used.\<close>

datatype bn_object = BnHelloService | BnGoodbyeService

definition cpp_server_main ::
  "'p libbinder \<Rightarrow> (u16 list \<Rightarrow> bn_object \<Rightarrow> 'w \<Rightarrow> int \<times> 'w) \<Rightarrow> ('w \<Rightarrow> 'w) \<Rightarrow> ('w \<Rightarrow> 'w option) \<Rightarrow>
   'w \<Rightarrow> (int \<times> 'w) option" where
  "cpp_server_main lib addService startThreadPool joinThreadPool w =
     (let (status, w) = addService (String16 lib [0x68, 0x65, 0x6C, 0x6C, 0x6F]) BnHelloService w;
          (status, w) = addService (String16 lib [0x67, 0x6F, 0x6F, 0x64, 0x62, 0x79, 0x65]) BnGoodbyeService w
      in map_option (\<lambda>w. (0, w)) (joinThreadPool (startThreadPool w)))"

text \<open>\<open>onTransact\<close> is virtual.\<close>

definition onTransact ::
  "'p libbinder \<Rightarrow> bn_object \<Rightarrow> u32 \<Rightarrow> 'p \<Rightarrow> 'p \<Rightarrow> u32 \<Rightarrow> server_globals \<Rightarrow> (int \<times> 'p \<times> 'p) \<times> server_globals" where
  "onTransact lib bn = (case bn of BnHelloService \<Rightarrow> hello_onTransact lib | BnGoodbyeService \<Rightarrow> goodbye_onTransact lib)"

text \<open>\<open>test_client.cpp\<close>, with the lines it logs.\<close>

datatype client_log =
    Usage
  | No_hello
  | No_goodbye
  | Called_sayhello
  | Called_sayhello_to "byte list" u32
  | Called_saygoodbye
  | Called_saygoodbye_to "byte list" u32

text \<open>Without even a program name, \<open>argv[1]\<close> lies behind the arguments: None.\<close>

definition cpp_client_main ::
  "'p libbinder \<Rightarrow> (u16 list \<Rightarrow> 'w \<Rightarrow> ('p, 'w) remote option \<times> 'w) \<Rightarrow> byte list list \<Rightarrow> 'w \<Rightarrow>
   (int \<times> client_log \<times> 'w) option" where
  "cpp_client_main lib getService argv w =
     (let argc = length argv in
      if argc = 1 then Some (-1, Usage, w)
      else if argc = 0 then None
      else if argv ! 1 = [0x68, 0x65, 0x6C, 0x6C, 0x6F] then
        let (binder, w) = getService (String16 lib [0x68, 0x65, 0x6C, 0x6C, 0x6F]) w in
        case binder of
          None \<Rightarrow> Some (-1, No_hello, w)
        | Some service \<Rightarrow>
            if argc < 3 then Some (0, Called_sayhello, bp_sayhello lib service w)
            else
              let (ret, w) = bp_sayhello_to lib service (argv ! 2) w
              in Some (0, Called_sayhello_to (argv ! 2) ret, w)
      else
        let (binder, w) = getService (String16 lib [0x67, 0x6F, 0x6F, 0x64, 0x62, 0x79, 0x65]) w in
        case binder of
          None \<Rightarrow> Some (-1, No_goodbye, w)
        | Some service \<Rightarrow>
            if argc < 3 then Some (0, Called_saygoodbye, bp_saygoodbye lib service w)
            else
              let (ret, w) = bp_saygoodbye_to lib service (argv ! 2) w
              in Some (0, Called_saygoodbye_to (argv ! 2) ret, w))"

end
