(* ===== verification/Cpp_Interop.thy ===== *)
theory Cpp_Interop
  imports Cpp_Binder End_To_End
begin

text \<open>
  The C++ programs at work, with each other and with the C programs. \<open>Parcel\<close> is known by the bytes
  it carries, whose layout the C functions of \<open>binder.c\<close> share.
\<close>

subsection \<open>The bytes of a parcel\<close>

text \<open>A string: the number of its units, the units, a terminator, and padding to whole words.\<close>

definition padding :: "u16 list \<Rightarrow> nat" where
  "padding us = (2 * Suc (length us) + 3) div 4 * 4 - 2 * Suc (length us)"

definition string_wire :: "u16 list \<Rightarrow> byte list \<Rightarrow> byte list" where
  "string_wire us pad = le32 (of_nat (length us)) @ enc16 (us @ [0]) @ pad"

lemma string_wire_length:
  "length pad = padding us \<Longrightarrow> length (string_wire us pad) = 4 + (2 * Suc (length us) + 3) div 4 * 4"
  by (simp add: string_wire_def padding_def)

text \<open>
  What the code relies on: a new parcel is empty, writers append, readers take from the front, and
  reading a number from a parcel that has none left gives 0. \<open>contents p\<close> are the bytes written to
  \<open>p\<close>, \<open>unread p\<close> those behind its position.
\<close>

definition parcel_laws :: "'p libbinder \<Rightarrow> ('p \<Rightarrow> byte list) \<Rightarrow> ('p \<Rightarrow> byte list) \<Rightarrow> bool" where
  "parcel_laws lib contents unread \<longleftrightarrow>
     contents (new_parcel lib) = [] \<and> unread (new_parcel lib) = [] \<and>
     (\<forall>n p. contents (writeInt32 lib n p) = contents p @ le32 n) \<and>
     (\<forall>us p. length us < 536870912 \<longrightarrow>
        (\<exists>pad. length pad = padding us \<and>
           contents (writeString16 lib us p) = contents p @ string_wire us pad)) \<and>
     (\<forall>n p rest. unread p = le32 n @ rest \<longrightarrow>
        (\<exists>p'. readInt32 lib p = (n, p') \<and> unread p' = rest)) \<and>
     (\<forall>p. unread p = [] \<longrightarrow> fst (readInt32 lib p) = 0) \<and>
     (\<forall>us pad p rest. length us < 536870912 \<longrightarrow> length pad = padding us \<longrightarrow>
        unread p = string_wire us pad @ rest \<longrightarrow>
        (\<exists>p'. readString16 lib p = (us, p') \<and> unread p' = rest))"

lemma read_number:
  "parcel_laws lib contents unread \<Longrightarrow> unread p = le32 n @ rest \<Longrightarrow>
   \<exists>p'. readInt32 lib p = (n, p') \<and> unread p' = rest"
  unfolding parcel_laws_def by blast

lemma read_string:
  "parcel_laws lib contents unread \<Longrightarrow> length us < 536870912 \<Longrightarrow> length pad = padding us \<Longrightarrow>
   unread p = string_wire us pad @ rest \<Longrightarrow> \<exists>p'. readString16 lib p = (us, p') \<and> unread p' = rest"
  unfolding parcel_laws_def by blast

lemma number_bytes:
  "parcel_laws lib contents unread \<Longrightarrow> contents (writeInt32 lib n p) = contents p @ le32 n"
  unfolding parcel_laws_def by blast

lemma new_bytes: "parcel_laws lib contents unread \<Longrightarrow> contents (new_parcel lib) = []"
  unfolding parcel_laws_def by blast

text \<open>What the proxies send.\<close>

definition plain_parcel :: "'p libbinder \<Rightarrow> 'p" where
  "plain_parcel lib = writeInt32 lib 0 (new_parcel lib)"

definition name_parcel :: "'p libbinder \<Rightarrow> byte list \<Rightarrow> 'p" where
  "name_parcel lib name = writeString16 lib (String16 lib name) (plain_parcel lib)"

lemma plain_bytes: "parcel_laws lib contents unread \<Longrightarrow> contents (plain_parcel lib) = le32 0"
  by (simp add: plain_parcel_def number_bytes new_bytes)

lemma name_bytes:
  assumes "parcel_laws lib contents unread" and "length (String16 lib name) < 536870912"
  shows "\<exists>pad. length pad = padding (String16 lib name) \<and>
    contents (name_parcel lib name) = le32 0 @ string_wire (String16 lib name) pad"
proof -
  from assms obtain pad where "length pad = padding (String16 lib name)"
    "contents (name_parcel lib name) = contents (plain_parcel lib) @ string_wire (String16 lib name) pad"
    unfolding parcel_laws_def name_parcel_def by blast
  with plain_bytes [OF assms(1)] show ?thesis by auto
qed

subsection \<open>The C functions on the same bytes\<close>

text \<open>A transaction whose data are the bytes \<open>bs\<close>, and a reader in front of them.\<close>

definition arrives :: "byte list \<Rightarrow> binder_transaction_data \<Rightarrow> mem \<Rightarrow> bool" where
  "arrives bs t m \<longleftrightarrow> txn_data_size t = of_nat (length bs) \<and> 0 < unat (txn_buffer t) \<and>
     unat (txn_buffer t) + length bs < 4294967296 \<and> load_bytes m (txn_buffer t) (length bs) = bs"

definition at_bytes :: "binder_io \<Rightarrow> mem \<Rightarrow> byte list \<Rightarrow> bool" where
  "at_bytes r m bs \<longleftrightarrow> unat (io_data_avail r) = length bs \<and> 0 < unat (io_data r) \<and>
     unat (io_data r) + length bs < 4294967296 \<and> load_bytes m (io_data r) (length bs) = bs"

lemma arrives_at: "arrives bs t m \<Longrightarrow> at_bytes (bio_init_from_txn r t) m bs"
  by (simp add: arrives_def at_bytes_def bio_init_from_txn_def unat_of_nat_small)

lemma at_advance:
  assumes "at_bytes r m (xs @ rest)" and "unat n = length xs"
  shows "at_bytes (bio_advance r n) m rest" and "load_bytes m (io_data r) (length xs) = xs"
proof -
  have n: "n = of_nat (length xs)" by (simp flip: assms(2))
  have split: "load_bytes m (io_data r) (length xs) @ load_bytes m (io_data r + n) (length rest) = xs @ rest"
    using assms(1) load_bytes_add [of m "io_data r" "length xs" "length rest"] by (simp add: at_bytes_def n)
  have "unat (io_data r + n) = unat (io_data r) + length xs"
    using assms by (simp add: at_bytes_def unat_add_nowrap)
  with split assms show "at_bytes (bio_advance r n) m rest" "load_bytes m (io_data r) (length xs) = xs"
    by (auto simp: at_bytes_def unat_sub word_le_nat_alt)
qed

lemma get_number:
  assumes "at_bytes r m (le32 n @ rest)"
  shows "bio_get_uint32 m r = (n, bio_advance r 4)" and "at_bytes (bio_advance r 4) m rest"
proof -
  note next_ = at_advance [OF assms, of 4]
  show "at_bytes (bio_advance r 4) m rest" using next_(1) by simp
  have "4 \<le> unat (io_data_avail r)" "io_data r \<noteq> NULL" using assms by (auto simp: at_bytes_def)
  with load32_bytes [of m "io_data r" n] next_(2) show "bio_get_uint32 m r = (n, bio_advance r 4)"
    by (simp add: bio_get_uint32_def bio_get_fits)
qed

lemma get_string:
  assumes "at_bytes r m (string_wire us pad @ rest)" and "length us < 536870912" and "length pad = padding us"
  shows "\<exists>x r'. bio_get_string16 m r = (x, of_nat (length us), r') \<and> x \<noteq> NULL \<and>
    load_u16s m x (length us) = us \<and> at_bytes r' m rest"
proof -
  let ?sz = "(of_nat (length us) + 1) * sizeof_uint16 :: u32" and ?r = "bio_advance r 4"
  let ?bs = "enc16 (us @ [0])"
  have sz: "unat ?sz = 2 * Suc (length us)"
    using assms(2) by (intro string_size) (simp_all add: word_le_nat_alt unat_of_nat_small)
  then have al: "unat (align4 ?sz) = (2 * Suc (length us) + 3) div 4 * 4"
    using assms(2) by (subst align4_small) simp_all
  have at: "at_bytes r m (le32 (of_nat (length us)) @ ((?bs @ pad) @ rest))"
    using assms(1) by (simp add: string_wire_def)
  note n = get_number [OF at]
  have len: "unat (align4 ?sz) = length (?bs @ pad)" using al assms(3) by (simp add: padding_def)
  note next_ = at_advance [OF n(2) len]
  have "unat (align4 ?sz) \<le> unat (io_data_avail ?r)" "io_data ?r \<noteq> NULL"
    using n(2) len by (auto simp: at_bytes_def)
  then have get: "bio_get_string16 m r = (io_data ?r, of_nat (length us), bio_advance ?r (align4 ?sz))"
    by (simp only: bio_get_string16_def n(1) Let_def case_prod_conv bio_get_fits)
  have "load_bytes m (io_data ?r) (2 * Suc (length us)) = ?bs"
    using at_advance(2) [of ?r m ?bs "pad @ rest" ?sz] n(2) sz by (simp del: load_bytes.simps)
  then have "load_u16s m (io_data ?r) (Suc (length us)) = us @ [0]"
    using load_u16s_enc16 [of m "io_data ?r" "us @ [0]"] by simp
  from get load_u16s_butlast [OF this] next_(1) \<open>io_data ?r \<noteq> NULL\<close> show ?thesis by blast
qed

text \<open>The bytes of a message that C functions have written.\<close>

definition message_bytes :: "binder_io \<times> mem \<Rightarrow> byte list" where
  "message_bytes = (\<lambda>(b, m). load_bytes m (io_data0 b) (io_pos b))"

lemma number_message:
  assumes inv: "bio_inv lo mid hi b" and "io_data0 b = io_data b" and "4 \<le> unat (io_data_avail b)"
    and "bio_put_uint32 n (b, m) = (b1, m1)"
  shows "message_bytes (b1, m1) = le32 n"
proof -
  have b1: "b1 = bio_advance b 4" "m1 = store32 m (io_data b) n"
    using put_uint32_fits [OF inv assms(3)] assms(4) by simp_all
  have "io_pos b = 0" using assms(2) by (simp add: io_pos_def)
  then have "io_pos b1 = 4" using io_pos_advance [OF inv, of 4] assms(3) b1 by simp
  moreover have "load_bytes m1 (io_data b) 4 = le32 n"
    using load_bytes_written [OF inv, of "le32 n" m] assms(3) b1 by (simp add: store32_def)
  ultimately show ?thesis using b1 assms(2) by (simp add: message_bytes_def)
qed

subsection \<open>A served object\<close>

text \<open>
  What a client may expect of a service behind a binder, whose two calls have the codes 0 and 1:
  both are counted, and the reply to the second holds the new count. \<open>count w\<close> are the counters in
  the state \<open>w\<close> of the system, \<open>limit\<close> bounds the units of a name; \<open>plain\<close> and \<open>to\<close> are the two
  methods of the service.
\<close>

definition serves ::
  "('p \<Rightarrow> byte list) \<Rightarrow> ('p \<Rightarrow> byte list) \<Rightarrow> nat \<Rightarrow> ('p, 'w) remote \<Rightarrow> ('w \<Rightarrow> server_globals) \<Rightarrow>
   (server_globals \<Rightarrow> server_globals) \<Rightarrow> (byte list \<Rightarrow> server_globals \<Rightarrow> u32 \<times> server_globals) \<Rightarrow> bool" where
  "serves contents unread limit transact count plain to \<longleftrightarrow>
     (\<forall>data reply w. contents data = le32 0 \<longrightarrow>
        (\<exists>st q w'. transact 0 data reply w = (st, q, w') \<and> count w' = plain (count w))) \<and>
     (\<forall>data reply w us pad name. length us < limit \<longrightarrow> length pad = padding us \<longrightarrow>
        contents data = le32 0 @ string_wire us pad \<longrightarrow>
        (\<exists>st q w' n g. transact 1 data reply w = (st, q, w') \<and>
           to name (count w) = (n, g) \<and> unread q = le32 n \<and> count w' = g))"

lemma proxies_same: "bp_saygoodbye = bp_sayhello" "bp_saygoodbye_to = bp_sayhello_to"
  by (intro ext, simp add: bp_saygoodbye_def bp_sayhello_def bp_saygoodbye_to_def bp_sayhello_to_def cpp_codes)+

lemma served_plain:
  assumes "serves contents unread limit transact count plain to" and "parcel_laws lib contents unread"
  shows "count (bp_sayhello lib transact w) = plain (count w)"
proof -
  obtain st q w' where "transact 0 (plain_parcel lib) (new_parcel lib) w = (st, q, w')"
    "count w' = plain (count w)"
    using assms(1) plain_bytes [OF assms(2)] unfolding serves_def by blast
  then show ?thesis by (simp add: bp_sayhello_def plain_parcel_def cpp_codes)
qed

lemma served_to:
  assumes "serves contents unread limit transact count plain to" and "parcel_laws lib contents unread"
    and "length (String16 lib name) < limit" and "limit \<le> 536870912"
  shows "apsnd count (bp_sayhello_to lib transact name w) = to name (count w)"
proof -
  obtain pad where "length pad = padding (String16 lib name)"
    "contents (name_parcel lib name) = le32 0 @ string_wire (String16 lib name) pad"
    using name_bytes [OF assms(2)] assms(3,4) by (meson order_less_le_trans)
  then obtain st q w' n g where
    call: "transact 1 (name_parcel lib name) (new_parcel lib) w = (st, q, w')"
    and n: "to name (count w) = (n, g)" "unread q = le32 n" "count w' = g"
    using assms(1,3) unfolding serves_def by blast
  from read_number [OF assms(2), of q n "[]"] n(2) have "fst (readInt32 lib q) = n" by auto
  with call n show ?thesis by (simp add: bp_sayhello_to_def name_parcel_def plain_parcel_def cpp_codes)
qed

subsection \<open>Reaching a service\<close>

text \<open>
  The driver and the library carry a call to the C++ service: its \<open>onTransact\<close> reads the bytes that
  were written, its reply starts empty, and when it returns \<open>NO_ERROR\<close> the caller reads the bytes of
  the reply.
\<close>

definition reaches ::
  "'p libbinder \<Rightarrow> ('p \<Rightarrow> byte list) \<Rightarrow> ('p \<Rightarrow> byte list) \<Rightarrow> bn_object \<Rightarrow> ('p, server_globals) remote \<Rightarrow> bool" where
  "reaches lib contents unread bn transact \<longleftrightarrow>
     (\<forall>code data reply g. \<exists>q e. unread q = contents data \<and> contents e = [] \<and>
        (\<forall>q' rep g'. onTransact lib bn code q e 0 g = ((NO_ERROR lib, q', rep), g') \<longrightarrow>
           (\<exists>r. transact code data reply g = (NO_ERROR lib, r, g') \<and> unread r = contents rep)))"

text \<open>
  The driver hands a call of at most \<open>limit\<close> bytes to the C server, whose \<open>binder_parse\<close> runs a
  handler on it; when the handler returns 0, the caller reads the bytes of the reply. What else
  the server does meanwhile does not change its counters.
\<close>

definition reaches_c ::
  "'p libbinder \<Rightarrow> ('p \<Rightarrow> byte list) \<Rightarrow> ('p \<Rightarrow> byte list) \<Rightarrow> nat \<Rightarrow> server_globals image \<Rightarrow>
   server_globals binder_handler \<Rightarrow> binder_state \<Rightarrow> addr \<Rightarrow> ('p, server_globals process) remote \<Rightarrow> bool" where
  "reaches_c lib contents unread limit im handler bs txn transact \<longleftrightarrow>
     (\<forall>code data reply p. length (contents data) \<le> limit \<longrightarrow>
        (\<exists>p1. globals p1 = globals p \<and> txn_code (load_txn (pmem p1) txn) = code \<and>
           arrives (contents data) (load_txn (pmem p1) txn) (pmem p1) \<and>
           (\<forall>rest rep p2. handler bs txn (msg_for im txn p1) (reply_for im) p1 = returns (0, rest, rep) p2 \<longrightarrow>
              (\<exists>q p3. transact code data reply p = (NO_ERROR lib, q, p3) \<and> globals p3 = globals p2 \<and>
                 unread q = message_bytes (rep, pmem p2)))))"

text \<open>
  A service in both languages: the C++ class \<open>bn\<close> with its methods \<open>plain\<close> and \<open>to\<close>, and the C handler
  \<open>c\<close> with the same effect on the counters.
\<close>

locale counted_service =
  fixes plain :: "server_globals \<Rightarrow> server_globals" and to :: "byte list \<Rightarrow> server_globals \<Rightarrow> u32 \<times> server_globals"
    and bn :: bn_object and c :: "byte list \<Rightarrow> server_globals binder_handler"
    and lib :: "'p libbinder"
  assumes to_name: "to name g = to name' g"
    and cpp_plain: "onTransact lib bn 0 q e flags g = ((NO_ERROR lib, q, e), plain g)"
    and cpp_to: "readInt32 lib q = (policy, q1) \<Longrightarrow> readString16 lib q1 = (us, q2) \<Longrightarrow> to (String8 lib us) g = (n, g') \<Longrightarrow>
      onTransact lib bn 1 q e flags g = ((NO_ERROR lib, q2, writeInt32 lib n e), g')"
    and c_plain: "txn_code (load_txn (pmem p) txn) = 0 \<Longrightarrow>
      \<exists>rest. c junk bs txn msg reply p = returns (0, rest, reply) (p\<lparr>globals := plain (globals p)\<rparr>)"
    and c_to: "length junk = 512 \<Longrightarrow> txn_code (load_txn (pmem p) txn) = 1 \<Longrightarrow>
      bio_get_uint32 (pmem p) msg = (pol, msg1) \<Longrightarrow> bio_get_string16 (pmem p) msg1 = (x, len, msg2) \<Longrightarrow>
      x \<noteq> NULL \<Longrightarrow> unat len < 512 \<Longrightarrow> to name (globals p) = (n, g) \<Longrightarrow>
      bio_put_uint32 n (reply, pmem p) = (reply', m) \<Longrightarrow>
      c junk bs txn msg reply p = returns (0, msg2, reply') (p\<lparr>pmem := m, globals := g\<rparr>)"
    and c_refuses: "txn_code (load_txn (pmem p) txn) \<noteq> 0 \<Longrightarrow> bio_get_uint32 (pmem p) msg = (pol, msg1) \<Longrightarrow>
      txn_code (load_txn (pmem p) txn) = 1 \<longrightarrow> fst (bio_get_string16 (pmem p) msg1) = NULL \<Longrightarrow>
      \<exists>rest. c junk bs txn msg reply p = returns (-1, rest, reply) p"
begin

lemma transact_to:
  assumes "parcel_laws lib contents unread" and "length us < 536870912" and "length pad = padding us"
    and "unread q = le32 0 @ string_wire us pad" and "contents e = []" and "to name g = (n, g')"
  shows "\<exists>q' rep. onTransact lib bn 1 q e flags g = ((NO_ERROR lib, q', rep), g') \<and> contents rep = le32 n"
proof -
  from read_number [OF assms(1,4)] obtain q1 where 1: "readInt32 lib q = (0, q1)"
    "unread q1 = string_wire us pad" by blast
  then obtain q2 where 2: "readString16 lib q1 = (us, q2)"
    using read_string [OF assms(1-3), of q1 "[]"] by auto
  have "to (String8 lib us) g = (n, g')" using assms(6) to_name by metis
  from cpp_to [OF 1(1) 2 this] assms(5) number_bytes [OF assms(1)] show ?thesis by simp
qed

lemma reaches_serves:
  assumes "parcel_laws lib contents unread" and "reaches lib contents unread bn transact"
  shows "serves contents unread 536870912 transact (\<lambda>g. g) plain to"
  unfolding serves_def
proof (intro conjI allI impI)
  fix data reply and g :: server_globals
  obtain q e where "\<And>q' rep g'. onTransact lib bn 0 q e 0 g = ((NO_ERROR lib, q', rep), g') \<Longrightarrow>
      \<exists>r. transact 0 data reply g = (NO_ERROR lib, r, g')"
    using assms(2) unfolding reaches_def by metis
  from this [OF cpp_plain] show "\<exists>st q w'. transact 0 data reply g = (st, q, w') \<and> w' = plain g" by blast
next
  fix data reply us and pad name :: "byte list" and g
  assume us: "length us < (536870912 :: nat)" "length pad = padding us" "contents data = le32 0 @ string_wire us pad"
  obtain n g' where n: "to name g = (n, g')" by fastforce
  obtain q e where q: "unread q = contents data" "contents e = []"
    and answered: "\<And>q' rep g'. onTransact lib bn 1 q e 0 g = ((NO_ERROR lib, q', rep), g') \<Longrightarrow>
      \<exists>r. transact 1 data reply g = (NO_ERROR lib, r, g') \<and> unread r = contents rep"
    using assms(2) unfolding reaches_def by blast
  obtain q' rep where "onTransact lib bn 1 q e 0 g = ((NO_ERROR lib, q', rep), g')" "contents rep = le32 n"
    using transact_to [OF assms(1) us(1,2) _ q(2) n] q(1) us(3) by metis
  with answered n show "\<exists>st q w' n g'. transact 1 data reply g = (st, q, w') \<and>
      to name g = (n, g') \<and> unread q = le32 n \<and> w' = g'" by fastforce
qed

lemma handler_to:
  assumes "length junk = 512" and "rdata_ok im" and us: "length us < 512" "length pad = padding us"
    and "txn_code (load_txn (pmem p) txn) = 1"
    and arr: "arrives (le32 0 @ string_wire us pad) (load_txn (pmem p) txn) (pmem p)"
    and n: "to name (globals p) = (n, g)"
  shows "\<exists>rest rep m. c junk bs txn (msg_for im txn p) (reply_for im) p =
      returns (0, rest, rep) (p\<lparr>pmem := m, globals := g\<rparr>) \<and> message_bytes (rep, m) = le32 n"
proof -
  let ?m = "pmem p"
  note at = arrives_at [OF arr, of "junk_io im", folded msg_for_def]
  note header = get_number [OF at]
  from get_string [of "bio_advance (msg_for im txn p) 4" ?m us pad "[]"] header(2) us obtain x r' where
    str: "bio_get_string16 ?m (bio_advance (msg_for im txn p) 4) = (x, of_nat (length us), r')" "x \<noteq> NULL"
    by auto
  have len: "unat (of_nat (length us) :: u32) < 512" using us(1) by (simp add: unat_of_nat_small)
  obtain rep m where put: "bio_put_uint32 n (reply_for im, ?m) = (rep, m)" by fastforce
  have "message_bytes (rep, m) = le32 n"
    by (rule number_message [OF reply_inv [OF assms(2)] _ _ put])
      (simp_all add: reply_for_def bio_init_def Let_def sizeof_size_t_def)
  with c_to [OF assms(1,5) header(1) str len n put] show ?thesis by blast
qed

lemma reaches_c_serves:
  assumes laws: "parcel_laws lib contents unread" and "rdata_ok im" and "length junk = 512"
    and "2048 \<le> limit" and transact: "reaches_c lib contents unread limit im (c junk) bs txn transact"
  shows "serves contents unread 512 transact globals plain to"
  unfolding serves_def
proof (intro conjI allI impI)
  fix data reply and p :: "server_globals process"
  assume "contents data = le32 0"
  then have "length (contents data) \<le> limit" using assms(4) by simp
  with transact obtain p1 where p1: "globals p1 = globals p" "txn_code (load_txn (pmem p1) txn) = 0"
    and answered: "\<And>rest rep p2. c junk bs txn (msg_for im txn p1) (reply_for im) p1 = returns (0, rest, rep) p2 \<Longrightarrow>
      \<exists>q p3. transact 0 data reply p = (NO_ERROR lib, q, p3) \<and> globals p3 = globals p2"
    unfolding reaches_c_def by metis
  from c_plain [OF p1(2)] answered p1(1)
  show "\<exists>st q w'. transact 0 data reply p = (st, q, w') \<and> globals w' = plain (globals p)" by fastforce
next
  fix data reply us and pad name :: "byte list" and p :: "server_globals process"
  assume us: "length us < (512 :: nat)" "length pad = padding us" "contents data = le32 0 @ string_wire us pad"
  have "length (contents data) \<le> limit" using us assms(4) by (simp add: string_wire_length)
  with transact obtain p1 where p1: "globals p1 = globals p" "txn_code (load_txn (pmem p1) txn) = 1"
      "arrives (contents data) (load_txn (pmem p1) txn) (pmem p1)"
    and answered: "\<And>rest rep p2. c junk bs txn (msg_for im txn p1) (reply_for im) p1 = returns (0, rest, rep) p2 \<Longrightarrow>
      \<exists>q p3. transact 1 data reply p = (NO_ERROR lib, q, p3) \<and> globals p3 = globals p2 \<and>
        unread q = message_bytes (rep, pmem p2)"
    unfolding reaches_c_def by metis
  obtain n g where n: "to name (globals p) = (n, g)" by fastforce
  obtain rest rep m where h: "c junk bs txn (msg_for im txn p1) (reply_for im) p1 =
      returns (0, rest, rep) (p1\<lparr>pmem := m, globals := g\<rparr>)" "message_bytes (rep, m) = le32 n"
    using handler_to [OF assms(3,2) us(1,2) p1(2) p1(3) [unfolded us(3)]] n p1(1) by metis
  with answered [OF h(1)] n show "\<exists>st q w' n g. transact 1 data reply p = (st, q, w') \<and>
      to name (globals p) = (n, g) \<and> unread q = le32 n \<and> globals w' = g" by fastforce
qed

end

subsection \<open>The C client's message\<close>

lemma string_message:
  assumes inv: "bio_inv lo mid hi b" and done_: "message_bytes (b, m) = bs"
    and a: "a \<noteq> NULL" and s: "cstr m a s" "no_wrap a (Suc (length s))" "region a (Suc (length s)) \<inter> bio_free b = {}"
    and n: "length s < 536870912" and room: "4 + (2 * Suc (length s) + 3) div 4 * 4 \<le> unat (io_data_avail b)"
  shows "\<exists>b' m' pad. bio_put_string16_x a (b, m) = Some (b', m') \<and> length pad = padding (map ucast s) \<and>
    message_bytes (b', m') = bs @ string_wire (map ucast s) pad"
proof -
  let ?us = "map ucast s :: u16 list" and ?n = "of_nat (length s) :: u32"
  let ?sz = "(?n + 1) * sizeof_uint16" and ?bs = "enc16 (?us @ [0])"
  have sz: "unat ?sz = 2 * Suc (length s)" using string_size(2) [OF _ string_bound [OF n]] n by simp
  then have al: "unat (align4 ?sz) = (2 * Suc (length s) + 3) div 4 * 4" using n by (subst align4_small) simp_all
  obtain b1 m1 where put: "bio_put_uint32 ?n (b, m) = (b1, m1)" by fastforce
  obtain p b2 where alloc: "bio_alloc b1 ?sz = (p, b2)" by fastforce
  have b1: "b1 = bio_advance b 4" "m1 = store_bytes m (io_data b) (le32 ?n)"
    using put_uint32_fits [OF inv, of ?n m] room put by (simp_all add: store32_def)
  have inv1: "bio_inv lo mid hi b1"
    using bio_ext_inv [OF inv, of m b1 m1] put_uint32_ext [OF inv, of m ?n] put by simp
  have av: "unat (align4 ?sz) \<le> unat (io_data_avail b1)"
    using room al b1 by (simp add: unat_sub word_le_nat_alt)
  then have b2: "p = io_data b + 4" "b2 = bio_advance b1 (align4 ?sz)" using alloc b1 by (auto simp: bio_alloc_fits)
  let ?m2 = "store_bytes m (io_data b) (le32 ?n @ ?bs)"
  have "p \<noteq> NULL" using b2 b1 bio_inv_nonnull [OF inv1] by simp
  then have put2: "bio_put_string16_x a (b, m) = Some (b2, ?m2)"
    using put_string16_x_steps [OF inv a n s put alloc] b1 b2 by (simp add: store_bytes_append)
  have pos: "io_pos b2 = io_pos b + (4 + unat (align4 ?sz))"
    using io_pos_advance [OF inv, of 4] io_pos_advance [OF inv1 av] room b1 b2 by simp
  have start: "io_data0 b2 = io_data0 b" using b1 b2 by simp
  define k where "k = padding ?us"
  have k: "4 + unat (align4 ?sz) = length (le32 ?n @ ?bs) + k" using al by (simp add: k_def padding_def)
  have end_: "unat (io_data0 b) + io_pos b = unat (io_data b)" "unat (io_data b) + unat (io_data_avail b) \<le> hi" "hi < 4294967296"
    using inv by (auto simp: bio_inv_def io_pos_def)
  then have at: "io_data0 b + of_nat (io_pos b) = io_data b"
    using unat_addr_less [of "io_data b"] by (intro addr_eqI) (simp add: unat_add_of_nat)
  have fit: "length (le32 ?n @ ?bs) \<le> unat (io_data_avail b)" using room by simp
  have "load_bytes ?m2 (io_data0 b) (io_pos b) = bs"
  proof -
    have "load_bytes ?m2 (io_data0 b) (io_pos b) = load_bytes m (io_data0 b) (io_pos b)"
    proof (rule load_bytes_agree [OF agree_on_free_store [OF inv fit]])
      show "region (io_data0 b) (io_pos b) \<subseteq> - bio_free b"
        using inv end_ by (auto simp: bio_free_def in_region bio_inv_def)
      show "no_wrap (io_data0 b) (io_pos b)" using end_ by (simp add: no_wrap_def)
    qed
    with done_ show ?thesis by (simp add: message_bytes_def)
  qed
  moreover have "load_bytes ?m2 (io_data b) (length (le32 ?n @ ?bs)) = le32 ?n @ ?bs"
    by (rule load_bytes_written [OF inv fit])
  ultimately have "message_bytes (b2, ?m2) = bs @ (le32 ?n @ ?bs) @
      load_bytes ?m2 (io_data b + of_nat (length (le32 ?n @ ?bs))) k"
    by (simp only: message_bytes_def case_prod_conv start pos k load_bytes_add at)
  with put2 show ?thesis
    by (intro exI conjI) (assumption, simp_all add: string_wire_def k_def)
qed

lemma name_msg_bytes:
  assumes "iodata_ok (caller_iodata im)" and "name_in m (caller_iodata im) a s" and "length s < 244"
  shows "\<exists>msg m1 pad. name_msg im a m = Some (msg, m1) \<and> length pad = padding (map ucast s) \<and>
    message_bytes (msg, m1) = le32 0 @ string_wire (map ucast s) pad"
proof -
  let ?buf = "caller_iodata im" and ?b = "bio_init (junk_io im) (caller_iodata im) 512 4"
  have inv: "bio_inv (unat ?buf) (unat ?buf + 16) (unat ?buf + 512) ?b"
    using bio_init_inv [of ?buf 512 4 "junk_io im"] assms(1) by (simp add: iodata_ok_def)
  have b: "io_data0 ?b = io_data ?b" "io_data_avail ?b = 496"
    by (simp_all add: bio_init_def Let_def sizeof_size_t_def)
  obtain b1 m1 where put: "bio_put_uint32 0 (?b, m) = (b1, m1)" by fastforce
  have ext: "bio_ext (?b, m) (b1, m1)" using put_uint32_ext [OF inv, of m 0] put by simp
  have msg: "message_bytes (b1, m1) = le32 0" using number_message [OF inv b(1) _ put] b(2) by simp
  have av: "unat (io_data_avail b1) = 492" using put_uint32_fits [OF inv, of 0 m] b(2) put by auto
  note name = assms(2) [unfolded name_in_def]
  have out: "region a (Suc (length s)) \<inter> bio_free ?b = {}"
    using name iodata_free [OF assms(1), of "junk_io im"] by blast
  then have out1: "region a (Suc (length s)) \<inter> bio_free b1 = {}" using bio_ext_free [OF ext] by blast
  have str: "cstr m1 a s" by (rule cstr_outside [OF bio_ext_agree [OF ext] out]) (use name in auto)
  have "(2 * Suc (length s) + 3) div 4 * 4 \<le> (2 * Suc 243 + 3) div 4 * 4"
    using assms(3) by (intro mult_le_mono1 div_le_mono) simp
  then have "4 + (2 * Suc (length s) + 3) div 4 * 4 \<le> unat (io_data_avail b1)" using av by simp
  from string_message [OF bio_ext_inv [OF inv ext] msg _ str _ out1 _ this] name put
  show ?thesis by (simp add: name_msg_def plain_msg_def)
qed



subsection \<open>The hello and the goodbye service\<close>

lemmas code_numbers = hello_codes cpp_codes

lemmas counting_defs = bn_sayhello_def bn_sayhello_to_def bn_saygoodbye_def bn_saygoodbye_to_def
  sayhello_def sayhello_to_def saygoodbye_def saygoodbye_to_def

interpretation hello: counted_service bn_sayhello bn_sayhello_to BnHelloService hello_service_handler lib
  for lib :: "'p libbinder"
proof (unfold_locales, goal_cases)
  case (4 p txn junk bs msg reply)
  then show ?case
    by (cases "bio_get_uint32 (pmem p) msg") (auto simp: hello_service_handler_def code_numbers counting_defs)
next
  case (5 junk p txn msg pol msg1 x len msg2 n g reply reply' m bs)
  then show ?case
    using copy_name_result [OF 5(1), of 0 "pmem p" x "unat len"]
    by (auto simp: hello_service_handler_def code_numbers counting_defs Let_def)
next
  case (6 p txn msg pol msg1 junk bs reply)
  then show ?case by (auto simp: hello_service_handler_def code_numbers split: prod.split)
qed (simp_all add: onTransact_def hello_onTransact_def code_numbers counting_defs)

interpretation goodbye: counted_service bn_saygoodbye bn_saygoodbye_to BnGoodbyeService goodbye_service_handler lib
  for lib :: "'p libbinder"
proof (unfold_locales, goal_cases)
  case (4 p txn junk bs msg reply)
  then show ?case
    by (cases "bio_get_uint32 (pmem p) msg") (auto simp: goodbye_service_handler_def code_numbers counting_defs)
next
  case (5 junk p txn msg pol msg1 x len msg2 n g reply reply' m bs)
  then show ?case
    using copy_name_result [OF 5(1), of 0 "pmem p" x "unat len"]
    by (auto simp: goodbye_service_handler_def code_numbers counting_defs Let_def)
next
  case (6 p txn msg pol msg1 junk bs reply)
  then show ?case by (auto simp: goodbye_service_handler_def code_numbers split: prod.split)
qed (simp_all add: onTransact_def goodbye_onTransact_def code_numbers counting_defs)

end
