(* ===== verification/Server_Runs.thy ===== *)
theory Server_Runs
  imports Client_Runs Cpp_Interop
begin

text \<open>
  Whole runs of \<open>test_server.c\<close>: against any kernel that keeps to the protocol and whose clients send
  names that fit the handlers' arrays, the server opens the driver, calls the service manager, and then
  answers the calls that the driver delivers, in their order, as four counters would.
\<close>

subsection \<open>The services, abstractly\<close>

datatype service = HelloService | GoodbyeService

text \<open>A call as the server understands it, and a reply: a message, or only a status.\<close>

datatype svc_call = Say service | SayTo service "u16 list" | Garbled

datatype svc_reply = Message "byte list" | Status int

text \<open>What a call does to the counters.\<close>

primrec say_plain :: "service \<Rightarrow> server_globals \<Rightarrow> server_globals" where
  "say_plain HelloService g = g\<lparr>sayhello_cnt := sayhello_cnt g + 1\<rparr>"
| "say_plain GoodbyeService g = g\<lparr>saygoodbye_cnt := saygoodbye_cnt g + 1\<rparr>"

primrec say_name :: "service \<Rightarrow> server_globals \<Rightarrow> u32 \<times> server_globals" where
  "say_name HelloService g =
     (let n = sayhello_to_cnt g + 1 in (n, g\<lparr>sayhello_to_cnt := n\<rparr>))"
| "say_name GoodbyeService g =
     (let n = saygoodbye_to_cnt g + 1 in (n, g\<lparr>saygoodbye_to_cnt := n\<rparr>))"

text \<open>The server as a machine: a call, the state, the reply and the new state.\<close>

primrec serve_call :: "svc_call \<Rightarrow> server_globals \<Rightarrow> svc_reply \<times> server_globals" where
  "serve_call (Say svc) g = (Message [], say_plain svc g)"
| "serve_call (SayTo svc us) g = (let (n, g) = say_name svc g in (Message (le32 n), g))"
| "serve_call Garbled g = (Status (-1), g)"

primrec serve_all :: "svc_call list \<Rightarrow> server_globals \<Rightarrow> svc_reply list \<times> server_globals" where
  "serve_all [] g = ([], g)"
| "serve_all (c # cs) g = (let (r, g) = serve_call c g; (rs, g) = serve_all cs g in (r # rs, g))"

lemma serve_all_snoc:
  "serve_all (cs @ [c]) g =
     (let (rs, g) = serve_all cs g; (r, g) = serve_call c g in (rs @ [r], g))"
  by (induction cs arbitrary: g) (simp_all split: prod.split)

subsection \<open>What the driver delivers\<close>

text \<open>A transaction, as the call that the server finds in its message.\<close>

definition call_in :: "'g image \<Rightarrow> symbols \<Rightarrow> mem \<Rightarrow> binder_transaction_data \<Rightarrow> svc_call" where
  "call_in im sy m t =
     (let (policy, msg) = bio_get_uint32 m (bio_init_from_txn (junk_io im) t);
          (s, len, msg) = bio_get_string16 m msg;
          svc = (if txn_target t = sym_hello_handler sy then HelloService else GoodbyeService)
      in if txn_code t = 0 then Say svc
         else if txn_code t = 1 \<and> s \<noteq> NULL then SayTo svc (load_u16s m s (unat len))
         else Garbled)"

text \<open>It is for one of the published objects, and its name fits.\<close>

definition acceptable :: "'g image \<Rightarrow> symbols \<Rightarrow> mem \<Rightarrow> binder_transaction_data \<Rightarrow> bool" where
  "acceptable im sy m t \<longleftrightarrow> txn_target t \<in> {sym_hello_handler sy, sym_goodbye_handler sy} \<and>
     (case call_in im sy m t of SayTo svc us \<Rightarrow> length us < 512 | _ \<Rightarrow> True)"

primrec txns_of :: "br list \<Rightarrow> binder_transaction_data list" where
  "txns_of [] = []"
| "txns_of (c # cs) = (case c of Transaction t \<Rightarrow> t # txns_of cs | _ \<Rightarrow> txns_of cs)"

text \<open>Memory after a read.\<close>

definition arrived :: "answer \<Rightarrow> binder_write_read \<Rightarrow> mem \<Rightarrow> mem" where
  "arrived ans bwr m = store_bytes (deliver (ans_deliver ans) m) (read_buffer bwr) (ans_read ans)"

text \<open>
  What the server relies on: \<open>says h\<close> are the commands that the driver returns after the history \<open>h\<close>;
  a read of the server's loop returns at most one transaction, as the driver documents, and that
  is acceptable when it arrives; it returns no death notifications, since the server asks for none.
\<close>

definition service_kernel :: "'g image \<Rightarrow> symbols \<Rightarrow> (request list \<Rightarrow> br list) \<Rightarrow> bool" where
  "service_kernel im sy says \<longleftrightarrow> (\<forall>h d bwr m. let h' = h @ [WriteRead d bwr m] in
     read_buffer bwr = loop_readbuf im \<longrightarrow>
       ans_read (kernel im h') = encode_brs (says h') \<and> (\<forall>c\<in>set (says h'). not_dead_binder c) \<and>
       length (txns_of (says h')) \<le> 1 \<and>
       (\<forall>t\<in>set (txns_of (says h')). acceptable im sy (arrived (kernel im h') bwr m) t))"

text \<open>The calls that the last request of a history has brought, and all of them.\<close>

definition served_at :: "'g image \<Rightarrow> symbols \<Rightarrow> (request list \<Rightarrow> br list) \<Rightarrow> request list \<Rightarrow> svc_call list" where
  "served_at im sy says h =
     (case last h of
        WriteRead d bwr m \<Rightarrow>
          if read_buffer bwr = loop_readbuf im \<and> 0 \<le> ans_ret (kernel im h)
          then map (call_in im sy (arrived (kernel im h) bwr m)) (txns_of (says h)) else []
      | _ \<Rightarrow> [])"

definition served :: "'g image \<Rightarrow> symbols \<Rightarrow> (request list \<Rightarrow> br list) \<Rightarrow> request list \<Rightarrow> svc_call list" where
  "served im sy says h = concat (map (\<lambda>n. served_at im sy says (take (Suc n) h)) [0..<length h])"

lemma served_snoc [simp]:
  "served im sy says (h @ [rq]) = served im sy says h @ served_at im sy says (h @ [rq])"
proof -
  have "map (\<lambda>n. served_at im sy says (take (Suc n) (h @ [rq]))) [0..<length h] =
      map (\<lambda>n. served_at im sy says (take (Suc n) h)) [0..<length h]"
    by (intro map_cong) auto
  then show ?thesis by (simp add: served_def del: take_append map_eq_conv)
qed

lemma served_Nil [simp]: "served im sy says [] = []"
  by (simp add: served_def)

text \<open>The replies in a log: the frames of \<open>binder_send_reply\<close>, with the memory the driver reads.\<close>

primrec reply_of :: "request \<Rightarrow> svc_reply list" where
  "reply_of Open = []"
| "reply_of (Close d) = []"
| "reply_of (Free a) = []"
| "reply_of (Mmap d n) = []"
| "reply_of (Munmap a n) = []"
| "reply_of (GetVersion d) = []"
| "reply_of (SetContextMgr d) = []"
| "reply_of (SetMaxThreads d n) = []"
| "reply_of (WriteRead d bwr m) =
     (let w = write_buffer bwr; t = load_txn (store_bytes (\<lambda>_. 0) 0 (drop 12 w)) 0 in
      if length w = 52 \<and> take 4 (drop 8 w) = le32 BC_REPLY
      then [if txn_flags t = TF_STATUS_CODE then Status (sint (load32 m (txn_buffer t)))
            else Message (load_bytes m (txn_buffer t) (unat (txn_data_size t)))]
      else [])"

definition replies :: "request list \<Rightarrow> svc_reply list" where
  "replies h = concat (map reply_of h)"

lemma replies_append [simp]: "replies (h @ h') = replies h @ replies h'" "replies [] = []"
    "replies (rq # h) = reply_of rq @ replies h"
  by (simp_all add: replies_def)

text \<open>Before it serves, the server neither gets calls nor replies.\<close>

lemma program_request_silent:
  assumes "program_request im rq" and "call_readbuf im \<noteq> loop_readbuf im" and "loop_readbuf im \<noteq> 0"
  shows "reply_of rq = []" and "last h = rq \<Longrightarrow> served_at im sy says h = []"
  using assms by (cases rq; auto simp: call_frame_def Let_def served_at_def)+

lemma silent_log:
  assumes "\<forall>rq\<in>set h. program_request im rq" and "call_readbuf im \<noteq> loop_readbuf im" and "loop_readbuf im \<noteq> 0"
  shows "served im sy says h = [] \<and> replies h = []"
  using assms(1)
proof (induction h rule: rev_induct)
  case (snoc rq h)
  with program_request_silent [OF _ assms(2,3), of rq] show ?case by simp
qed simp

subsection \<open>A handled call\<close>

text \<open>The result \<open>res\<close> of a handler and its reply, in memory \<open>m\<close>, as an abstract reply.\<close>

fun answers :: "'g image \<Rightarrow> int \<Rightarrow> binder_io \<Rightarrow> mem \<Rightarrow> svc_reply \<Rightarrow> bool" where
  "answers im res rep m (Message bs) \<longleftrightarrow> res = 0 \<and> message_bytes (rep, m) = bs \<and>
     bio_inv (unat (parse_rdata im)) (unat (parse_rdata im) + 16) (unat (parse_rdata im) + 256) rep"
| "answers im res rep m (Status s) \<longleftrightarrow> res = s \<and> s \<noteq> 0 \<and> sint (word_of_int s :: u32) = s"

lemma reply_for_empty: "message_bytes (reply_for im, m) = []"
  by (simp add: message_bytes_def reply_for_def bio_init_def io_pos_def Let_def sizeof_size_t_def)

lemma number_answers:
  assumes "rdata_ok im" and put: "bio_put_uint32 n (reply_for im, m) = (rep, m')"
  shows "answers im 0 rep m' (Message (le32 n))" and "agree_on (- rdata_area im) m m'"
proof -
  note ext = number_reply(2) [OF assms]
  have "message_bytes (rep, m') = le32 n"
    by (rule number_message [OF reply_inv [OF assms(1)] _ _ put])
      (simp_all add: reply_for_def bio_init_def Let_def sizeof_size_t_def)
  with bio_ext_inv [OF reply_inv [OF assms(1)] ext] show "answers im 0 rep m' (Message (le32 n))" by simp
  have "bio_free (reply_for im) \<subseteq> rdata_area im"
    using bio_free_inside [OF reply_inv [OF assms(1)]] by (auto simp: rdata_area_def in_region)
  then show "agree_on (- rdata_area im) m m'" by (intro agree_on_mono [OF bio_ext_agree [OF ext]]) blast
qed

text \<open>A handler's outcome: it changes memory only where replies are built.\<close>

definition handles ::
  "server_globals image \<Rightarrow> server_globals process \<Rightarrow> (int \<times> binder_io \<times> binder_io, server_globals) outcome \<Rightarrow>
   svc_reply \<times> server_globals \<Rightarrow> bool" where
  "handles im p out r \<longleftrightarrow> (\<exists>res rest rep m.
     out = returns (res, rest, rep) (p\<lparr>pmem := m, globals := snd r\<rparr>) \<and>
     agree_on (- rdata_area im) (pmem p) m \<and> answers im res rep m (fst r))"

lemma handlesI:
  "out = returns (res, rest, rep) (p\<lparr>pmem := m, globals := g\<rparr>) \<Longrightarrow> agree_on (- rdata_area im) (pmem p) m \<Longrightarrow>
   answers im res rep m r \<Longrightarrow> handles im p out (r, g)"
  unfolding handles_def fst_conv snd_conv by blast

text \<open>What the C handler of a counted service does with a transaction.\<close>

context counted_service
begin

lemma handles_plain:
  assumes "rdata_ok im" and "txn_code (load_txn (pmem p) txn) = 0"
  shows "handles im p (c junk bs txn msg (reply_for im) p) (Message [], plain (globals p))"
proof -
  obtain rest where "c junk bs txn msg (reply_for im) p =
      returns (0, rest, reply_for im) (p\<lparr>globals := plain (globals p)\<rparr>)"
    using c_plain [OF assms(2)] by blast
  then have "c junk bs txn msg (reply_for im) p =
      returns (0, rest, reply_for im) (p\<lparr>pmem := pmem p, globals := plain (globals p)\<rparr>)" by simp
  then show ?thesis
    by (rule handlesI) (simp_all add: reply_inv [OF assms(1)] reply_for_empty)
qed

lemma handles_to:
  assumes "rdata_ok im" and "length junk = 512" and "txn_code (load_txn (pmem p) txn) = 1"
    and "bio_get_uint32 (pmem p) msg = (pol, msg1)" and "bio_get_string16 (pmem p) msg1 = (s, len, msg2)"
    and "s \<noteq> NULL" and "unat len < 512"
  shows "handles im p (c junk bs txn msg (reply_for im) p) (let (n, g) = to name (globals p) in (Message (le32 n), g))"
proof -
  obtain n g where n: "to name (globals p) = (n, g)" by fastforce
  obtain rep m where put: "bio_put_uint32 n (reply_for im, pmem p) = (rep, m)" by fastforce
  from handlesI [OF c_to [OF assms(2-7) n put] number_answers(2,1) [OF assms(1) put]] n
  show ?thesis by simp
qed

lemma handles_garbled:
  assumes "txn_code (load_txn (pmem p) txn) \<noteq> 0" and "bio_get_uint32 (pmem p) msg = (pol, msg1)"
    and "txn_code (load_txn (pmem p) txn) = 1 \<longrightarrow> fst (bio_get_string16 (pmem p) msg1) = NULL"
  shows "handles im p (c junk bs txn msg (reply_for im) p) (Status (-1), globals p)"
proof -
  obtain rest where "c junk bs txn msg (reply_for im) p = returns (-1, rest, reply_for im) p"
    using c_refuses [OF assms] by blast
  then have "c junk bs txn msg (reply_for im) p =
      returns (-1, rest, reply_for im) (p\<lparr>pmem := pmem p, globals := globals p\<rparr>)" by simp
  then show ?thesis by (rule handlesI) simp_all
qed

end

text \<open>The two handlers behind their addresses; \<open>junk svc\<close> is the uninitialised array of a handler.\<close>

definition services :: "symbols \<Rightarrow> (service \<Rightarrow> byte list) \<Rightarrow> addr \<Rightarrow> server_globals binder_handler option" where
  "services sy junk a =
     (if a = sym_hello_handler sy then Some (hello_service_handler (junk HelloService))
      else if a = sym_goodbye_handler sy then Some (goodbye_service_handler (junk GoodbyeService))
      else None)"

lemma counting_methods:
  "say_plain HelloService = bn_sayhello" "say_plain GoodbyeService = bn_saygoodbye"
  "say_name HelloService = bn_sayhello_to us" "say_name GoodbyeService = bn_saygoodbye_to us"
  by (intro ext, simp add: counting_defs Let_def)+

lemma server_handles:
  assumes "rdata_ok im" and junk: "\<forall>svc. length (junk svc) = 512"
    and ok: "acceptable im sy (pmem p) (load_txn (pmem p) txn)"
  shows "handles im p (test_server_handler (services sy junk) bs txn (msg_for im txn p) (reply_for im) p)
    (serve_call (call_in im sy (pmem p) (load_txn (pmem p) txn)) (globals p))"
proof -
  let ?t = "load_txn (pmem p) txn" and ?h = "test_server_handler (services sy junk) bs txn (msg_for im txn p) (reply_for im) p"
  obtain pol msg1 where msg: "bio_get_uint32 (pmem p) (msg_for im txn p) = (pol, msg1)" by fastforce
  obtain s len msg2 where str: "bio_get_string16 (pmem p) msg1 = (s, len, msg2)" by (cases "bio_get_string16 (pmem p) msg1")
  define svc where "svc = (if txn_target ?t = sym_hello_handler sy then HelloService else GoodbyeService)"
  have target: "?h = (case svc of HelloService \<Rightarrow> hello_service_handler (junk HelloService)
      | GoodbyeService \<Rightarrow> goodbye_service_handler (junk GoodbyeService)) bs txn (msg_for im txn p) (reply_for im) p"
    using ok by (auto simp: test_server_handler_def services_def svc_def acceptable_def)
  have call: "call_in im sy (pmem p) ?t =
      (if txn_code ?t = 0 then Say svc
       else if txn_code ?t = 1 \<and> s \<noteq> NULL then SayTo svc (load_u16s (pmem p) s (unat len)) else Garbled)"
    using msg str by (simp add: call_in_def msg_for_def svc_def)
  consider "txn_code ?t = 0" | "txn_code ?t = 1" "s \<noteq> NULL" | "txn_code ?t \<noteq> 0" "txn_code ?t = 1 \<longrightarrow> s = NULL" by auto
  then show ?thesis
  proof cases
    case 1
    then show ?thesis
      using hello.handles_plain [OF assms(1) 1] goodbye.handles_plain [OF assms(1) 1]
      by (cases svc) (simp_all add: target call counting_methods(1,2) del: say_plain.simps)
  next
    case 2
    then have "unat len < 512" using ok call by (simp add: acceptable_def)
    with 2 show ?thesis
      using hello.handles_to [OF assms(1) junk [rule_format] 2(1) msg str 2(2)] goodbye.handles_to [OF assms(1) junk [rule_format] 2(1) msg str 2(2)]
      by (cases svc) (simp_all add: target call counting_methods(3,4) [of "map ucast (load_u16s (pmem p) s (unat len))"]
          del: say_name.simps)
  next
    case 3
    then have "call_in im sy (pmem p) ?t = Garbled" using call by simp
    with 3 show ?thesis
      using hello.handles_garbled [OF 3(1) msg] goodbye.handles_garbled [OF 3(1) msg] str
      by (cases svc) (simp_all add: target)
  qed
qed

lemma reply_shown:
  assumes ans: "answers im res rep m r" and "rdata_ok im"
    and apart: "rdata_area im \<inter> status_area im = {}" and "no_wrap (reply_status im) 4"
  shows "reply_of (write_request bs (reply_frame im rep buf res) (store32 m (reply_status im) (of_int res))) = [r]"
proof -
  let ?m = "store32 m (reply_status im) (of_int res)"
  have txn: "load_txn (store_bytes (\<lambda>_. 0) 0 (encode_txn t)) 0 = t" for t
    by (rule load_txn_store) (simp add: no_wrap_def)
  show ?thesis
  proof (cases r)
    case (Message bs)
    with ans have rep: "res = 0" "message_bytes (rep, m) = bs"
      and inv: "bio_inv (unat (parse_rdata im)) (unat (parse_rdata im) + 16) (unat (parse_rdata im) + 256) rep"
      by simp_all
    have pos: "unat (io_data rep - io_data0 rep) = io_pos rep"
      using inv by (simp add: bio_inv_def io_pos_def unat_sub word_le_nat_alt)
    have "load_bytes ?m (io_data0 rep) (io_pos rep) = load_bytes m (io_data0 rep) (io_pos rep)"
    proof (rule load_bytes_agree [OF agree_on_store32])
      show "rdata_area im \<inter> region (reply_status im) 4 = {}" using apart by (simp add: status_area_def)
      show "region (io_data0 rep) (io_pos rep) \<subseteq> rdata_area im" "no_wrap (io_data0 rep) (io_pos rep)"
        using inv assms(2) by (auto simp: bio_inv_def io_pos_def rdata_area_def in_region no_wrap_def rdata_ok_def)
    qed (rule assms(4))
    with rep pos Message show ?thesis
      by (simp add: write_request_def reply_frame_def Let_def txn message_bytes_def TF_STATUS_CODE_def)
  next
    case (Status s)
    with ans have "res = s" "s \<noteq> 0" "sint (word_of_int s :: u32) = s" by simp_all
    with Status assms(4) show ?thesis
      by (simp add: write_request_def reply_frame_def Let_def txn TF_STATUS_CODE_def)
  qed
qed

subsection \<open>Serving\<close>

definition the_server :: "server_globals image \<Rightarrow> symbols \<Rightarrow> addr set \<Rightarrow> server_globals server" where
  "the_server im sy area = \<lparr>srv_image = im, srv_func = sym_server_handler sy, srv_death = NULL,
     srv_area = area, srv_shared = UNIV\<rparr>"

definition server_setup ::
  "server_globals image \<Rightarrow> symbols \<Rightarrow> addr set \<Rightarrow> (service \<Rightarrow> byte list) \<Rightarrow> (request list \<Rightarrow> br list) \<Rightarrow> bool" where
  "server_setup im sy area junk says \<longleftrightarrow>
     laid_out (the_server im sy area) \<and> client_setup im area \<and> service_kernel im sy says \<and>
     handler_code im (sym_server_handler sy) = Some (test_server_handler (services sy junk)) \<and>
     (\<forall>svc. length (junk svc) = 512) \<and> rdata_area im \<inter> status_area im = {} \<and>
     call_readbuf im \<noteq> loop_readbuf im \<and> loop_readbuf im \<noteq> 0"

text \<open>
  All calls in the log are answered, but for those among the commands \<open>cs\<close> that are still to be run;
  \<open>g0\<close> are the counters at the start. A server that waits has no answer to its last request yet.
\<close>

definition due ::
  "server_globals image \<Rightarrow> symbols \<Rightarrow> (request list \<Rightarrow> br list) \<Rightarrow> server_globals \<Rightarrow> br list \<Rightarrow>
   server_globals process \<Rightarrow> bool" where
  "due im sy says g0 cs p \<longleftrightarrow> death_cookies (requests p) = [] \<and>
     (\<forall>c\<in>set cs. not_dead_binder c) \<and> length (txns_of cs) \<le> 1 \<and>
     (\<forall>t\<in>set (txns_of cs). acceptable im sy (pmem p) t) \<and>
     (\<exists>before. served im sy says (requests p) = before @ map (call_in im sy (pmem p)) (txns_of cs) \<and>
        serve_all before g0 = (replies (requests p), globals p))"

definition server_waits ::
  "server_globals image \<Rightarrow> symbols \<Rightarrow> (request list \<Rightarrow> br list) \<Rightarrow> server_globals \<Rightarrow> server_globals process \<Rightarrow> bool" where
  "server_waits im sy says g0 p \<longleftrightarrow>
     serve_all (served im sy says (butlast (requests p))) g0 = (replies (requests p), globals p)"

lemma serving: "due im sy says g0 [] p \<longleftrightarrow> death_cookies (requests p) = [] \<and>
    serve_all (served im sy says (requests p)) g0 = (replies (requests p), globals p)"
  by (simp add: due_def)

lemma setup_parts:
  assumes "server_setup im sy area junk says"
  shows "honest_kernel im area" and "rdata_ok im" and "rdata_area im \<inter> status_area im = {}"
    and "no_wrap (reply_status im) 4" and "readbuf_area im \<inter> (area \<union> rdata_area im \<union> status_area im) = {}"
    and "unat (loop_readbuf im) + 128 < 4294967296" and "sym_server_handler sy \<noteq> NULL"
    and "loop_readbuf im \<noteq> 0" and "call_readbuf im \<noteq> loop_readbuf im"
    and "handler_code im (sym_server_handler sy) = Some (test_server_handler (services sy junk))"
    and "\<forall>svc. length (junk svc) = 512" and "service_kernel im sy says" and "client_setup im area"
  using assms by (auto simp: server_setup_def laid_out_def the_server_def Let_def rdata_ok_def)

text \<open>A write that is no reply.\<close>

lemma served_write: "loop_readbuf im \<noteq> 0 \<Longrightarrow> served_at im sy says (h @ [write_request bs w m]) = []"
  by (simp add: served_at_def write_request_def)

lemma transaction_served:
  assumes srv: "server_setup im sy area junk says"
    and due: "due im sy says g0 (Transaction t # cs) p" and t: "load_txn (pmem p) txn = t"
  shows "wp (parse_transaction im bs (sym_server_handler sy) txn p)
    (\<lambda>_ p'. due im sy says g0 cs p' \<and> budget p' \<le> budget p \<and> agree_on (readbuf_area im) (pmem p) (pmem p'))
    (server_waits im sy says g0)"
proof -
  note S = setup_parts [OF srv]
  let ?c = "call_in im sy (pmem p) t"
  from due obtain before where none: "txns_of cs = []" and ok: "acceptable im sy (pmem p) t"
    and nd: "\<forall>c\<in>set cs. not_dead_binder c" "death_cookies (requests p) = []"
    and sv: "served im sy says (requests p) = before @ [?c]"
    and all: "serve_all before g0 = (replies (requests p), globals p)"
    by (auto simp: due_def)
  from server_handles [OF S(2) S(11) ok [folded t], where bs = bs] obtain res rest rep m
    where h: "test_server_handler (services sy junk) bs txn (msg_for im txn p) (reply_for im) p =
        returns (res, rest, rep) (p\<lparr>pmem := m, globals := snd (serve_call ?c (globals p))\<rparr>)"
      and m: "agree_on (- rdata_area im) (pmem p) m" and ans: "answers im res rep m (fst (serve_call ?c (globals p)))"
    unfolding handles_def t by blast
  let ?q = "p\<lparr>pmem := m, globals := snd (serve_call ?c (globals p))\<rparr>"
  let ?buf = "txn_buffer (load_txn m txn)" and ?S = "area \<union> status_area im"
  let ?rq = "write_request bs (reply_frame im rep ?buf res) (store32 m (reply_status im) (of_int res))"
  have run: "parse_transaction im bs (sym_server_handler sy) txn p = binder_send_reply im bs rep ?buf res ?q"
    using S(7,10) h by (simp add: parse_transaction_def Let_def msg_for_def reply_for_def)
  have shown: "reply_of ?rq = [fst (serve_call ?c (globals p))]" by (rule reply_shown [OF ans S(2-4)])
  have all': "serve_all (before @ [?c]) g0 =
      (replies (requests p @ [?rq]), snd (serve_call ?c (globals p)))"
    using all shown by (simp add: serve_all_snoc split: prod.split)
  have mem: "agree_on (readbuf_area im) (pmem p) (pmem p')" if "env_step ?S ?q p'" for p'
    using that m S(5) by (intro agree_on_trans [OF agree_on_mono [OF m]]) (auto simp: env_step_def elim: agree_on_mono)
  show ?thesis
    unfolding run
  proof (rule wp_mono [OF binder_send_reply_wp [OF S(1), of ?S]], goal_cases)
    case (4 v p')
    then have p': "env_step ?S ?q p'" "budget p' < budget p" "requests p' = requests p @ [?rq]" by auto
    then have "due im sy says g0 cs p'"
      using none nd sv all' served_write [OF S(8)] by (auto simp: due_def env_step_def)
    with p' mem [OF p'(1)] show ?case by simp
  next
    case (5 p')
    then show ?case using sv all' by (auto simp: server_waits_def env_step_def)
  qed (use S(4) in \<open>auto simp: status_area_def\<close>)
qed

lemma command_served:
  assumes srv: "server_setup im sy area junk says" and due: "due im sy says g0 (c # cs) p"
    and bytes: "load_bytes (pmem p) (ps_ptr st) (length (encode_br c)) = encode_br c"
  shows "wp (run_br im bs (sym_server_handler sy) c st p)
    (\<lambda>_ p'. (due im sy says g0 cs p' \<and> budget p' \<le> budget p) \<and> agree_on (readbuf_area im) (pmem p) (pmem p'))
    (server_waits im sy says g0)"
proof (cases c)
  case (Transaction t)
  have "load_txn (pmem p) (ps_ptr st + 4) = t"
    using bytes Transaction by (intro load_txn_payload [of _ _ BR_TRANSACTION]) simp
  from transaction_served [OF srv due [unfolded Transaction] this] show ?thesis
    by (auto simp: Transaction run_br_def Let_def elim!: wp_mono)
next
  case (DeadBinder d)
  with due show ?thesis by (simp add: due_def)
qed (use due in \<open>auto simp: run_br_def Let_def due_def\<close>)

lemma parse_served:
  assumes srv: "server_setup im sy area junk says" and due: "due im sy says g0 cs p"
    and bytes: "load_bytes (pmem p) (loop_readbuf im) (length (encode_brs cs)) = encode_brs cs"
    and len: "length (encode_brs cs) \<le> 128"
  shows "wp (binder_parse im bs None (loop_readbuf im) (of_nat (length (encode_brs cs))) (sym_server_handler sy) p)
    (\<lambda>_ p'. due im sy says g0 [] p' \<and> budget p' \<le> budget p) (server_waits im sy says g0)"
proof -
  let ?st = "\<lparr>ps_ptr = loop_readbuf im, ps_r = 1, ps_bio = False, ps_rep = junk_io im\<rparr>"
  let ?I = "\<lambda>cs p'. due im sy says g0 cs p' \<and> budget p' \<le> budget p"
  have sub: "region (loop_readbuf im) (length (encode_brs cs)) \<subseteq> readbuf_area im"
    using len unfolding readbuf_area_def by (intro region_sub) simp_all
  have step: "wp (run_br im bs (sym_server_handler sy) c st q)
      (\<lambda>_ p'. ?I rest p' \<and> agree_on (readbuf_area im) (pmem q) (pmem p')) (server_waits im sy says g0)"
    if "?I (c # rest) q" "load_bytes (pmem q) (ps_ptr st) (length (encode_br c)) = encode_br c" for c rest st q
    by (rule wp_mono [OF command_served [OF srv _ that(2)]]) (use that(1) in auto)
  have "parse_loop im bs (sym_server_handler sy) (ps_ptr ?st + of_nat (length (encode_brs cs))) ?st p =
      and_then (run_brs im bs (sym_server_handler sy) cs ?st p) (\<lambda>st. returns (ps_r st, ps_rep st)) \<and>
    wp (run_brs im bs (sym_server_handler sy) cs ?st p)
      (\<lambda>_ p'. ?I [] p' \<and> agree_on (readbuf_area im) (pmem p) (pmem p')) (server_waits im sy says g0)"
    by (rule parse_loop_run [where I = ?I, OF step])
      (use setup_parts(6) [OF srv] bytes len sub due in simp_all)
  then show ?thesis by (auto simp: binder_parse_def elim!: wp_mono)
qed

text \<open>A read of the loop: it waits, fails, or brings commands.\<close>

lemma read_brings:
  assumes srv: "server_setup im sy area junk says" and p: "due im sy says g0 [] p"
    and "write_buffer bwr = []" "read_size bwr = 128" "read_buffer bwr = loop_readbuf im"
  shows "wp (ioctl_write_read im bs bwr p)
    (\<lambda>(res, bwr') p'. budget p' < budget p \<and> write_buffer bwr' = [] \<and>
       (if res < 0 then due im sy says g0 [] p'
        else \<exists>cs. due im sy says g0 cs p' \<and> read_consumed bwr' = of_nat (length (encode_brs cs)) \<and>
          length (encode_brs cs) \<le> 128 \<and>
          load_bytes (pmem p') (loop_readbuf im) (length (encode_brs cs)) = encode_brs cs))
    (server_waits im sy says g0)"
proof -
  note S = setup_parts [OF srv]
  let ?rq = "WriteRead (fd bs) bwr (pmem p)"
  let ?h = "requests p @ [?rq]"
  let ?ans = "kernel im ?h" and ?m = "arrived (kernel im ?h) bwr (pmem p)" and ?cs = "says ?h"
  from p have dc: "death_cookies (requests p) = []"
    and sv: "serve_all (served im sy says (requests p)) g0 = (replies (requests p), globals p)"
    by (simp_all add: serving)
  have quiet: "death_cookies ?h = []" "replies ?h = replies (requests p)"
    using dc assms(3) by simp_all
  have new: "served_at im sy says ?h = (if 0 \<le> ans_ret ?ans then map (call_in im sy ?m) (txns_of ?cs) else [])"
    using assms(5) by (simp add: served_at_def)
  from S(12) [unfolded service_kernel_def Let_def, rule_format, OF assms(5), of "requests p" "fd bs" "pmem p"]
  have k: "ans_read ?ans = encode_brs ?cs" "\<forall>c\<in>set ?cs. not_dead_binder c" "length (txns_of ?cs) \<le> 1"
    "\<forall>t\<in>set (txns_of ?cs). acceptable im sy ?m t" by simp_all
  have "speaks (set (death_cookies (requests p))) area (unat (read_size bwr)) ?ans"
    using S(1) unfolding honest_kernel_def by blast
  then have "length (ans_read ?ans) \<le> unat (read_size bwr)" unfolding speaks_def by blast
  then have len: "length (encode_brs ?cs) \<le> 128" unfolding k(1) assms(4) by simp
  have bytes: "load_bytes ?m (loop_readbuf im) (length (encode_brs ?cs)) = encode_brs ?cs"
    using S(6) len unfolding arrived_def k(1) assms(5) by (intro load_bytes_store_same) (simp add: no_wrap_def)
  let ?q = "p\<lparr>requests := ?h, budget := budget p - 1, pmem := ?m\<rparr>"
  let ?b = "bwr\<lparr>write_consumed := ans_write_consumed ?ans, read_consumed := of_nat (length (encode_brs ?cs))\<rparr>"
  have q: "due im sy says g0 (if 0 \<le> ans_ret ?ans then ?cs else []) ?q"
    using quiet k sv new by (auto simp: due_def)
  have run: "ioctl_write_read im bs bwr p =
      (if budget p = 0 then Some (None, p\<lparr>requests := ?h\<rparr>) else returns (ans_ret ?ans, ?b) ?q)"
    by (simp add: ioctl_write_read_def syscall_def log_request_def Let_def arrived_def k(1) assms(5))
  show ?thesis
  proof (cases "budget p = 0")
    case True
    then show ?thesis using sv quiet(2) by (simp add: run server_waits_def)
  next
    case budget: False
    show ?thesis
    proof (cases "ans_ret ?ans < 0")
      case True
      with budget q assms(3) show ?thesis unfolding run by simp
    next
      case False
      with q have "due im sy says g0 ?cs ?q" by simp
      moreover have "load_bytes (pmem ?q) (loop_readbuf im) (length (encode_brs ?cs)) = encode_brs ?cs"
        using bytes by simp
      ultimately have "\<exists>cs. due im sy says g0 cs ?q \<and> read_consumed ?b = of_nat (length (encode_brs cs)) \<and>
          length (encode_brs cs) \<le> 128 \<and>
          load_bytes (pmem ?q) (loop_readbuf im) (length (encode_brs cs)) = encode_brs cs"
        using len by (intro exI [of _ ?cs]) simp
      moreover have "budget ?q < budget p" "write_buffer ?b = []" using budget assms(3) by simp_all
      ultimately show ?thesis
        using budget False unfolding run if_not_P [OF budget] wp_returns prod.case by metis
    qed
  qed
qed

lemma loop_served:
  assumes srv: "server_setup im sy area junk says" and "due im sy says g0 [] p" and "write_buffer bwr = []"
  shows "wp (serve im bs (sym_server_handler sy) bwr p) (\<lambda>_. due im sy says g0 []) (server_waits im sy says g0)"
  using assms(2,3)
proof (induction "budget p" arbitrary: p bwr rule: less_induct)
  case less
  let ?b = "bwr\<lparr>read_size := sizeof_readbuf, read_consumed := 0, read_buffer := loop_readbuf im\<rparr>"
  have b: "write_buffer ?b = []" "read_size ?b = 128" "read_buffer ?b = loop_readbuf im"
    using less.prems(2) by (simp_all add: sizeof_readbuf_def)
  show ?case
    unfolding serve.simps [of im bs "sym_server_handler sy" bwr p] wp_and_then
  proof (rule wp_mono [OF read_brings [OF srv less.prems(1) b]], goal_cases)
    case (1 v p')
    obtain res bwr' where v: "v = (res, bwr')" by (cases v)
    show ?case
    proof (cases "res < 0")
      case True
      with 1 show ?thesis by (simp add: v)
    next
      case False
      with 1 obtain cs where cs: "due im sy says g0 cs p'" "budget p' < budget p" "write_buffer bwr' = []"
        "read_consumed bwr' = of_nat (length (encode_brs cs))" "length (encode_brs cs) \<le> 128"
        "load_bytes (pmem p') (loop_readbuf im) (length (encode_brs cs)) = encode_brs cs"
        by (auto simp: v)
      have "wp (serve im bs (sym_server_handler sy) bwr' q) (\<lambda>_. due im sy says g0 []) (server_waits im sy says g0)"
        if "due im sy says g0 [] q" "budget q \<le> budget p'" for q
        by (rule less.hyps) (use that cs(2,3) in auto)
      then show ?thesis
        unfolding v prod.case if_not_P [OF False] wp_and_then cs(4)
        by (intro wp_mono [OF parse_served [OF srv cs(1,6,5)]]) auto
    qed
  qed
qed

lemma enter_served:
  assumes srv: "server_setup im sy area junk says" and p: "due im sy says g0 [] p"
  shows "wp (binder_loop im bs (sym_server_handler sy) p) (\<lambda>_. due im sy says g0 []) (server_waits im sy says g0)"
proof -
  note S = setup_parts [OF srv]
  let ?q = "p\<lparr>pmem := store32 (pmem p) (loop_readbuf im) BC_ENTER_LOOPER\<rparr>"
  have quiet: "reply_of (write_request bs (le32 BC_ENTER_LOOPER) m) = []" for m
    by (simp add: write_request_def)
  have "server_waits im sy says g0 p'" if "sending area (write_request bs (le32 BC_ENTER_LOOPER) (pmem ?q)) ?q p'" for p'
    using that p quiet by (auto simp: sending_def env_step_def serving server_waits_def)
  moreover have "due im sy says g0 [] p'" if "sends area (write_request bs (le32 BC_ENTER_LOOPER) (pmem ?q)) ?q p'" for p'
    using that p quiet served_write [OF S(8)] by (auto simp: sends_def env_step_def serving)
  ultimately show ?thesis
    unfolding binder_loop_def enter_loop_def wp_and_then
    by (intro wp_mono [OF binder_write_sends [OF S(1) order_refl]]) (auto intro: loop_served [OF srv])
qed

subsection \<open>Start-up\<close>

definition server_log :: "server_globals image \<Rightarrow> unit \<Rightarrow> request list \<Rightarrow> bool" where
  "server_log im u h \<longleftrightarrow> (\<forall>rq\<in>set h. program_request im rq)"

interpretation server: binder_program server_log
  by unfold_locales (auto simp: server_log_def death_cookies_def program_request_plain)

definition server_strings :: "symbols \<Rightarrow> (addr \<times> byte list) set" where
  "server_strings sy = {(sym_mgr sy, svc_mgr_name), (sym_hello sy, map of_char ''hello''),
     (sym_goodbye sy, map of_char ''goodbye'')}"

lemma started_serving:
  assumes srv: "server_setup im sy area junk says"
  shows "program_inv server_log im area ss u g p \<Longrightarrow> due im sy says g [] p"
    and "program_waits server_log im u g p \<Longrightarrow> server_waits im sy says g p"
proof -
  have silent: "served im sy says h = [] \<and> replies h = []" if "server_log im u h" for h
    using silent_log [of h im] that setup_parts(8,9) [OF srv] by (simp add: server_log_def)
  show "due im sy says g [] p" if "program_inv server_log im area ss u g p"
    using that silent server.client [OF that] by (simp add: serving program_inv_def is_client_def)
  show "server_waits im sy says g p" if "program_waits server_log im u g p"
  proof -
    have "server_log im u (butlast (requests p))"
      using that by (auto simp: program_waits_def server_log_def dest: in_set_butlastD)
    with that silent show ?thesis by (auto simp: server_waits_def program_waits_def)
  qed
qed

lemma publishes:
  assumes ready: "client_setup im area" and inv: "program_inv server_log im area ss u g p"
    and names: "(sym_mgr sy, mgr) \<in> ss" "(name, s) \<in> ss"
  shows "wp (svcmgr_publish im sy bs target name ptr p) (\<lambda>_. program_inv server_log im area ss u g)
    (program_waits server_log im u g)"
proof -
  have "\<exists>msg m. publish_msg im (sym_mgr sy) name ptr (pmem p) = Some (msg, m) \<and>
      program_inv server_log im area ss u g (p\<lparr>pmem := m\<rparr>)"
    unfolding publish_msg_run
    by (rule server.message [OF ready inv]) (use server.string_item [OF ready inv] names in auto)
  then obtain msg m where msg: "publish_msg im (sym_mgr sy) name ptr (pmem p) = Some (msg, m)"
    and p1: "program_inv server_log im area ss u g (p\<lparr>pmem := m\<rparr>)" by blast
  show ?thesis
    unfolding svcmgr_publish_def msg option.case prod.case wp_and_then
    by (rule wp_mono [OF server.calls [OF ready p1]])
      (auto split: prod.split intro!: wp_mono [OF server.frees [OF ready]])
qed

subsection \<open>A concrete driver\<close>

text \<open>The call that the bytes of a message with a name amount to.\<close>

lemma named_call:
  assumes arr: "arrives (le32 0 @ string_wire us pad) t m" and "length pad = padding us" and "length us < 512"
    and "txn_code t = 1" and "txn_target t \<in> {sym_hello_handler sy, sym_goodbye_handler sy}"
  shows "acceptable im sy m t"
proof -
  note header = get_number [OF arrives_at [OF arr, of "junk_io im"]]
  from get_string [of "bio_advance (bio_init_from_txn (junk_io im) t) 4" m us pad "[]"] header(2) assms(2,3)
  obtain x r where str: "bio_get_string16 m (bio_advance (bio_init_from_txn (junk_io im) t) 4) = (x, of_nat (length us), r)"
    "x \<noteq> NULL" "load_u16s m x (length us) = us"
    by auto
  with header(1) assms(3-5) show ?thesis
    by (simp add: acceptable_def call_in_def unat_of_nat_small)
qed

text \<open>This one answers calls with a status of zero, and brings the server a call for "hi" with each read.\<close>

definition hi_bytes :: "byte list" where
  "hi_bytes = le32 0 @ string_wire [0x68, 0x69] [0, 0]"

definition hi_txn :: binder_transaction_data where
  "hi_txn = example_reply_txn\<lparr>txn_target := 0x9200, txn_code := 1, txn_data_size := 16\<rparr>"

fun hi_says :: "request \<Rightarrow> br list" where
  "hi_says (WriteRead d bwr m) =
     (if read_size bwr = 128 then
        if read_buffer bwr = 0x1000 then [Noop, Transaction hi_txn]
        else [Noop, TransactionComplete, Reply example_reply_txn]
      else [])"
| "hi_says rq = []"

definition hi_symbols :: symbols where
  "hi_symbols = example_symbols\<lparr>sym_hello_handler := 0x9200, sym_goodbye_handler := 0x9300, sym_server_handler := 0x9000\<rparr>"

definition hi_image :: "server_globals image" where
  "hi_image = \<lparr>loop_readbuf = 0x1000, call_readbuf = 0x2000, parse_rdata = 0x3000,
     reply_status = 0x4000, caller_iodata = 0x80400, junk_txn = example_reply_txn, junk_io = zero_io,
     handler_code = (\<lambda>_. Some (test_server_handler (services hi_symbols (\<lambda>_. replicate 512 0)))),
     death_code = (\<lambda>_. None),
     kernel = (\<lambda>h. example_answer (hi_says (last h)) [(0x80000, hi_bytes)]), allocator = page_alloc\<rparr>"

definition hi_start :: "server_globals process" where
  "hi_start = (hello_process 0)\<lparr>pmem := pmem example_client, budget := 20\<rparr>"

lemma hi_length: "length hi_bytes = 16"
  by (simp add: hi_bytes_def string_wire_def)

lemma hi_accepted:
  assumes "length ts \<le> 128"
  shows "acceptable im hi_symbols (store_bytes (store_bytes m 0x80000 hi_bytes) 0x1000 ts) hi_txn"
proof (rule named_call [where us = "[0x68, 0x69]" and pad = "[0, 0]"])
  let ?m = "store_bytes m 0x80000 hi_bytes"
  have "agree_on (- region 0x1000 (length ts)) ?m (store_bytes ?m 0x1000 ts)"
    using assms by (intro agree_on_store_bytes) (simp_all add: no_wrap_def)
  then have "load_bytes (store_bytes ?m 0x1000 ts) 0x80000 16 = load_bytes ?m 0x80000 16"
    using assms by (rule_tac load_bytes_agree) (auto simp: in_region no_wrap_def)
  also have "\<dots> = hi_bytes"
    using load_bytes_store_same [of "0x80000" hi_bytes m] by (simp add: hi_length no_wrap_def del: load_bytes_numeral)
  finally show "arrives (le32 0 @ string_wire [0x68, 0x69] [0, 0]) hi_txn (store_bytes ?m 0x1000 ts)"
    unfolding hi_bytes_def [symmetric]
    by (simp add: arrives_def hi_length hi_txn_def example_reply_txn_def del: load_bytes_numeral)
qed (simp_all add: padding_def hi_txn_def hi_symbols_def)

lemma hi_setup: "server_setup hi_image hi_symbols (region 0x80000 0x200) (\<lambda>_. replicate 512 0) (\<lambda>h. hi_says (last h))"
proof -
  have area: "region 0x80000 16 \<subseteq> region (0x80000 :: addr) 0x200" "no_wrap (0x80000 :: addr) 16"
    by (auto simp: in_region no_wrap_def)
  have txn: "txn_in (region 0x80000 0x200) hi_txn" by (auto simp: txn_in_def hi_txn_def example_reply_txn_def in_region)
  have "speaks C (region 0x80000 0x200) (unat (read_size bwr)) (example_answer (hi_says (WriteRead d bwr m)) [(0x80000, hi_bytes)])"
    for C d bwr m
    using area txn by (intro speaks_example) (auto simp: hi_length)
  then have honest: "honest_kernel hi_image (region 0x80000 0x200)"
    by (simp add: honest_kernel_def hi_image_def)
  have "service_kernel hi_image hi_symbols (\<lambda>h. hi_says (last h))"
    using hi_accepted [of "encode_brs [Noop, Transaction hi_txn]"]
    by (auto simp: service_kernel_def Let_def hi_image_def example_answer_def arrived_def)
  with honest show ?thesis
    by (auto simp: server_setup_def laid_out_def the_server_def client_setup_def iodata_ok_def rdata_area_def
        readbuf_area_def status_area_def in_region no_wrap_def hi_image_def hi_symbols_def Let_def)
qed

lemma hi_starts: "program_inv server_log hi_image (region 0x80000 0x200) (server_strings hi_symbols) () (globals hi_start) hi_start"
  using example_client_strings
  by (auto simp: program_inv_def server_log_def hi_start_def hello_process_def strings_at_def server_strings_def
      hi_symbols_def example_symbols_def hi_image_def name_in_def svc_mgr_name no_wrap_def in_region client_shared_def)

subsection \<open>Property\<close>

text \<open>C3: the server serves as its four counters would, however long it runs: whatever the driver
  answers while it keeps to the protocol, \<open>main\<close> waits or returns, and at that moment the replies
  it has sent are those of the abstract machine for the calls that have been delivered so far, in
  their order, and its counters are the machine's: a plain call gets an empty message, a call with
  a name the number of such calls, anything else the status -1.\<close>
theorem server_main_counts:
  assumes srv: "server_setup im sy area junk says"
    and start: "program_inv server_log im area (server_strings sy) u g p"
  shows "wp (server_main im sy p)
    (\<lambda>r p'. serve_all (served im sy says (requests p')) g = (replies (requests p'), globals p'))
    (\<lambda>p'. serve_all (served im sy says (butlast (requests p'))) g = (replies (requests p'), globals p'))"
proof -
  let ?inv = "program_inv server_log im area (server_strings sy) u g"
  have ready: "client_setup im area" by (rule setup_parts(13) [OF srv])
  have names: "(sym_mgr sy, svc_mgr_name) \<in> server_strings sy" "(sym_hello sy, map of_char ''hello'') \<in> server_strings sy"
    "(sym_goodbye sy, map of_char ''goodbye'') \<in> server_strings sy" by (simp_all add: server_strings_def)
  note wait = started_serving(2) [OF srv, where u = u and g = g]
  have serve: "wp (binder_loop im bs (sym_server_handler sy) q) (\<lambda>_. due im sy says g []) (server_waits im sy says g)"
    if "?inv q" for bs q
    by (rule enter_served [OF srv started_serving(1) [OF srv that]])
  have threads: "wp (binder_set_maxthreads im bs 10 q) (\<lambda>_. ?inv) (server_waits im sy says g)" if "?inv q" for bs q
    unfolding binder_set_maxthreads_def wp_and_then wp_returns
    by (rule wp_mono [OF server.syscall_keeps [OF that]]) (auto intro: wait)
  have publish: "wp (svcmgr_publish im sy bs target a ptr q) (\<lambda>_. ?inv) (server_waits im sy says g)"
    if "?inv q" "(a, s) \<in> server_strings sy" for bs target a ptr q s
    by (rule wp_mono [OF publishes [OF ready that(1) names(1) that(2)]]) (auto intro: wait)
  have "wp (server_main im sy p) (\<lambda>_. due im sy says g []) (server_waits im sy says g)"
    unfolding server_main_def wp_and_then
    by (rule wp_mono [OF server.opens [OF start]])
      (auto simp: wait started_serving(1) [OF srv] split: option.split
        intro!: wp_mono [OF publish [OF _ names(2)]] wp_mono [OF publish [OF _ names(3)]] wp_mono [OF threads] wp_mono [OF serve])
  then show ?thesis by (rule wp_mono) (simp_all add: serving server_waits_def)
qed

theorem server_main_counts_witness:
  "wp (server_main hi_image hi_symbols hi_start)
    (\<lambda>r p'. serve_all (served hi_image hi_symbols (\<lambda>h. hi_says (last h)) (requests p')) (globals hi_start) =
       (replies (requests p'), globals p'))
    (\<lambda>p'. serve_all (served hi_image hi_symbols (\<lambda>h. hi_says (last h)) (butlast (requests p'))) (globals hi_start) =
       (replies (requests p'), globals p'))"
  by (rule server_main_counts [OF hi_setup hi_starts])

end
