(* ===== verification/Stdio.thy ===== *)
theory Stdio
  imports Prelude
begin

text \<open>
  The part of \<open>stdio.h\<close> the small programs format their text with: the decimal conversion
  \<open>%d\<close> of an \<open>int\<close> and the bounded \<open>snprintf\<close>. \<open>read_dec\<close> reads such a number back, as the
  readers of the written files do, and shows that the conversion loses nothing.
\<close>

fun dec_nat :: "nat \<Rightarrow> string" where
  "dec_nat n = (if n < 10 then [char_of (48 + n)] else dec_nat (n div 10) @ [char_of (48 + n mod 10)])"

declare dec_nat.simps [simp del]

definition dec_int :: "int \<Rightarrow> string" where
  "dec_int i = (if i < 0 then CHR ''-'' # dec_nat (nat (- i)) else dec_nat (nat i))"

text \<open>\<open>snprintf(buffer, size, ...)\<close> of a text: what it leaves in the buffer, terminated; its
  result is the length of the whole text, also when the text did not fit.\<close>

definition snprintf :: "nat \<Rightarrow> string \<Rightarrow> string \<times> nat" where
  "snprintf n text = (take (n - 1) text @ [CHR 0x00], length text)"

subsection \<open>Reading decimals back\<close>

definition digit_value :: "char \<Rightarrow> nat" where
  "digit_value c = of_char c - 48"

definition read_nat :: "string \<Rightarrow> nat" where
  "read_nat s = foldl (\<lambda>n c. 10 * n + digit_value c) 0 s"

definition read_dec :: "string \<Rightarrow> int" where
  "read_dec s = (case s of [] \<Rightarrow> 0 | c # cs \<Rightarrow> if c = CHR ''-'' then - int (read_nat cs) else int (read_nat s))"

lemma digit_char: "n < 10 \<Longrightarrow> digit_value (char_of (48 + n)) = n"
  by (simp add: digit_value_def)

lemma of_digit: "n < 10 \<Longrightarrow> of_char (char_of (48 + n) :: char) = (48 + n :: nat)"
  by simp

lemma read_nat_snoc: "read_nat (s @ [c]) = 10 * read_nat s + digit_value c"
  by (simp add: read_nat_def)

lemma read_dec_nat: "read_nat (dec_nat n) = n"
proof (induction n rule: dec_nat.induct)
  case (1 n)
  show ?case
  proof (cases "n < 10")
    case True
    then show ?thesis by (simp add: dec_nat.simps [of n] read_nat_def digit_char)
  next
    case False
    with 1 show ?thesis by (simp add: dec_nat.simps [of n] read_nat_snoc digit_char)
  qed
qed

lemma dec_nat_nonempty: "dec_nat n \<noteq> []"
  by (simp add: dec_nat.simps [of n])

lemma dec_nat_digits: "c \<in> set (dec_nat n) \<Longrightarrow> 48 \<le> (of_char c :: nat) \<and> (of_char c :: nat) < 58"
proof (induction n rule: dec_nat.induct)
  case (1 n)
  show ?case
  proof (cases "n < 10")
    case True
    then show ?thesis using 1(2) by (auto simp: dec_nat.simps [of n] of_digit)
  next
    case False
    moreover have "n mod 10 < 10" by simp
    ultimately show ?thesis using 1 by (auto simp: dec_nat.simps [of n] of_digit)
  qed
qed

lemma dec_nat_no_sign: "CHR ''-'' \<notin> set (dec_nat n)"
  using dec_nat_digits [of "CHR ''-''" n] by auto

text \<open>What \<open>%d\<close> prints is read back as the same number.\<close>

lemma read_dec_int: "read_dec (dec_int i) = i"
proof (cases "i < 0")
  case True
  then show ?thesis by (simp add: dec_int_def read_dec_def read_dec_nat)
next
  case False
  obtain c cs where c: "dec_nat (nat i) = c # cs" by (cases "dec_nat (nat i)") (auto simp: dec_nat_nonempty)
  with dec_nat_no_sign [of "nat i"] have "c \<noteq> CHR ''-''" by auto
  with False c read_dec_nat [of "nat i"] show ?thesis by (simp add: dec_int_def read_dec_def)
qed

lemma dec_int_inject: "dec_int i = dec_int j \<longleftrightarrow> i = j"
  by (metis read_dec_int)

subsection \<open>Lengths\<close>

lemma length_dec_nat: "n < 10 ^ k \<Longrightarrow> 0 < k \<Longrightarrow> length (dec_nat n) \<le> k"
proof (induction n arbitrary: k rule: dec_nat.induct)
  case (1 n)
  show ?case
  proof (cases "n < 10")
    case True
    with 1(3) show ?thesis by (simp add: dec_nat.simps [of n])
  next
    case False
    obtain j where j: "k = Suc j" using 1(3) by (cases k) auto
    with 1(2) False have "0 < j" by (cases j) auto
    moreover have "n div 10 < 10 ^ j" using 1(2) j by auto
    ultimately have "length (dec_nat (n div 10)) \<le> j" using 1(1) [OF False] by simp
    with False j show ?thesis by (simp add: dec_nat.simps [of n])
  qed
qed

text \<open>A 32-bit \<open>int\<close> takes at most eleven characters.\<close>

lemma length_dec_int:
  assumes "- (2 ^ 31) \<le> i" and "i < 2 ^ 31"
  shows "length (dec_int i) \<le> 11"
proof (cases "i < 0")
  case True
  with assms have "nat (- i) < 10 ^ 10" by simp
  with True length_dec_nat [of "nat (- i)" 10] show ?thesis by (simp add: dec_int_def)
next
  case False
  with assms have "nat i < 10 ^ 10" by simp
  with False length_dec_nat [of "nat i" 10] show ?thesis by (simp add: dec_int_def)
qed

lemma length_dec_sint: "length (dec_int (sint (w :: u32))) \<le> 11"
  using sint_ge [of w] sint_lt [of w] by (intro length_dec_int) simp_all

text \<open>A text that fits is written whole.\<close>

lemma snprintf_fits: "length text < n \<Longrightarrow> take (length text) (fst (snprintf n text)) = text"
  by (simp add: snprintf_def)

end
