(* ===== verification/Lights.thy ===== *)
theory Lights
  imports Stdio "HOL-Library.Signed_Division"
begin

text \<open>
  \<open>bsp/ledDriver/lights.c\<close>: the lights module of the phone (backlight, battery light,
  notification light), which writes texts to attribute files of the kernel's LED class.

  Everything outside the file is \<open>env\<close>: it answers each call with a result and the value of
  \<open>errno\<close> after the call, from all that has happened before, so every behaviour of the system
  is covered. \<open>lights_h\<close> holds what the code takes from \<open>hardware/lights.h\<close> and \<open>errno.h\<close>,
  which are not part of the repository. None is a run with undefined behaviour: a write from
  behind the end of \<open>buffer\<close>, or \<open>memset\<close> of a null pointer.
\<close>

subsection \<open>Calls, state and environment\<close>

datatype lcall =
    Sys_open string
  | Sys_write int string
  | Sys_close int
  | Alog
  | Mutex_init
  | Lock
  | Unlock
  | Dev_malloc
  | Dev_free addr

type_synonym event = "lcall \<times> int"
type_synonym env = "event list \<Rightarrow> lcall \<Rightarrow> int \<times> int"

text \<open>\<open>struct light_state_t\<close>; its \<open>int\<close> members are read with \<open>sint\<close>.\<close>

record light_state =
  color :: u32
  flashMode :: u32
  flashOnMS :: u32
  flashOffMS :: u32
  brightnessMode :: u32

record lights_h =
  LIGHT_FLASH_NONE :: u32
  BRIGHTNESS_MODE_USER :: u32
  BRIGHTNESS_MODE_SENSOR :: u32
  LIGHT_ID_BACKLIGHT :: string
  LIGHT_ID_BUTTONS :: string
  LIGHT_ID_BATTERY :: string
  LIGHT_ID_NOTIFICATIONS :: string
  HARDWARE_DEVICE_TAG :: u32
  EINVAL :: int

text \<open>The static variables; \<open>trace\<close> is what the module has done so far.\<close>

record lights =
  trace :: "event list"
  errno :: int
  write_int_warned :: bool
  write_string_warned :: bool
  g_init :: bool
  g_notification :: light_state
  g_battery :: light_state

definition sys :: "env \<Rightarrow> lcall \<Rightarrow> 'a lights_scheme \<Rightarrow> int \<times> 'a lights_scheme" where
  "sys env c s =
     (let (r, e) = env (trace s) c in (r, s\<lparr>trace := trace s @ [(c, r)], errno := e\<rparr>))"

subsection \<open>The attribute files\<close>

definition RED_LED_FILE :: string where "RED_LED_FILE = ''/sys/class/leds/led1/brightness''"
definition GREEN_LED_FILE :: string where "GREEN_LED_FILE = ''/sys/class/leds/led2/brightness''"
definition BLUE_LED_FILE :: string where "BLUE_LED_FILE = ''/sys/class/leds/led3/brightness''"
definition RED_LED_FILE_TRIGGER :: string where "RED_LED_FILE_TRIGGER = ''/sys/class/leds/led1/trigger''"
definition GREEN_LED_FILE_TRIGGER :: string where "GREEN_LED_FILE_TRIGGER = ''/sys/class/leds/led2/trigger''"
definition BLUE_LED_FILE_TRIGGER :: string where "BLUE_LED_FILE_TRIGGER = ''/sys/class/leds/led3/trigger''"
definition RED_LED_FILE_DELAYON :: string where "RED_LED_FILE_DELAYON = ''/sys/class/leds/led1/delay_on''"
definition GREEN_LED_FILE_DELAYON :: string where "GREEN_LED_FILE_DELAYON = ''/sys/class/leds/led2/delay_on''"
definition BLUE_LED_FILE_DELAYON :: string where "BLUE_LED_FILE_DELAYON = ''/sys/class/leds/led3/delay_on''"
definition RED_LED_FILE_DELAYOFF :: string where "RED_LED_FILE_DELAYOFF = ''/sys/class/leds/led1/delay_off''"
definition GREEN_LED_FILE_DELAYOFF :: string where "GREEN_LED_FILE_DELAYOFF = ''/sys/class/leds/led2/delay_off''"
definition BLUE_LED_FILE_DELAYOFF :: string where "BLUE_LED_FILE_DELAYOFF = ''/sys/class/leds/led3/delay_off''"
definition LCD_BACKLIGHT_FILE :: string where "LCD_BACKLIGHT_FILE = ''/dev/backlight-1wire''"

lemmas led_files =
  RED_LED_FILE_def GREEN_LED_FILE_def BLUE_LED_FILE_def
  RED_LED_FILE_TRIGGER_def GREEN_LED_FILE_TRIGGER_def BLUE_LED_FILE_TRIGGER_def
  RED_LED_FILE_DELAYON_def GREEN_LED_FILE_DELAYON_def BLUE_LED_FILE_DELAYON_def
  RED_LED_FILE_DELAYOFF_def GREEN_LED_FILE_DELAYOFF_def BLUE_LED_FILE_DELAYOFF_def
  LCD_BACKLIGHT_FILE_def

subsection \<open>Writing an attribute\<close>

text \<open>The first \<open>n\<close> bytes of \<open>char buffer[20]\<close> after \<open>snprintf\<close>: None when \<open>write\<close> is asked
  for more bytes than the array has.\<close>

definition buffer_bytes :: "string \<Rightarrow> string option" where
  "buffer_bytes text =
     (let (buffer, bytes) = snprintf 20 text in if bytes \<le> 20 then Some (take bytes buffer) else None)"

definition write_int :: "env \<Rightarrow> string \<Rightarrow> int \<Rightarrow> 'a lights_scheme \<Rightarrow> (int \<times> 'a lights_scheme) option" where
  "write_int env path value s =
     (let (fd, s) = sys env (Sys_open path) s in
      if fd < 0 then
        let s = (if write_int_warned s then s
                 else (snd (sys env Alog s))\<lparr>write_int_warned := True\<rparr>)
        in Some (- errno s, s)
      else do {
        out \<leftarrow> buffer_bytes (dec_int value @ [CHR 0x0A]);
        let (written, s) = sys env (Sys_write fd out) s;
        let s = snd (sys env (Sys_close fd) s);
        Some (if written = -1 then - errno s else 0, s)
      })"

definition write_string :: "env \<Rightarrow> string \<Rightarrow> string \<Rightarrow> 'a lights_scheme \<Rightarrow> (int \<times> 'a lights_scheme) option" where
  "write_string env path value s =
     (let (fd, s) = sys env (Sys_open path) s in
      if fd < 0 then
        let s = (if write_string_warned s then s
                 else (snd (sys env Alog s))\<lparr>write_string_warned := True\<rparr>)
        in Some (- errno s, s)
      else do {
        out \<leftarrow> buffer_bytes (value @ [CHR 0x0A]);
        let (written, s) = sys env (Sys_write fd out) s;
        let s = snd (sys env (Sys_close fd) s);
        Some (if written = -1 then - errno s else 0, s)
      })"

subsection \<open>Colours\<close>

definition is_lit :: "light_state \<Rightarrow> bool" where
  "is_lit state \<longleftrightarrow> color state AND 0x00ffffff \<noteq> 0"

definition rgb_to_brightness :: "light_state \<Rightarrow> int" where
  "rgb_to_brightness state =
     (let c = uint (color state AND 0x00ffffff) in
      drop_bit 8 (77 * (drop_bit 16 c AND 0x00ff) + 150 * (drop_bit 8 c AND 0x00ff) + 29 * (c AND 0x00ff)))"

subsection \<open>The lights\<close>

definition set_light_backlight ::
  "env \<Rightarrow> light_state \<Rightarrow> 'a lights_scheme \<Rightarrow> (int \<times> 'a lights_scheme) option" where
  "set_light_backlight env state s =
     (let brightness = rgb_to_brightness state;
          s = snd (sys env Alog s);
          s = snd (sys env Lock s)
      in do {
        (_, s) \<leftarrow> write_int env LCD_BACKLIGHT_FILE (brightness sdiv 2) s;
        Some (0, snd (sys env Unlock s))
      })"

definition set_shared_light_locked ::
  "lights_h \<Rightarrow> env \<Rightarrow> light_state \<Rightarrow> 'a lights_scheme \<Rightarrow> 'a lights_scheme option" where
  "set_shared_light_locked h env state s =
     (let r = uint (drop_bit 16 (color state) AND 0xFF);
          g = uint (drop_bit 8 (color state) AND 0xFF);
          b = uint (color state AND 0xFF);
          delayOn = sint (flashOnMS state);
          delayOff = sint (flashOffMS state)
      in do {
        s \<leftarrow> (if flashMode state \<noteq> LIGHT_FLASH_NONE h then do {
            (_, s) \<leftarrow> write_string env RED_LED_FILE_TRIGGER ''timer'' s;
            (_, s) \<leftarrow> write_string env GREEN_LED_FILE_TRIGGER ''timer'' s;
            (_, s) \<leftarrow> write_string env BLUE_LED_FILE_TRIGGER ''timer'' s;
            (_, s) \<leftarrow> write_int env RED_LED_FILE_DELAYON delayOn s;
            (_, s) \<leftarrow> write_int env GREEN_LED_FILE_DELAYON delayOn s;
            (_, s) \<leftarrow> write_int env BLUE_LED_FILE_DELAYON delayOn s;
            (_, s) \<leftarrow> write_int env RED_LED_FILE_DELAYOFF delayOff s;
            (_, s) \<leftarrow> write_int env GREEN_LED_FILE_DELAYOFF delayOff s;
            (_, s) \<leftarrow> write_int env BLUE_LED_FILE_DELAYOFF delayOff s;
            Some s
          } else do {
            (_, s) \<leftarrow> write_string env RED_LED_FILE_TRIGGER ''none'' s;
            (_, s) \<leftarrow> write_string env GREEN_LED_FILE_TRIGGER ''none'' s;
            (_, s) \<leftarrow> write_string env BLUE_LED_FILE_TRIGGER ''none'' s;
            Some s
          });
        (_, s) \<leftarrow> write_int env RED_LED_FILE r s;
        (_, s) \<leftarrow> write_int env GREEN_LED_FILE g s;
        (_, s) \<leftarrow> write_int env BLUE_LED_FILE b s;
        Some s
      })"

definition handle_shared_battery_locked ::
  "lights_h \<Rightarrow> env \<Rightarrow> 'a lights_scheme \<Rightarrow> 'a lights_scheme option" where
  "handle_shared_battery_locked h env s =
     (if is_lit (g_notification s) then set_shared_light_locked h env (g_notification s) s
      else set_shared_light_locked h env (g_battery s) s)"

definition set_light_battery ::
  "lights_h \<Rightarrow> env \<Rightarrow> light_state \<Rightarrow> 'a lights_scheme \<Rightarrow> (int \<times> 'a lights_scheme) option" where
  "set_light_battery h env state s =
     (let s = snd (sys env Alog s);
          s = snd (sys env Lock s);
          s = s\<lparr>g_battery := state\<rparr>
      in do {
        s \<leftarrow> handle_shared_battery_locked h env s;
        Some (0, snd (sys env Unlock s))
      })"

definition set_light_notifications ::
  "lights_h \<Rightarrow> env \<Rightarrow> light_state \<Rightarrow> 'a lights_scheme \<Rightarrow> (int \<times> 'a lights_scheme) option" where
  "set_light_notifications h env state s =
     (let s = snd (sys env Alog s);
          s = snd (sys env Lock s);
          s = s\<lparr>g_notification := state\<rparr>
      in do {
        s \<leftarrow> handle_shared_battery_locked h env s;
        Some (0, snd (sys env Unlock s))
      })"

subsection \<open>The device\<close>

datatype set_light_fn = Fn_backlight | Fn_battery | Fn_notifications

record light_device =
  dev_at :: addr
  dev_tag :: u32
  dev_version :: u32
  dev_module :: addr
  dev_set_light :: set_light_fn

definition init_globals :: "env \<Rightarrow> 'a lights_scheme \<Rightarrow> 'a lights_scheme" where
  "init_globals env s = snd (sys env Mutex_init s)"

text \<open>\<open>pthread_once(&g_init, init_globals)\<close>.\<close>

definition run_once :: "env \<Rightarrow> 'a lights_scheme \<Rightarrow> 'a lights_scheme" where
  "run_once env s = (if g_init s then s else (init_globals env s)\<lparr>g_init := True\<rparr>)"

definition close_lights :: "env \<Rightarrow> addr \<Rightarrow> 'a lights_scheme \<Rightarrow> int \<times> 'a lights_scheme" where
  "close_lights env dev s = (0, if dev \<noteq> NULL then snd (sys env (Dev_free dev) s) else s)"

definition open_lights ::
  "lights_h \<Rightarrow> env \<Rightarrow> addr \<Rightarrow> string \<Rightarrow> 'a lights_scheme \<Rightarrow>
     (int \<times> light_device option \<times> 'a lights_scheme) option" where
  "open_lights h env module name s =
     (case (if LIGHT_ID_BACKLIGHT h = name then Some Fn_backlight
            else if LIGHT_ID_BATTERY h = name then Some Fn_battery
            else if LIGHT_ID_NOTIFICATIONS h = name then Some Fn_notifications
            else None) of
        None \<Rightarrow> Some (- EINVAL h, None, s)
      | Some set_light \<Rightarrow>
          let s = run_once env s;
              (dev, s) = sys env Dev_malloc s
          in
          if dev = 0 then None
          else Some (0, Some \<lparr>dev_at = word_of_int dev, dev_tag = HARDWARE_DEVICE_TAG h, dev_version = 0,
                 dev_module = module, dev_set_light = set_light\<rparr>, s))"

text \<open>The call \<open>dev->set_light(dev, state)\<close> of a user of the device.\<close>

fun set_light :: "lights_h \<Rightarrow> env \<Rightarrow> set_light_fn \<times> light_state \<Rightarrow> 'a lights_scheme \<Rightarrow> 'a lights_scheme option" where
  "set_light h env (Fn_backlight, st) s = map_option snd (set_light_backlight env st s)"
| "set_light h env (Fn_battery, st) s = map_option snd (set_light_battery h env st s)"
| "set_light h env (Fn_notifications, st) s = map_option snd (set_light_notifications h env st s)"

end
