(* ===== verification/Lights_Trace.thy ===== *)
theory Lights_Trace
  imports Lights
begin

text \<open>
  What the lights modules promise, stated on their trace: \<open>disc\<close> is the discipline of the lock
  and of the file descriptors, \<open>writes\<close> the texts that reached the files, \<open>shared_writes\<close> the
  texts a light state calls for. The facts on \<open>write_int\<close> and \<open>write_string\<close> carry everything
  else. The locale \<open>light_module\<close> is the contract of one call of a module; what holds of every
  sequence of calls is proved once inside it, for \<open>lights.c\<close> and \<open>lights_sony.c\<close> alike.
\<close>

subsection \<open>Reading a trace\<close>

datatype phase = Unlocked | Locked | Holding int

fun disc :: "event \<Rightarrow> phase \<Rightarrow> phase option" where
  "disc (Lock, _) Unlocked = Some Locked"
| "disc (Unlock, _) Locked = Some Unlocked"
| "disc (Sys_open _, r) Locked = Some (if r < 0 then Locked else Holding r)"
| "disc (Sys_write fd _, _) (Holding fd') = (if fd = fd' then Some (Holding fd) else None)"
| "disc (Sys_close fd, _) (Holding fd') = (if fd = fd' then Some Locked else None)"
| "disc (Alog, _) ph = Some ph"
| "disc (Mutex_init, _) Unlocked = Some Unlocked"
| "disc (Dev_malloc, _) Unlocked = Some Unlocked"
| "disc (Dev_free _, _) Unlocked = Some Unlocked"
| "disc _ _ = None"

text \<open>The files and texts written completely, in order; the first argument is the file open at
  the start.\<close>

fun writes :: "string option \<Rightarrow> event list \<Rightarrow> (string \<times> string) list" where
  "writes cur [] = []"
| "writes cur ((Sys_open p, r) # es) = writes (if r < 0 then None else Some p) es"
| "writes cur ((Sys_close _, _) # es) = writes None es"
| "writes cur ((Sys_write _ t, r) # es) =
     (case cur of
        Some p \<Rightarrow> if r = int (length t) then (p, t) # writes cur es else writes cur es
      | None \<Rightarrow> writes cur es)"
| "writes cur (_ # es) = writes cur es"

definition attribute :: "event list \<Rightarrow> string \<Rightarrow> string option" where
  "attribute tr = map_of (rev (writes None tr))"

text \<open>The files open and take what is written to them.\<close>

definition works :: "env \<Rightarrow> bool" where
  "works env \<longleftrightarrow> (\<forall>tr p. 0 \<le> fst (env tr (Sys_open p))) \<and>
     (\<forall>tr fd t. fst (env tr (Sys_write fd t)) = int (length t))"

definition newline :: string where "newline = [CHR 0x0A]"

subsection \<open>The texts a light state calls for\<close>

datatype led = Red | Green | Blue
datatype attr = Brightness | Trigger | Delay_on | Delay_off

definition leds :: "led list" where "leds = [Red, Green, Blue]"

primrec channel :: "led \<Rightarrow> light_state \<Rightarrow> int" where
  "channel Red st = uint (color st) div 65536 mod 256"
| "channel Green st = uint (color st) div 256 mod 256"
| "channel Blue st = uint (color st) mod 256"

text \<open>\<open>F\<close> names the file of an attribute of a led.\<close>

type_synonym led_paths = "led \<Rightarrow> attr \<Rightarrow> string"

definition blink_writes :: "led_paths \<Rightarrow> u32 \<Rightarrow> light_state \<Rightarrow> (string \<times> string) list" where
  "blink_writes F steady st =
     (if flashMode st \<noteq> steady then
        map (\<lambda>l. (F l Trigger, ''timer'' @ newline)) leds @
        map (\<lambda>l. (F l Delay_on, dec_int (sint (flashOnMS st)) @ newline)) leds @
        map (\<lambda>l. (F l Delay_off, dec_int (sint (flashOffMS st)) @ newline)) leds
      else map (\<lambda>l. (F l Trigger, ''none'' @ newline)) leds)"

definition shared_writes :: "led_paths \<Rightarrow> u32 \<Rightarrow> light_state \<Rightarrow> (string \<times> string) list" where
  "shared_writes F steady st =
     blink_writes F steady st @ map (\<lambda>l. (F l Brightness, dec_int (channel l st) @ newline)) leds"

text \<open>A light is lit if one of its channels is not dark, whatever its alpha byte. Of the notification
  and the battery light, the one that is shown.\<close>

definition has_colour :: "light_state \<Rightarrow> bool" where
  "has_colour st \<longleftrightarrow> list_ex (\<lambda>l. channel l st \<noteq> 0) leds"

definition shown :: "light_state \<times> light_state \<Rightarrow> light_state" where
  "shown nb = (if has_colour (fst nb) then fst nb else snd nb)"

definition luminance :: "light_state \<Rightarrow> int" where
  "luminance st = (77 * channel Red st + 150 * channel Green st + 29 * channel Blue st) div 256"

subsection \<open>Total correctness in the option monad\<close>

definition ok :: "'a option \<Rightarrow> ('a \<Rightarrow> bool) \<Rightarrow> bool" where
  "ok m Q \<longleftrightarrow> (\<exists>x. m = Some x \<and> Q x)"

lemma ok_Some [simp]: "ok (Some x) Q = Q x"
  by (simp add: ok_def)

lemma ok_bind [simp]: "ok (Option.bind m f) Q = ok m (\<lambda>x. ok (f x) Q)"
  by (cases m) (simp_all add: ok_def)

lemma ok_mono: "ok m Q \<Longrightarrow> (\<And>x. Q x \<Longrightarrow> Q' x) \<Longrightarrow> ok m Q'"
  by (auto simp: ok_def)

subsection \<open>One attribute\<close>

lemma run_all_snoc: "run_all f xs s = Some t \<Longrightarrow> run_all f (xs @ ys) s = run_all f ys t"
  by (simp add: run_all_append)

text \<open>A piece of a run from \<open>s\<close> to \<open>s'\<close>: it keeps to the discipline, and in an environment that
  works it writes \<open>ws\<close>.\<close>

definition did :: "phase \<Rightarrow> phase \<Rightarrow> env \<Rightarrow> 'a lights_scheme \<Rightarrow> 'b lights_scheme \<Rightarrow> (string \<times> string) list \<Rightarrow> bool" where
  "did ph ph' env s s' ws \<longleftrightarrow> (\<exists>ev. trace s' = trace s @ ev \<and> run_all disc ev ph = Some ph' \<and>
     (works env \<longrightarrow> (\<forall>es. writes None (ev @ es) = ws @ writes None es)))"

lemma did_refl [simp]: "trace s' = trace s \<Longrightarrow> did ph ph env s s' []"
  by (simp add: did_def)

lemma did_trans:
  assumes "did ph ph1 env s s1 ws" and "did ph1 ph2 env s1 s2 vs"
  shows "did ph ph2 env s s2 (ws @ vs)"
proof -
  obtain ev1 ev2 where "trace s1 = trace s @ ev1" "run_all disc ev1 ph = Some ph1"
      "works env \<longrightarrow> (\<forall>es. writes None (ev1 @ es) = ws @ writes None es)"
      "trace s2 = trace s1 @ ev2" "run_all disc ev2 ph1 = Some ph2"
      "works env \<longrightarrow> (\<forall>es. writes None (ev2 @ es) = vs @ writes None es)"
    using assms by (auto simp: did_def)
  then show ?thesis by (intro did_def [THEN iffD2] exI [of _ "ev1 @ ev2"]) (simp add: run_all_snoc)
qed

text \<open>The light states survive.\<close>

definition keeps :: "'a lights_scheme \<Rightarrow> 'a lights_scheme \<Rightarrow> bool" where
  "keeps s s' \<longleftrightarrow> g_notification s' = g_notification s \<and> g_battery s' = g_battery s \<and>
     g_init s' = g_init s \<and> lights.more s' = lights.more s"

lemma keeps_refl [simp]: "keeps s s"
  by (simp add: keeps_def)

lemma keeps_trans [trans]: "keeps s s1 \<Longrightarrow> keeps s1 s2 \<Longrightarrow> keeps s s2"
  by (simp add: keeps_def)

definition wrote :: "env \<Rightarrow> 'a lights_scheme \<Rightarrow> 'a lights_scheme \<Rightarrow> (string \<times> string) list \<Rightarrow> bool" where
  "wrote env s s' ws \<longleftrightarrow> did Locked Locked env s s' ws \<and> keeps s s'"

lemma wrote_refl: "wrote env s s []"
  by (simp add: wrote_def)

lemma wrote_trans: "wrote env s s1 ws \<Longrightarrow> wrote env s1 s2 vs \<Longrightarrow> wrote env s s2 (ws @ vs)"
  unfolding wrote_def using did_trans keeps_trans by blast

lemma buffer_bytes_fits: "length out < 20 \<Longrightarrow> buffer_bytes out = Some out"
  using snprintf_fits [of out 20] by (simp add: buffer_bytes_def snprintf_def)

lemma works_simps:
  assumes "works env"
  shows "fst (env tr (Sys_open p)) < 0 \<longleftrightarrow> False" and "fst (env tr (Sys_write fd t)) = int (length t)"
  using assms by (auto simp: works_def not_less)

lemmas sys_simps = sys_def Let_def split_beta

lemma write_int_wrote:
  assumes "length (dec_int v) < 19"
  shows "ok (write_int env path v s) (\<lambda>(_, s'). wrote env s s' [(path, dec_int v @ newline)])"
proof -
  have "buffer_bytes (dec_int v @ newline) = Some (dec_int v @ newline)"
    using assms by (intro buffer_bytes_fits) (simp add: newline_def)
  then show ?thesis
    by (auto simp: write_int_def newline_def sys_simps wrote_def did_def keeps_def works_simps)
qed

lemma write_string_wrote:
  assumes "length v < 19"
  shows "ok (write_string env path v s) (\<lambda>(_, s'). wrote env s s' [(path, v @ newline)])"
proof -
  have "buffer_bytes (v @ newline) = Some (v @ newline)"
    using assms by (intro buffer_bytes_fits) (simp add: newline_def)
  then show ?thesis
    by (auto simp: write_string_def newline_def sys_simps wrote_def did_def keeps_def works_simps)
qed

text \<open>The same facts as rules that walk through a block of writes.\<close>

lemma write_int_step:
  assumes "wrote env s0 s ws" and "length (dec_int v) < 19"
    and "\<And>r s'. wrote env s0 s' (ws @ [(path, dec_int v @ newline)]) \<Longrightarrow> ok (f (r, s')) Q"
  shows "ok (write_int env path v s \<bind> f) Q"
  using write_int_wrote [OF assms(2), of env path s] wrote_trans [OF assms(1)] assms(3)
  by (auto elim!: ok_mono)

lemma write_string_step:
  assumes "wrote env s0 s ws" and "length v < 19"
    and "\<And>r s'. wrote env s0 s' (ws @ [(path, v @ newline)]) \<Longrightarrow> ok (f (r, s')) Q"
  shows "ok (write_string env path v s \<bind> f) Q"
  using write_string_wrote [OF assms(2), of env path s] wrote_trans [OF assms(1)] assms(3)
  by (auto elim!: ok_mono)

subsection \<open>Colours\<close>

lemma and_byte: "(k :: int) AND 255 = take_bit 8 k"
  using take_bit_eq_mask [of 8 k] by (simp add: mask_eq_exp_minus_1)

lemma and_rgb: "(k :: int) AND 16777215 = take_bit 24 k"
  using take_bit_eq_mask [of 24 k] by (simp add: mask_eq_exp_minus_1)

lemma channel_bits:
  "channel Red st = take_bit 8 (drop_bit 16 (uint (color st)))"
  "channel Green st = take_bit 8 (drop_bit 8 (uint (color st)))"
  "channel Blue st = take_bit 8 (uint (color st))"
  by (simp_all add: take_bit_eq_mod drop_bit_eq_div)

lemma take_32_uint: "take_bit 32 (uint (w :: u32)) = uint w"
  using unsigned_less [of w, where 'a = int] by (intro take_bit_int_eq_self) simp_all

lemma channel_words:
  "uint (drop_bit 16 (color st) AND 0xFF) = channel Red st"
  "uint (drop_bit 8 (color st) AND 0xFF) = channel Green st"
  "uint (color st AND 0xFF) = channel Blue st"
  by (simp_all add: uint_and and_byte channel_bits unsigned_drop_bit_eq take_32_uint del: channel.simps)

lemma three_bytes:
  "(k :: int) mod 16777216 = 65536 * (k div 65536 mod 256) + 256 * (k div 256 mod 256) + k mod 256"
proof -
  have d: "k div 65536 = k div 256 div 256" "k div 16777216 = k div 65536 div 256"
    using zdiv_zmult2_eq [of 256 k 256] zdiv_zmult2_eq [of 256 k 65536] by simp_all
  show ?thesis
    using div_mult_mod_eq [of k 16777216] div_mult_mod_eq [of k 256] div_mult_mod_eq [of "k div 256" 256]
      div_mult_mod_eq [of "k div 65536" 256] unfolding d by linarith
qed

lemma is_lit_colour [simp]: "is_lit st \<longleftrightarrow> has_colour st"
proof -
  have "0 \<le> channel l st" for l by (cases l) simp_all
  from this [of Red] this [of Green] this [of Blue]
  have "65536 * channel Red st + 256 * channel Green st + channel Blue st \<noteq> 0 \<longleftrightarrow> has_colour st"
    unfolding has_colour_def leds_def by (simp del: channel.simps) linarith
  moreover have "uint (color st AND 0x00ffffff) = 65536 * channel Red st + 256 * channel Green st + channel Blue st"
    using three_bytes [of "uint (color st)"] by (simp add: uint_and and_rgb take_bit_eq_mod)
  moreover have "color st AND 0x00ffffff = 0 \<longleftrightarrow> uint (color st AND 0x00ffffff) = 0" by (rule uint_0_iff [symmetric])
  ultimately show ?thesis unfolding is_lit_def by simp
qed

lemma channel_range: "0 \<le> channel l st" "channel l st < 256"
  by (cases l; simp)+

lemma length_dec_channel: "length (dec_int (channel l st)) < 19"
  using length_dec_int [of "channel l st"] channel_range [of l st] by simp

lemma rgb_to_brightness_luminance: "rgb_to_brightness st = luminance st"
  by (simp add: rgb_to_brightness_def luminance_def uint_and and_byte and_rgb channel_bits
      drop_bit_take_bit drop_bit_eq_div [of 8 "_ + _"] del: channel.simps)

lemma luminance_range: "0 \<le> luminance st" "luminance st < 256"
  using channel_range [of Red st] channel_range [of Green st] channel_range [of Blue st]
  by (simp_all add: luminance_def del: channel.simps)

lemma div_256_2: "(k :: int) div 256 div 2 = k div 512"
  using zdiv_zmult2_eq [of 2 k 256] by simp

lemma luminance_half: "luminance st sdiv 2 = luminance st div 2"
  using luminance_range(1) [of st] by (cases "luminance st = 0") (simp_all add: signed_divide_int_def sgn_if)

lemma luminance_half_range: "0 \<le> luminance st div 2" "luminance st div 2 < 128"
  using luminance_range [of st] by presburger+

subsection \<open>Blocks of writes\<close>

lemma ok_bindI: "ok m P \<Longrightarrow> (\<And>x. P x \<Longrightarrow> ok (f x) Q) \<Longrightarrow> ok (Option.bind m f) Q"
  by (auto elim: ok_mono)

lemma length_dec_sint_less: "length (dec_int (sint (w :: u32))) < 19"
  using length_dec_sint [of w] by simp

lemmas text_fits = length_dec_channel length_dec_sint_less

text \<open>A locked block, seen from outside. \<open>f\<close> is what the block does to the light states.\<close>

lemma did_calls:
  "did Unlocked Locked env s (snd (sys env Lock s)) []"
  "did Locked Unlocked env s (snd (sys env Unlock s)) []"
  "did ph ph env s (snd (sys env Alog s)) []"
  by (auto simp: did_def sys_simps)

lemma did_from: "trace s1 = trace s0 \<Longrightarrow> did ph ph' env s1 s2 ws \<Longrightarrow> did ph ph' env s0 s2 ws"
  by (simp add: did_def)

lemma did_locked:
  assumes "wrote env (f (snd (sys env Lock s))) s2 ws" and "\<And>s. trace (f s) = trace s"
  shows "did Unlocked Unlocked env s (snd (sys env Unlock s2)) ws"
proof -
  have "did Locked Locked env (snd (sys env Lock s)) s2 ws"
    using assms by (auto simp: wrote_def intro: did_from)
  from did_trans [OF did_trans [OF did_calls(1) this] did_calls(2)] show ?thesis by simp
qed

lemma did_logged:
  "did Unlocked Unlocked env (snd (sys env Alog s)) s2 ws \<Longrightarrow> did Unlocked Unlocked env s s2 ws"
  using did_trans [OF did_calls(3)] by fastforce

lemma sys_keeps: "keeps s (snd (sys env c s))"
  by (simp add: keeps_def sys_simps)

lemma locked_block:
  assumes "\<And>s. trace (f s) = trace s"
    and "ok (H (f (snd (sys env Lock s)))) (\<lambda>s2. wrote env (f (snd (sys env Lock s))) s2 ws)"
  shows "ok (H (f (snd (sys env Lock s))) \<bind> (\<lambda>s2. Some (snd (sys env Unlock s2))))
    (\<lambda>s3. did Unlocked Unlocked env s s3 ws \<and> keeps (f (snd (sys env Lock s))) s3)"
  using assms(2)
  by (auto elim!: ok_mono intro: did_locked [where f = f, OF _ assms(1)]
      simp: wrote_def intro: keeps_trans [OF _ sys_keeps])

lemma map_option_bind_Some: "map_option g (Option.bind m (\<lambda>x. Some (f x))) = Option.bind m (\<lambda>x. Some (g (f x)))"
  by (cases m) simp_all

lemma did_writes:
  "did Unlocked Unlocked env s s' ws \<Longrightarrow> trace s = [] \<Longrightarrow> works env \<Longrightarrow> writes None (trace s') = ws"
  by (auto simp: did_def dest: spec [of _ "[]"])

text \<open>The brightness and the trigger of a led that shows \<open>st\<close>.\<close>

definition shows_light :: "(string \<Rightarrow> string option) \<Rightarrow> led_paths \<Rightarrow> u32 \<Rightarrow> light_state \<Rightarrow> bool" where
  "shows_light att F steady st \<longleftrightarrow> (\<forall>l.
     att (F l Brightness) = Some (dec_int (channel l st) @ newline) \<and>
     att (F l Trigger) = Some ((if flashMode st \<noteq> steady then ''timer'' else ''none'') @ newline) \<and>
     (flashMode st \<noteq> steady \<longrightarrow>
        att (F l Delay_on) = Some (dec_int (sint (flashOnMS st)) @ newline) \<and>
        att (F l Delay_off) = Some (dec_int (sint (flashOffMS st)) @ newline)))"

subsection \<open>The contract of a module\<close>

definition lights_of :: "'a lights_scheme \<Rightarrow> light_state \<times> light_state" where
  "lights_of s = (g_notification s, g_battery s)"

text \<open>What a call writes: \<open>other op\<close> are the texts of a call that leaves the three leds alone,
  \<open>upd op\<close> is what a call does to the two light states.\<close>

definition op_writes ::
  "led_paths \<Rightarrow> u32 \<Rightarrow> ('op \<Rightarrow> light_state \<times> light_state \<Rightarrow> light_state \<times> light_state) \<Rightarrow>
     ('op \<Rightarrow> (string \<times> string) list option) \<Rightarrow> 'op \<Rightarrow> light_state \<times> light_state \<Rightarrow> (string \<times> string) list" where
  "op_writes F steady upd other op nb =
     (case other op of Some ws \<Rightarrow> ws | None \<Rightarrow> shared_writes F steady (shown (upd op nb)))"

primrec run_writes ::
  "led_paths \<Rightarrow> u32 \<Rightarrow> ('op \<Rightarrow> light_state \<times> light_state \<Rightarrow> light_state \<times> light_state) \<Rightarrow>
     ('op \<Rightarrow> (string \<times> string) list option) \<Rightarrow> 'op list \<Rightarrow> light_state \<times> light_state \<Rightarrow> (string \<times> string) list" where
  "run_writes F steady upd other [] nb = []"
| "run_writes F steady upd other (op # ops) nb =
     op_writes F steady upd other op nb @ run_writes F steady upd other ops (upd op nb)"

lemma run_writes_append:
  "run_writes F c upd other (xs @ ys) nb =
     run_writes F c upd other xs nb @ run_writes F c upd other ys (fold upd xs nb)"
  by (induction xs arbitrary: nb) simp_all

locale light_module =
  fixes F :: led_paths
    and steady :: u32
    and step :: "env \<Rightarrow> 'op \<Rightarrow> 's lights_scheme \<Rightarrow> 's lights_scheme option"
    and upd :: "'op \<Rightarrow> light_state \<times> light_state \<Rightarrow> light_state \<times> light_state"
    and other :: "'op \<Rightarrow> (string \<times> string) list option"
  assumes step_did: "ok (step env op s) (\<lambda>s'.
        did Unlocked Unlocked env s s' (op_writes F steady upd other op (lights_of s)) \<and>
        lights_of s' = upd op (lights_of s))"
    and other_upd: "other op = Some ws \<Longrightarrow> upd op nb = nb"
    and other_paths: "other op = Some ws \<Longrightarrow> (F l a, t) \<notin> set ws"
    and paths_inj: "F l a = F l' a' \<Longrightarrow> l = l' \<and> a = a'"
begin

lemma run_did:
  "ok (run_all (step env) ops s) (\<lambda>s'.
     did Unlocked Unlocked env s s' (run_writes F steady upd other ops (lights_of s)) \<and>
     lights_of s' = fold upd ops (lights_of s))"
proof (induction ops arbitrary: s)
  case (Cons op ops)
  show ?case
    unfolding run_all.simps
  proof (rule ok_bindI [OF step_did], goal_cases)
    case (1 s1)
    then show ?case
      using Cons.IH [of s1] by (auto elim!: ok_mono dest: did_trans)
  qed
qed simp

lemma paths_eq: "F l a = F l' a' \<longleftrightarrow> l = l' \<and> a = a'"
  using paths_inj by blast

lemma shared_writes_shown: "shows_light (map_of (rev (ws @ shared_writes F steady st))) F steady st"
  unfolding shows_light_def
proof (rule allI)
  show "map_of (rev (ws @ shared_writes F steady st)) (F l Brightness) = Some (dec_int (channel l st) @ newline) \<and>
     map_of (rev (ws @ shared_writes F steady st)) (F l Trigger) =
       Some ((if flashMode st \<noteq> steady then ''timer'' else ''none'') @ newline) \<and>
     (flashMode st \<noteq> steady \<longrightarrow>
        map_of (rev (ws @ shared_writes F steady st)) (F l Delay_on) = Some (dec_int (sint (flashOnMS st)) @ newline) \<and>
        map_of (rev (ws @ shared_writes F steady st)) (F l Delay_off) = Some (dec_int (sint (flashOffMS st)) @ newline))" for l
    by (cases l; cases "flashMode st = steady") (simp_all add: shared_writes_def blink_writes_def leds_def paths_eq)
qed

lemma other_keeps:
  assumes "other op = Some vs" and "shows_light (map_of (rev ws)) F steady st"
  shows "shows_light (map_of (rev (ws @ vs))) F steady st"
proof -
  have "map_of (rev vs) (F l a) = None" for l a
    using other_paths [OF assms(1), of l a] by (force simp: map_of_eq_None_iff)
  then show ?thesis
    using assms(2) by (simp add: shows_light_def map_add_def)
qed

lemma run_writes_shown:
  "\<exists>op\<in>set ops. other op = None \<Longrightarrow>
     shows_light (map_of (rev (run_writes F steady upd other ops nb))) F steady (shown (fold upd ops nb))"
proof (induction ops rule: rev_induct)
  case (snoc op ops)
  show ?case
  proof (cases "other op")
    case None
    then show ?thesis by (simp only: run_writes_append op_writes_def run_writes.simps fold_append fold.simps
        o_apply append_Nil2 option.case shared_writes_shown id_apply)
  next
    case (Some ws)
    then have "\<exists>op\<in>set ops. other op = None" using snoc.prems by auto
    from other_keeps [OF Some snoc.IH [OF this]] show ?thesis
      by (simp only: run_writes_append op_writes_def run_writes.simps fold_append fold.simps
        o_apply append_Nil2 option.case id_apply other_upd [OF Some] Some)
  qed
qed simp

lemma priority:
  assumes "works env" and "trace s = []" and "\<exists>op\<in>set ops. other op = None"
  shows "\<exists>s'. run_all (step env) ops s = Some s' \<and>
    shows_light (attribute (trace s')) F steady (shown (fold upd ops (lights_of s)))"
proof -
  obtain s' where s': "run_all (step env) ops s = Some s'"
      "did Unlocked Unlocked env s s' (run_writes F steady upd other ops (lights_of s))"
    using run_did [of env ops s] by (auto simp: ok_def)
  with did_writes [OF s'(2) assms(2,1)] run_writes_shown [OF assms(3)] show ?thesis
    by (simp add: attribute_def)
qed

lemma discipline:
  "trace s = [] \<Longrightarrow> \<exists>s'. run_all (step env) ops s = Some s' \<and> run_all disc (trace s') Unlocked = Some Unlocked"
  using run_did [of env ops s] by (auto simp: ok_def did_def)

lemma written:
  "works env \<Longrightarrow> trace s = [] \<Longrightarrow> \<exists>s'. run_all (step env) ops s = Some s' \<and>
     writes None (trace s') = run_writes F steady upd other ops (lights_of s)"
  using run_did [of env ops s] by (auto simp: ok_def dest: did_writes)

end

end
