(* ===== verification/Lights_Spec.thy ===== *)
theory Lights_Spec
  imports Lights_Trace
begin

text \<open>
  \<open>lights.c\<close> meets the contract \<open>light_module\<close>; its properties follow from the interpretation.
\<close>

subsection \<open>The specification\<close>

fun lights_paths :: led_paths where
  "lights_paths Red Brightness = RED_LED_FILE"
| "lights_paths Green Brightness = GREEN_LED_FILE"
| "lights_paths Blue Brightness = BLUE_LED_FILE"
| "lights_paths Red Trigger = RED_LED_FILE_TRIGGER"
| "lights_paths Green Trigger = GREEN_LED_FILE_TRIGGER"
| "lights_paths Blue Trigger = BLUE_LED_FILE_TRIGGER"
| "lights_paths Red Delay_on = RED_LED_FILE_DELAYON"
| "lights_paths Green Delay_on = GREEN_LED_FILE_DELAYON"
| "lights_paths Blue Delay_on = BLUE_LED_FILE_DELAYON"
| "lights_paths Red Delay_off = RED_LED_FILE_DELAYOFF"
| "lights_paths Green Delay_off = GREEN_LED_FILE_DELAYOFF"
| "lights_paths Blue Delay_off = BLUE_LED_FILE_DELAYOFF"

fun lights_upd :: "set_light_fn \<times> light_state \<Rightarrow> light_state \<times> light_state \<Rightarrow> light_state \<times> light_state" where
  "lights_upd (Fn_backlight, st) nb = nb"
| "lights_upd (Fn_battery, st) (n, b) = (n, st)"
| "lights_upd (Fn_notifications, st) (n, b) = (st, b)"

fun lights_other :: "set_light_fn \<times> light_state \<Rightarrow> (string \<times> string) list option" where
  "lights_other (Fn_backlight, st) = Some [(LCD_BACKLIGHT_FILE, dec_int (luminance st div 2) @ newline)]"
| "lights_other _ = None"

subsection \<open>The operations\<close>

lemma set_shared_light_locked_wrote:
  "ok (set_shared_light_locked h env st s)
     (\<lambda>s'. wrote env s s' (shared_writes lights_paths (LIGHT_FLASH_NONE h) st))"
  unfolding set_shared_light_locked_def Let_def channel_words
  apply (rule ok_bindI [where P = "\<lambda>s'. wrote env s s' (blink_writes lights_paths (LIGHT_FLASH_NONE h) st)"])
  subgoal
    unfolding blink_writes_def
    apply (split if_split, intro conjI impI; simp only: if_True if_False simp_thms)
    subgoal
      by (rule write_string_step [OF wrote_refl], simp, simp only: split append.simps,
          (erule write_string_step write_int_step, simp add: text_fits, simp only: split append.simps)+,
          simp add: leds_def)
    subgoal
      by (rule write_string_step [OF wrote_refl], simp, simp only: split append.simps,
          (erule write_string_step write_int_step, simp add: text_fits, simp only: split append.simps)+,
          simp add: leds_def)
    done
  subgoal
    by (erule write_int_step, rule text_fits, simp only: split,
        (erule write_int_step, rule text_fits, simp only: split)+, simp add: shared_writes_def leds_def)
  done

lemma handle_shared_battery_locked_wrote:
  "ok (handle_shared_battery_locked h env s)
     (\<lambda>s'. wrote env s s' (shared_writes lights_paths (LIGHT_FLASH_NONE h) (shown (g_notification s, g_battery s))))"
  using set_shared_light_locked_wrote by (auto simp: handle_shared_battery_locked_def shown_def)

lemma set_light_did:
  fixes s :: "'a lights_scheme"
  shows "ok (set_light h env op s) (\<lambda>s'.
     did Unlocked Unlocked env s s' (op_writes lights_paths (LIGHT_FLASH_NONE h) lights_upd lights_other op (lights_of s)) \<and>
     lights_of s' = lights_upd op (lights_of s))"
proof -
  obtain fn st where op: "op = (fn, st)" by fastforce
  let ?s = "snd (sys env Alog s)"
  have same: "g_notification (snd (sys env Lock ?s)) = g_notification s" "g_battery (snd (sys env Lock ?s)) = g_battery s"
    by (simp_all add: sys_simps)
  show ?thesis
  proof (cases fn)
    case Fn_backlight
    have "length (dec_int (luminance st div 2)) < 19"
      using length_dec_int [of "luminance st div 2"] luminance_half_range [of st] by simp
    note w = write_int_wrote [OF this, of env LCD_BACKLIGHT_FILE "snd (sys env Lock ?s)"]
    show ?thesis
      unfolding op Fn_backlight set_light.simps set_light_backlight_def Let_def rgb_to_brightness_luminance
        luminance_half split_beta map_option_bind_Some
    proof (rule ok_bindI [OF w], goal_cases)
      case (1 x)
      then have w: "wrote env (snd (sys env Lock ?s)) (snd x)
          [(LCD_BACKLIGHT_FILE, dec_int (luminance st div 2) @ newline)]" by (simp add: split_beta)
      then have "keeps (snd (sys env Lock ?s)) (snd x)" by (simp add: wrote_def)
      then have "keeps (snd (sys env Lock ?s)) (snd (sys env Unlock (snd x)))"
        by (rule keeps_trans) (rule sys_keeps)
      then show ?case
        using did_logged [OF did_locked [where f = "\<lambda>s. s", OF w refl]]
        by (simp add: op_writes_def lights_of_def keeps_def same)
    qed
  next
    case Fn_battery
    show ?thesis
      using locked_block [where f = "\<lambda>s. s\<lparr>g_battery := st\<rparr>" and H = "handle_shared_battery_locked h env",
            OF _ handle_shared_battery_locked_wrote, of ?s]
      by (auto simp: op Fn_battery set_light_battery_def Let_def map_option_bind_Some op_writes_def lights_of_def keeps_def same
          elim!: ok_mono dest: did_logged)
  next
    case Fn_notifications
    show ?thesis
      using locked_block [where f = "\<lambda>s. s\<lparr>g_notification := st\<rparr>" and H = "handle_shared_battery_locked h env",
            OF _ handle_shared_battery_locked_wrote, of ?s]
      by (auto simp: op Fn_notifications set_light_notifications_def Let_def map_option_bind_Some op_writes_def lights_of_def keeps_def same
          elim!: ok_mono dest: did_logged)
  qed
qed

interpretation lights: light_module lights_paths "LIGHT_FLASH_NONE h" "set_light h" lights_upd lights_other
  for h :: lights_h
proof (unfold_locales, goal_cases)
  case (1 env op s)
  show ?case by (rule set_light_did)
next
  case (2 op ws nb)
  then show ?case by (cases op rule: lights_other.cases) auto
next
  case (3 op ws l a t)
  have "lights_paths l a \<noteq> LCD_BACKLIGHT_FILE"
    by (cases l; cases a) (simp_all add: led_files)
  with 3 show ?case by (cases op rule: lights_other.cases) auto
next
  case (4 l a l' a')
  then show ?case by (cases l; cases a; cases l'; cases a') (simp_all add: led_files)
qed

subsection \<open>An environment for the examples\<close>

definition good_env :: env where
  "good_env tr c = (case c of Sys_open _ \<Rightarrow> (3, 0) | Sys_write _ t \<Rightarrow> (int (length t), 0)
     | Dev_malloc \<Rightarrow> (4096, 0) | _ \<Rightarrow> (0, 0))"

lemma good_env_works: "works good_env"
  by (simp add: works_def good_env_def)

definition example_h :: lights_h where
  "example_h = \<lparr>LIGHT_FLASH_NONE = 0, BRIGHTNESS_MODE_USER = 0, BRIGHTNESS_MODE_SENSOR = 1,
     LIGHT_ID_BACKLIGHT = ''backlight'', LIGHT_ID_BUTTONS = ''buttons'', LIGHT_ID_BATTERY = ''battery'',
     LIGHT_ID_NOTIFICATIONS = ''notifications'', HARDWARE_DEVICE_TAG = 0x48574454, EINVAL = 22\<rparr>"

definition dark :: light_state where
  "dark = \<lparr>color = 0, flashMode = 0, flashOnMS = 0, flashOffMS = 0, brightnessMode = 0\<rparr>"

definition example_lights :: lights where
  "example_lights = \<lparr>trace = [], errno = 0, write_int_warned = False, write_string_warned = False,
     g_init = False, g_notification = dark, g_battery = dark\<rparr>"

text \<open>A steady red battery light, then a green notification that blinks, then it is cleared.\<close>

definition example_calls :: "(set_light_fn \<times> light_state) list" where
  "example_calls = [(Fn_battery, dark\<lparr>color := 0xFFFF0000\<rparr>),
     (Fn_notifications, \<lparr>color = 0xFF00FF00, flashMode = 1, flashOnMS = 500, flashOffMS = 2000, brightnessMode = 0\<rparr>),
     (Fn_notifications, dark)]"

subsection \<open>Properties\<close>

text \<open>C22: the notification light has priority over the battery light: when every file opens and takes
  what is written to it, after any sequence of calls in which one of the two was set, the three leds
  show the last notification if one of its colour channels is not 0 and the last battery state
  otherwise, with its colour, its blinking and its delays.\<close>
theorem lights_show_priority:
  assumes "works env" and "trace s = []" and "\<exists>op\<in>set ops. lights_other op = None"
  shows "\<exists>s'. run_all (set_light h env) ops s = Some s' \<and>
    shows_light (attribute (trace s')) lights_paths (LIGHT_FLASH_NONE h)
      (shown (fold lights_upd ops (lights_of s)))"
  using assms by (rule lights.priority)

theorem lights_show_priority_witness:
  "\<exists>s'. run_all (set_light example_h good_env) (take 2 example_calls) example_lights = Some s' \<and>
     attribute (trace s') GREEN_LED_FILE = Some (''255'' @ newline) \<and>
     attribute (trace s') RED_LED_FILE = Some (''0'' @ newline) \<and>
     attribute (trace s') BLUE_LED_FILE_TRIGGER = Some (''timer'' @ newline)"
proof -
  have "shown (fold lights_upd (take 2 example_calls) (dark, dark)) = snd (example_calls ! 1)"
    by code_simp
  moreover have "channel Green (snd (example_calls ! 1)) = 255" "channel Red (snd (example_calls ! 1)) = 0"
      "flashMode (snd (example_calls ! 1)) = 1" "dec_int 255 = ''255''" "dec_int 0 = ''0''"
    by code_simp+
  moreover have "\<exists>op\<in>set (take 2 example_calls). lights_other op = None"
    by (simp add: example_calls_def)
  ultimately show ?thesis
    using lights_show_priority [OF good_env_works, of example_lights "take 2 example_calls" example_h]
    by (fastforce simp: example_lights_def example_h_def shows_light_def lights_of_def dest: spec [of _ Green] spec [of _ Red] spec [of _ Blue])
qed

text \<open>C27: whatever the system answers, every call of the module returns, and its trace keeps to
  the discipline: files are opened, written and closed only while the lock is held, every
  descriptor that was opened is closed before the next open and before the lock is released,
  nothing is written to a descriptor that is not open, and the lock is free at the end.\<close>
theorem lights_lock_and_descriptors:
  assumes "trace s = []"
  shows "\<exists>s'. run_all (set_light h env) ops s = Some s' \<and> run_all disc (trace s') Unlocked = Some Unlocked"
  using assms by (rule lights.discipline)

text \<open>The module meets an environment in which no file can be opened.\<close>

theorem lights_lock_and_descriptors_witness:
  "\<exists>s'. run_all (set_light example_h (\<lambda>tr c. (case c of Sys_open _ \<Rightarrow> -1 | _ \<Rightarrow> 0, 13))) example_calls example_lights = Some s' \<and>
     run_all disc (trace s') Unlocked = Some Unlocked"
  by (rule lights_lock_and_descriptors) (simp add: example_lights_def)

text \<open>The backlight file gets one number, between 0 and 127: half the weighted brightness
  of the colour, 0 for black and 127 for white; the number is printed without loss.\<close>
theorem backlight_range:
  assumes "works env" and "trace s = []"
  shows "\<exists>s' v. set_light_backlight env st s = Some (0, s') \<and>
    writes None (trace s') = [(LCD_BACKLIGHT_FILE, dec_int v @ newline)] \<and> 0 \<le> v \<and> v \<le> 127 \<and>
    v = (77 * channel Red st + 150 * channel Green st + 29 * channel Blue st) div 512 \<and>
    read_dec (dec_int v) = v"
proof -
  obtain r s' where s': "set_light_backlight env st s = Some (r, s')"
      "did Unlocked Unlocked env s s' [(LCD_BACKLIGHT_FILE, dec_int (luminance st div 2) @ newline)]"
    using set_light_did [of example_h env "(Fn_backlight, st)" s] by (auto simp: ok_def op_writes_def)
  moreover from s'(1) have "r = 0" by (auto simp: set_light_backlight_def Let_def split: Option.bind_splits)
  moreover have "luminance st div 2 = (77 * channel Red st + 150 * channel Green st + 29 * channel Blue st) div 512"
    unfolding luminance_def by (rule div_256_2)
  moreover note did_writes [OF s'(2) assms(2,1)] luminance_half_range [of st] read_dec_int [of "luminance st div 2"]
  ultimately show ?thesis
    by (intro exI [of _ s'] exI [of _ "luminance st div 2"] conjI) (simp_all del: channel.simps)
qed

theorem backlight_range_witness:
  "\<exists>s' v. set_light_backlight good_env (dark\<lparr>color := 0xFFFFFFFF\<rparr>) example_lights = Some (0, s') \<and>
     writes None (trace s') = [(LCD_BACKLIGHT_FILE, dec_int v @ newline)] \<and> v = 127"
  using backlight_range [OF good_env_works, of example_lights "dark\<lparr>color := 0xFFFFFFFF\<rparr>"]
  by (auto simp: example_lights_def)

text \<open>The function a name stands for.\<close>

definition light_named :: "lights_h \<Rightarrow> string \<Rightarrow> set_light_fn option" where
  "light_named h name = map_of [(LIGHT_ID_BACKLIGHT h, Fn_backlight), (LIGHT_ID_BATTERY h, Fn_battery),
     (LIGHT_ID_NOTIFICATIONS h, Fn_notifications)] name"

lemma open_lights_cases:
  "open_lights h env module name s =
     (case light_named h name of
        None \<Rightarrow> Some (- EINVAL h, None, s)
      | Some fn \<Rightarrow>
          let (dev, s') = sys env Dev_malloc (run_once env s) in
          if dev = 0 then None
          else Some (0, Some \<lparr>dev_at = word_of_int dev, dev_tag = HARDWARE_DEVICE_TAG h, dev_version = 0,
                 dev_module = module, dev_set_light = fn\<rparr>, s'))"
  by (auto simp: open_lights_def light_named_def Let_def split: option.splits)

definition mutex_inits :: "event list \<Rightarrow> nat" where
  "mutex_inits tr = length (filter (\<lambda>e. fst e = Mutex_init) tr)"

text \<open>Opening a light by a name the module knows gives a device with the function of that
  name; the lock is initialised by the first open and by no later one; closing the device
  gives exactly its block back. An unknown name is refused without any effect.\<close>
theorem open_close_lights:
  assumes "fst (sys env Dev_malloc (run_once env s)) = uint dev" and "dev \<noteq> NULL"
    and "mutex_inits (trace s) = (if g_init s then 1 else 0)"
  shows "case light_named h name of
      None \<Rightarrow> open_lights h env module name s = Some (- EINVAL h, None, s)
    | Some fn \<Rightarrow> \<exists>d s'. open_lights h env module name s = Some (0, Some d, s') \<and>
        dev_at d = dev \<and> dev_set_light d = fn \<and> dev_module d = module \<and>
        g_init s' \<and> mutex_inits (trace s') = 1 \<and>
        (\<exists>r s''. close_lights env (dev_at d) s' = (0, s'') \<and> trace s'' = trace s' @ [(Dev_free dev, r)])"
proof (cases "light_named h name")
  case None
  then show ?thesis by (simp add: open_lights_cases)
next
  case (Some fn)
  moreover have "uint dev \<noteq> 0"
    using assms(2) by (simp_all add: uint_0_iff)
  ultimately show ?thesis
    using assms by (auto simp: open_lights_cases close_lights_def run_once_def init_globals_def sys_simps mutex_inits_def)
qed

theorem open_close_lights_witness:
  "\<exists>d s'. open_lights example_h good_env 7 ''battery'' example_lights = Some (0, Some d, s') \<and>
     dev_at d = 4096 \<and> dev_set_light d = Fn_battery \<and> mutex_inits (trace s') = 1"
proof -
  have "light_named example_h ''battery'' = Some Fn_battery"
    by (simp add: light_named_def example_h_def)
  moreover have "fst (sys good_env Dev_malloc (run_once good_env example_lights)) = uint (4096 :: addr)"
    "mutex_inits (trace example_lights) = (if g_init example_lights then 1 else 0)"
    by code_simp+
  ultimately show ?thesis
    using open_close_lights [where env = good_env and s = example_lights and dev = 4096 and h = example_h
        and name = "''battery''" and module = 7] by auto
qed

text \<open>The result of \<open>malloc\<close> is not checked: without memory \<open>open_lights\<close> clears a null pointer,
  for every light it knows.\<close>
lemma open_lights_null:
  assumes "light_named h name \<noteq> None" and "fst (sys env Dev_malloc (run_once env s)) = 0"
  shows "open_lights h env module name s = None"
  using assms by (auto simp: open_lights_cases split_beta)

lemma open_lights_null_example:
  "open_lights example_h (\<lambda>tr c. (0, 12)) 7 ''backlight'' example_lights = None"
  by (rule open_lights_null) (code_simp, code_simp)

end
