(* ===== verification/Lights_Sony.thy ===== *)
theory Lights_Sony
  imports Lights_Spec
begin

text \<open>
  \<open>bsp/ledDriver/lights_sony.c\<close> with its \<open>lights.h\<close>: the module \<open>lights.c\<close> was derived from. It
  has its own copy of the code on other files, drives an ambient light sensor beside the
  backlight and has a light for the buttons. Its static variables are those of \<open>lights.c\<close> and
  \<open>g_backlight\<close>. Its \<open>ALOGV\<close> lines are compiled out (the file does not define \<open>LOG_NDEBUG\<close> as 0).
\<close>

record sony_lights = lights +
  g_backlight :: int

subsection \<open>The attribute files\<close>

definition SONY_RED_LED_FILE :: string where "SONY_RED_LED_FILE = ''/sys/class/leds/red/brightness''"
definition SONY_GREEN_LED_FILE :: string where "SONY_GREEN_LED_FILE = ''/sys/class/leds/green/brightness''"
definition SONY_BLUE_LED_FILE :: string where "SONY_BLUE_LED_FILE = ''/sys/class/leds/blue/brightness''"
definition SONY_RED_LED_FILE_TRIGGER :: string where "SONY_RED_LED_FILE_TRIGGER = ''/sys/class/leds/red/trigger''"
definition SONY_GREEN_LED_FILE_TRIGGER :: string where "SONY_GREEN_LED_FILE_TRIGGER = ''/sys/class/leds/green/trigger''"
definition SONY_BLUE_LED_FILE_TRIGGER :: string where "SONY_BLUE_LED_FILE_TRIGGER = ''/sys/class/leds/blue/trigger''"
definition SONY_RED_LED_FILE_DELAYON :: string where "SONY_RED_LED_FILE_DELAYON = ''/sys/class/leds/red/delay_on''"
definition SONY_GREEN_LED_FILE_DELAYON :: string where "SONY_GREEN_LED_FILE_DELAYON = ''/sys/class/leds/green/delay_on''"
definition SONY_BLUE_LED_FILE_DELAYON :: string where "SONY_BLUE_LED_FILE_DELAYON = ''/sys/class/leds/blue/delay_on''"
definition SONY_RED_LED_FILE_DELAYOFF :: string where "SONY_RED_LED_FILE_DELAYOFF = ''/sys/class/leds/red/delay_off''"
definition SONY_GREEN_LED_FILE_DELAYOFF :: string where "SONY_GREEN_LED_FILE_DELAYOFF = ''/sys/class/leds/green/delay_off''"
definition SONY_BLUE_LED_FILE_DELAYOFF :: string where "SONY_BLUE_LED_FILE_DELAYOFF = ''/sys/class/leds/blue/delay_off''"
definition BUTTON_BACKLIGHT_FILE :: "string list" where
  "BUTTON_BACKLIGHT_FILE = [
     ''/sys/class/leds/button-backlight/brightness'',
     ''/sys/class/leds/button-backlight-rgb1/brightness'',
     ''/sys/class/leds/button-backlight-rgb2/brightness'',
     ''/sys/class/leds/keyboard-backlight/brightness'']"
definition SONY_LCD_BACKLIGHT_FILE :: string where "SONY_LCD_BACKLIGHT_FILE = ''/sys/class/leds/lcd-backlight/brightness''"
definition ALS_FILE :: string where "ALS_FILE = ''/sys/class/leds/lcd-backlight/als/enable''"

lemmas sony_led_files =
  SONY_RED_LED_FILE_def
  SONY_GREEN_LED_FILE_def
  SONY_BLUE_LED_FILE_def
  SONY_RED_LED_FILE_TRIGGER_def
  SONY_GREEN_LED_FILE_TRIGGER_def
  SONY_BLUE_LED_FILE_TRIGGER_def
  SONY_RED_LED_FILE_DELAYON_def
  SONY_GREEN_LED_FILE_DELAYON_def
  SONY_BLUE_LED_FILE_DELAYON_def
  SONY_RED_LED_FILE_DELAYOFF_def
  SONY_GREEN_LED_FILE_DELAYOFF_def
  SONY_BLUE_LED_FILE_DELAYOFF_def
  SONY_LCD_BACKLIGHT_FILE_def ALS_FILE_def BUTTON_BACKLIGHT_FILE_def

text \<open>\<open>enum { MANUAL = 0, AUTOMATIC, MANUAL_SENSOR }\<close>.\<close>

definition AUTOMATIC :: int where "AUTOMATIC = 1"
definition MANUAL_SENSOR :: int where "MANUAL_SENSOR = 2"

subsection \<open>The file's copies of the common functions\<close>

definition sony_write_int :: "env \<Rightarrow> string \<Rightarrow> int \<Rightarrow> 'a lights_scheme \<Rightarrow> (int \<times> 'a lights_scheme) option" where
  "sony_write_int env path value s =
     (let (fd, s) = sys env (Sys_open path) s in
      if fd < 0 then
        let s = (if write_int_warned s then s
                 else (snd (sys env Alog s))\<lparr>write_int_warned := True\<rparr>)
        in Some (- errno s, s)
      else do {
        out \<leftarrow> buffer_bytes (dec_int value @ [CHR 0x0A]);
        let (written, s) = sys env (Sys_write fd out) s;
        let s = snd (sys env (Sys_close fd) s);
        Some (if written = -1 then - errno s else 0, s)
      })"

definition sony_write_string :: "env \<Rightarrow> string \<Rightarrow> string \<Rightarrow> 'a lights_scheme \<Rightarrow> (int \<times> 'a lights_scheme) option" where
  "sony_write_string env path value s =
     (let (fd, s) = sys env (Sys_open path) s in
      if fd < 0 then
        let s = (if write_string_warned s then s
                 else (snd (sys env Alog s))\<lparr>write_string_warned := True\<rparr>)
        in Some (- errno s, s)
      else do {
        out \<leftarrow> buffer_bytes (value @ [CHR 0x0A]);
        let (written, s) = sys env (Sys_write fd out) s;
        let s = snd (sys env (Sys_close fd) s);
        Some (if written = -1 then - errno s else 0, s)
      })"

definition sony_is_lit :: "light_state \<Rightarrow> bool" where
  "sony_is_lit state \<longleftrightarrow> color state AND 0x00ffffff \<noteq> 0"

definition sony_rgb_to_brightness :: "light_state \<Rightarrow> int" where
  "sony_rgb_to_brightness state =
     (let c = uint (color state AND 0x00ffffff) in
      drop_bit 8 (77 * (drop_bit 16 c AND 0x00ff) + 150 * (drop_bit 8 c AND 0x00ff) + 29 * (c AND 0x00ff)))"

lemma sony_copies:
  "sony_write_int = write_int" "sony_write_string = write_string"
  "sony_is_lit = is_lit" "sony_rgb_to_brightness = rgb_to_brightness"
  by (simp_all add: fun_eq_iff sony_write_int_def write_int_def sony_write_string_def write_string_def
      sony_is_lit_def is_lit_def [symmetric] sony_rgb_to_brightness_def rgb_to_brightness_def)

subsection \<open>The lights\<close>

definition sony_set_light_backlight ::
  "lights_h \<Rightarrow> env \<Rightarrow> light_state \<Rightarrow> sony_lights \<Rightarrow> (int \<times> sony_lights) option" where
  "sony_set_light_backlight h env state s =
     (let brightness = sony_rgb_to_brightness state;
          als_mode = (if brightnessMode state = BRIGHTNESS_MODE_SENSOR h then AUTOMATIC
                      else if brightnessMode state = BRIGHTNESS_MODE_USER h then sint (BRIGHTNESS_MODE_USER h)
                      else MANUAL_SENSOR);
          s = snd (sys env Lock s);
          s = s\<lparr>g_backlight := brightness\<rparr>
      in do {
        (_, s) \<leftarrow> sony_write_int env ALS_FILE als_mode s;
        (_, s) \<leftarrow> sony_write_int env SONY_LCD_BACKLIGHT_FILE brightness s;
        Some (0, snd (sys env Unlock s))
      })"

definition sony_set_light_buttons ::
  "env \<Rightarrow> light_state \<Rightarrow> sony_lights \<Rightarrow> (int \<times> sony_lights) option" where
  "sony_set_light_buttons env state s =
     (let on = sony_is_lit state;
          s = snd (sys env Lock s)
      in do {
        s \<leftarrow> run_all (\<lambda>file s. map_option snd (sony_write_int env file (if on then 255 else 0) s))
               BUTTON_BACKLIGHT_FILE s;
        Some (0, snd (sys env Unlock s))
      })"

definition sony_set_shared_light_locked ::
  "lights_h \<Rightarrow> env \<Rightarrow> light_state \<Rightarrow> sony_lights \<Rightarrow> sony_lights option" where
  "sony_set_shared_light_locked h env state s =
     (let r = uint (drop_bit 16 (color state) AND 0xFF);
          g = uint (drop_bit 8 (color state) AND 0xFF);
          b = uint (color state AND 0xFF);
          delayOn = sint (flashOnMS state);
          delayOff = sint (flashOffMS state)
      in do {
        s \<leftarrow> (if flashMode state \<noteq> LIGHT_FLASH_NONE h then do {
            (_, s) \<leftarrow> sony_write_string env SONY_RED_LED_FILE_TRIGGER ''timer'' s;
            (_, s) \<leftarrow> sony_write_string env SONY_GREEN_LED_FILE_TRIGGER ''timer'' s;
            (_, s) \<leftarrow> sony_write_string env SONY_BLUE_LED_FILE_TRIGGER ''timer'' s;
            (_, s) \<leftarrow> sony_write_int env SONY_RED_LED_FILE_DELAYON delayOn s;
            (_, s) \<leftarrow> sony_write_int env SONY_GREEN_LED_FILE_DELAYON delayOn s;
            (_, s) \<leftarrow> sony_write_int env SONY_BLUE_LED_FILE_DELAYON delayOn s;
            (_, s) \<leftarrow> sony_write_int env SONY_RED_LED_FILE_DELAYOFF delayOff s;
            (_, s) \<leftarrow> sony_write_int env SONY_GREEN_LED_FILE_DELAYOFF delayOff s;
            (_, s) \<leftarrow> sony_write_int env SONY_BLUE_LED_FILE_DELAYOFF delayOff s;
            Some s
          } else do {
            (_, s) \<leftarrow> sony_write_string env SONY_RED_LED_FILE_TRIGGER ''none'' s;
            (_, s) \<leftarrow> sony_write_string env SONY_GREEN_LED_FILE_TRIGGER ''none'' s;
            (_, s) \<leftarrow> sony_write_string env SONY_BLUE_LED_FILE_TRIGGER ''none'' s;
            Some s
          });
        (_, s) \<leftarrow> sony_write_int env SONY_RED_LED_FILE r s;
        (_, s) \<leftarrow> sony_write_int env SONY_GREEN_LED_FILE g s;
        (_, s) \<leftarrow> sony_write_int env SONY_BLUE_LED_FILE b s;
        Some s
      })"

definition sony_handle_shared_battery_locked ::
  "lights_h \<Rightarrow> env \<Rightarrow> sony_lights \<Rightarrow> sony_lights option" where
  "sony_handle_shared_battery_locked h env s =
     (if sony_is_lit (g_notification s) then sony_set_shared_light_locked h env (g_notification s) s
      else sony_set_shared_light_locked h env (g_battery s) s)"

definition sony_set_light_battery ::
  "lights_h \<Rightarrow> env \<Rightarrow> light_state \<Rightarrow> sony_lights \<Rightarrow> (int \<times> sony_lights) option" where
  "sony_set_light_battery h env state s =
     (let s = snd (sys env Lock s);
          s = s\<lparr>g_battery := state\<rparr>
      in do {
        s \<leftarrow> sony_handle_shared_battery_locked h env s;
        Some (0, snd (sys env Unlock s))
      })"

definition sony_set_light_notifications ::
  "lights_h \<Rightarrow> env \<Rightarrow> light_state \<Rightarrow> sony_lights \<Rightarrow> (int \<times> sony_lights) option" where
  "sony_set_light_notifications h env state s =
     (let s = snd (sys env Lock s);
          s = s\<lparr>g_notification := state\<rparr>
      in do {
        s \<leftarrow> sony_handle_shared_battery_locked h env s;
        Some (0, snd (sys env Unlock s))
      })"

subsection \<open>The device\<close>

datatype sony_light_fn = Sony_backlight | Sony_buttons | Sony_battery | Sony_notifications

record sony_device =
  sony_at :: addr
  sony_tag :: u32
  sony_version :: u32
  sony_module :: addr
  sony_set_light_ptr :: sony_light_fn

definition sony_close_lights :: "env \<Rightarrow> addr \<Rightarrow> sony_lights \<Rightarrow> int \<times> sony_lights" where
  "sony_close_lights env dev s = (0, if dev \<noteq> NULL then snd (sys env (Dev_free dev) s) else s)"

definition sony_open_lights ::
  "lights_h \<Rightarrow> env \<Rightarrow> addr \<Rightarrow> string \<Rightarrow> sony_lights \<Rightarrow>
     (int \<times> sony_device option \<times> sony_lights) option" where
  "sony_open_lights h env module name s =
     (case (if LIGHT_ID_BACKLIGHT h = name then Some Sony_backlight
            else if LIGHT_ID_BUTTONS h = name then Some Sony_buttons
            else if LIGHT_ID_BATTERY h = name then Some Sony_battery
            else if LIGHT_ID_NOTIFICATIONS h = name then Some Sony_notifications
            else None) of
        None \<Rightarrow> Some (- EINVAL h, None, s)
      | Some fn \<Rightarrow>
          let s = (if g_init s then s else (snd (sys env Mutex_init s))\<lparr>g_init := True\<rparr>);
              (dev, s) = sys env Dev_malloc s
          in
          if dev = 0 then None
          else Some (0, Some \<lparr>sony_at = word_of_int dev, sony_tag = HARDWARE_DEVICE_TAG h, sony_version = 0,
                 sony_module = module, sony_set_light_ptr = fn\<rparr>, s))"

text \<open>The call \<open>dev->set_light(dev, state)\<close>.\<close>

fun sony_set_light :: "lights_h \<Rightarrow> env \<Rightarrow> sony_light_fn \<times> light_state \<Rightarrow> sony_lights \<Rightarrow> sony_lights option" where
  "sony_set_light h env (Sony_backlight, st) s = map_option snd (sony_set_light_backlight h env st s)"
| "sony_set_light h env (Sony_buttons, st) s = map_option snd (sony_set_light_buttons env st s)"
| "sony_set_light h env (Sony_battery, st) s = map_option snd (sony_set_light_battery h env st s)"
| "sony_set_light h env (Sony_notifications, st) s = map_option snd (sony_set_light_notifications h env st s)"

end
