(* ===== verification/Lights_Sony_Spec.thy ===== *)
theory Lights_Sony_Spec
  imports Lights_Sony Lights_Spec
begin

text \<open>
  \<open>lights_sony.c\<close> meets the contract \<open>light_module\<close> as well, on its own files; on the calls both
  modules have it writes what \<open>lights.c\<close> writes, file by file.
\<close>

subsection \<open>The specification\<close>

fun sony_paths :: led_paths where
  "sony_paths Red Brightness = SONY_RED_LED_FILE"
| "sony_paths Green Brightness = SONY_GREEN_LED_FILE"
| "sony_paths Blue Brightness = SONY_BLUE_LED_FILE"
| "sony_paths Red Trigger = SONY_RED_LED_FILE_TRIGGER"
| "sony_paths Green Trigger = SONY_GREEN_LED_FILE_TRIGGER"
| "sony_paths Blue Trigger = SONY_BLUE_LED_FILE_TRIGGER"
| "sony_paths Red Delay_on = SONY_RED_LED_FILE_DELAYON"
| "sony_paths Green Delay_on = SONY_GREEN_LED_FILE_DELAYON"
| "sony_paths Blue Delay_on = SONY_BLUE_LED_FILE_DELAYON"
| "sony_paths Red Delay_off = SONY_RED_LED_FILE_DELAYOFF"
| "sony_paths Green Delay_off = SONY_GREEN_LED_FILE_DELAYOFF"
| "sony_paths Blue Delay_off = SONY_BLUE_LED_FILE_DELAYOFF"

fun sony_upd :: "sony_light_fn \<times> light_state \<Rightarrow> light_state \<times> light_state \<Rightarrow> light_state \<times> light_state" where
  "sony_upd (Sony_backlight, st) nb = nb"
| "sony_upd (Sony_buttons, st) nb = nb"
| "sony_upd (Sony_battery, st) (n, b) = (n, st)"
| "sony_upd (Sony_notifications, st) (n, b) = (st, b)"

text \<open>The mode of the light sensor: automatic, manual, or manual with the sensor on.\<close>

definition als_mode :: "lights_h \<Rightarrow> light_state \<Rightarrow> int" where
  "als_mode h st =
     (if brightnessMode st = BRIGHTNESS_MODE_SENSOR h then 1
      else if brightnessMode st = BRIGHTNESS_MODE_USER h then sint (BRIGHTNESS_MODE_USER h) else 2)"

fun sony_other :: "lights_h \<Rightarrow> sony_light_fn \<times> light_state \<Rightarrow> (string \<times> string) list option" where
  "sony_other h (Sony_backlight, st) =
     Some [(ALS_FILE, dec_int (als_mode h st) @ newline), (SONY_LCD_BACKLIGHT_FILE, dec_int (luminance st) @ newline)]"
| "sony_other h (Sony_buttons, st) =
     Some (map (\<lambda>file. (file, dec_int (if has_colour st then 255 else 0) @ newline)) BUTTON_BACKLIGHT_FILE)"
| "sony_other h _ = None"

subsection \<open>The operations\<close>

lemma sony_set_shared_light_locked_wrote:
  "ok (sony_set_shared_light_locked h env st s)
     (\<lambda>s'. wrote env s s' (shared_writes sony_paths (LIGHT_FLASH_NONE h) st))"
  unfolding sony_set_shared_light_locked_def sony_copies Let_def channel_words
  apply (rule ok_bindI [where P = "\<lambda>s'. wrote env s s' (blink_writes sony_paths (LIGHT_FLASH_NONE h) st)"])
  subgoal
    unfolding blink_writes_def
    apply (split if_split, intro conjI impI; simp only: if_True if_False simp_thms)
    subgoal
      by (rule write_string_step [OF wrote_refl], simp, simp only: split append.simps,
          (erule write_string_step write_int_step, simp add: text_fits, simp only: split append.simps)+,
          simp add: leds_def)
    subgoal
      by (rule write_string_step [OF wrote_refl], simp, simp only: split append.simps,
          (erule write_string_step write_int_step, simp add: text_fits, simp only: split append.simps)+,
          simp add: leds_def)
    done
  subgoal
    by (erule write_int_step, rule text_fits, simp only: split,
        (erule write_int_step, rule text_fits, simp only: split)+, simp add: shared_writes_def leds_def)
  done

lemma sony_handle_shared_battery_locked_wrote:
  "ok (sony_handle_shared_battery_locked h env s)
     (\<lambda>s'. wrote env s s' (shared_writes sony_paths (LIGHT_FLASH_NONE h) (shown (g_notification s, g_battery s))))"
  using sony_set_shared_light_locked_wrote by (auto simp: sony_handle_shared_battery_locked_def sony_copies shown_def)

lemma write_all_wrote:
  "length (dec_int v) < 19 \<Longrightarrow>
     ok (run_all (\<lambda>p s. map_option snd (write_int env p v s)) ps s)
       (\<lambda>s'. wrote env s s' (map (\<lambda>p. (p, dec_int v @ newline)) ps))"
proof (induction ps arbitrary: s)
  case Nil
  then show ?case by (simp add: wrote_refl)
next
  case (Cons p ps)
  have "ok (map_option snd (write_int env p v s)) (\<lambda>s1. wrote env s s1 [(p, dec_int v @ newline)])"
    using write_int_wrote [OF Cons.prems, of env p s] by (auto simp: ok_def)
  then show ?case
    unfolding run_all.simps
  proof (rule ok_bindI, goal_cases)
    case (1 s1)
    then show ?case
      using Cons.IH [OF Cons.prems, of s1] wrote_trans [OF 1] by (auto elim!: ok_mono)
  qed
qed

lemma als_mode_fits: "length (dec_int (als_mode h st)) < 19"
  using length_dec_sint_less [of "BRIGHTNESS_MODE_USER h"] length_dec_int [of 1] length_dec_int [of 2]
  by (auto simp: als_mode_def)

lemma luminance_fits: "length (dec_int (luminance st)) < 19"
  using length_dec_int [of "luminance st"] luminance_range [of st] by simp

lemma ok_map_option: "ok (map_option g m) Q = ok m (\<lambda>x. Q (g x))"
  by (auto simp: ok_def)

lemma sony_set_light_did:
  "ok (sony_set_light h env op s) (\<lambda>s'.
     did Unlocked Unlocked env s s' (op_writes sony_paths (LIGHT_FLASH_NONE h) sony_upd (sony_other h) op (lights_of s)) \<and>
     lights_of s' = sony_upd op (lights_of s))"
proof -
  obtain fn st where op: "op = (fn, st)" by fastforce
  have same: "g_notification (snd (sys env Lock s)) = g_notification s" "g_battery (snd (sys env Lock s)) = g_battery s"
    by (simp_all add: sys_simps)
  show ?thesis
  proof (cases fn)
    case Sony_backlight
    define s0 where "s0 = snd (sys env Lock s)\<lparr>g_backlight := luminance st\<rparr>"
    have "\<And>s'. wrote env s0 s' [(ALS_FILE, dec_int (als_mode h st) @ newline),
          (SONY_LCD_BACKLIGHT_FILE, dec_int (luminance st) @ newline)] \<Longrightarrow>
        did Unlocked Unlocked env s (snd (sys env Unlock s')) (the (sony_other h op)) \<and>
        keeps s0 (snd (sys env Unlock s'))"
      unfolding s0_def
      using did_locked [where f = "\<lambda>s. s\<lparr>g_backlight := luminance st\<rparr>"]
      by (auto simp: op Sony_backlight wrote_def intro: keeps_trans [OF _ sys_keeps])
    then show ?thesis
      unfolding op Sony_backlight sony_set_light.simps sony_set_light_backlight_def sony_copies Let_def
        rgb_to_brightness_luminance s0_def [symmetric] ok_map_option AUTOMATIC_def MANUAL_SENSOR_def als_mode_def [symmetric]
      by - (rule write_int_step [OF wrote_refl als_mode_fits], simp only: split,
          erule write_int_step, rule luminance_fits,
          auto simp: op_writes_def lights_of_def keeps_def s0_def same)
  next
    case Sony_buttons
    have "length (dec_int (if is_lit st then 255 else 0)) < 19"
      using length_dec_int [of 255] length_dec_int [of 0] by auto
    from locked_block [where f = "\<lambda>s. s" and s = s and
        H = "run_all (\<lambda>p s. map_option snd (write_int env p (if is_lit st then 255 else 0) s)) BUTTON_BACKLIGHT_FILE",
        OF refl write_all_wrote [OF this]]
    show ?thesis
      by (auto simp: op Sony_buttons sony_set_light_buttons_def sony_copies Let_def map_option_bind_Some op_writes_def
          lights_of_def keeps_def same elim!: ok_mono)
  next
    case Sony_battery
    show ?thesis
      using locked_block [where f = "\<lambda>s. s\<lparr>g_battery := st\<rparr>" and H = "sony_handle_shared_battery_locked h env",
            OF _ sony_handle_shared_battery_locked_wrote, of s]
      by (auto simp: op Sony_battery sony_set_light_battery_def Let_def map_option_bind_Some op_writes_def
          lights_of_def keeps_def same elim!: ok_mono)
  next
    case Sony_notifications
    show ?thesis
      using locked_block [where f = "\<lambda>s. s\<lparr>g_notification := st\<rparr>" and H = "sony_handle_shared_battery_locked h env",
            OF _ sony_handle_shared_battery_locked_wrote, of s]
      by (auto simp: op Sony_notifications sony_set_light_notifications_def Let_def map_option_bind_Some op_writes_def
          lights_of_def keeps_def same elim!: ok_mono)
  qed
qed

interpretation sony: light_module sony_paths "LIGHT_FLASH_NONE h" "sony_set_light h" sony_upd "sony_other h"
  for h :: lights_h
proof (unfold_locales, goal_cases)
  case (1 env op s)
  show ?case by (rule sony_set_light_did)
next
  case (2 op ws nb)
  then show ?case by (cases "(h, op)" rule: sony_other.cases) auto
next
  case (3 op ws l a t)
  have "sony_paths l a \<notin> set (ALS_FILE # SONY_LCD_BACKLIGHT_FILE # BUTTON_BACKLIGHT_FILE)"
    by (cases l; cases a) (simp_all add: sony_led_files)
  with 3 show ?case by (cases "(h, op)" rule: sony_other.cases) auto
next
  case (4 l a l' a')
  then show ?case by (cases l; cases a; cases l'; cases a') (simp_all add: sony_led_files)
qed

subsection \<open>Properties\<close>

definition example_sony :: sony_lights where
  "example_sony = lights.extend example_lights \<lparr>g_backlight = 255\<rparr>"

text \<open>The calls both modules have.\<close>

fun sony_fn :: "set_light_fn \<Rightarrow> sony_light_fn" where
  "sony_fn Fn_backlight = Sony_backlight"
| "sony_fn Fn_battery = Sony_battery"
| "sony_fn Fn_notifications = Sony_notifications"

definition sony_op :: "set_light_fn \<times> light_state \<Rightarrow> sony_light_fn \<times> light_state" where
  "sony_op op = (sony_fn (fst op), snd op)"

text \<open>The Sony file that stands for a file of \<open>lights.c\<close>.\<close>

definition all_paths :: "(string \<times> string) list" where
  "all_paths = concat (map (\<lambda>l. map (\<lambda>a. (lights_paths l a, sony_paths l a)) [Brightness, Trigger, Delay_on, Delay_off]) leds)"

definition to_sony :: "string \<times> string \<Rightarrow> string \<times> string" where
  "to_sony w = (the (map_of all_paths (fst w)), snd w)"

lemma to_sony_path: "to_sony (lights_paths l a, t) = (sony_paths l a, t)"
  by (cases l; cases a) (simp_all add: to_sony_def all_paths_def leds_def led_files)

lemma shared_writes_to_sony: "map to_sony (shared_writes lights_paths c st) = shared_writes sony_paths c st"
  by (simp add: shared_writes_def blink_writes_def leds_def to_sony_path del: lights_paths.simps sony_paths.simps)

lemma run_writes_to_sony:
  "\<forall>op\<in>set ops. lights_other op = None \<Longrightarrow>
     map to_sony (run_writes lights_paths c lights_upd lights_other ops nb) =
       run_writes sony_paths c sony_upd (sony_other h) (map sony_op ops) nb"
proof (induction ops arbitrary: nb)
  case (Cons op ops)
  have "lights_other op = None \<Longrightarrow> sony_other h (sony_op op) = None \<and>
      sony_upd (sony_op op) nb = lights_upd op nb"
    by (cases op rule: lights_other.cases; cases nb) (simp_all add: sony_op_def)
  with Cons show ?case by (simp add: op_writes_def shared_writes_to_sony)
qed simp

text \<open>C26: on any sequence of battery and notification calls, from the same light states and when every
  file opens and takes what is written to it, the two modules are equivalent: they write the same
  texts in the same order, each to its own files.\<close>
theorem sony_writes_what_lights_writes:
  fixes s :: lights and s2 :: sony_lights
  assumes "works env" and "trace s = []" and "trace s2 = []" and "lights_of s2 = lights_of s"
    and "\<forall>op\<in>set ops. lights_other op = None"
  shows "\<exists>s' s2'. run_all (set_light h env) ops s = Some s' \<and>
    run_all (sony_set_light h env) (map sony_op ops) s2 = Some s2' \<and>
    writes None (trace s2') = map to_sony (writes None (trace s'))"
  using lights.written [OF assms(1,2), of h ops] sony.written [OF assms(1,3), of h "map sony_op ops"]
  by (auto simp: assms(4) run_writes_to_sony [OF assms(5), of _ _ h])

theorem sony_writes_what_lights_writes_witness:
  "\<exists>s' s2'. run_all (set_light example_h good_env) example_calls example_lights = Some s' \<and>
    run_all (sony_set_light example_h good_env) (map sony_op example_calls) example_sony = Some s2' \<and>
    writes None (trace s2') = map to_sony (writes None (trace s'))"
  by (rule sony_writes_what_lights_writes [OF good_env_works])
    (simp_all add: example_lights_def example_sony_def lights.defs lights_of_def example_calls_def sony_op_def)

text \<open>The Sony backlight call keeps the brightness of the colour, sets the mode of the light
  sensor and writes the brightness itself, 0 to 255, to the backlight file.\<close>
theorem sony_backlight:
  fixes s :: sony_lights
  assumes "works env" and "trace s = []"
  shows "\<exists>s'. sony_set_light h env (Sony_backlight, st) s = Some s' \<and>
    writes None (trace s') = [(ALS_FILE, dec_int (als_mode h st) @ newline), (SONY_LCD_BACKLIGHT_FILE, dec_int (luminance st) @ newline)] \<and>
    0 \<le> luminance st \<and> luminance st \<le> 255"
proof -
  have "Option.bind m (run_all f []) = m" for m :: "sony_lights option" and f :: "sony_light_fn \<times> light_state \<Rightarrow> _"
    by (cases m) simp_all
  with sony.written [OF assms, of h "[(Sony_backlight, st)]"] luminance_range [of st] show ?thesis
    by (simp add: op_writes_def del: sony_set_light.simps)
qed

theorem sony_backlight_witness:
  "\<exists>s'. sony_set_light example_h good_env (Sony_backlight, dark\<lparr>color := 0x00FFFFFF, brightnessMode := 1\<rparr>) example_sony = Some s' \<and>
     writes None (trace s') = [(ALS_FILE, ''1'' @ newline), (SONY_LCD_BACKLIGHT_FILE, ''255'' @ newline)]"
proof -
  have "als_mode example_h (dark\<lparr>color := 0x00FFFFFF, brightnessMode := 1\<rparr>) = 1"
      "luminance (dark\<lparr>color := 0x00FFFFFF, brightnessMode := 1\<rparr>) = 255" "dec_int 1 = ''1''" "dec_int 255 = ''255''"
    by code_simp+
  with sony_backlight [OF good_env_works, of example_sony example_h "dark\<lparr>color := 0x00FFFFFF, brightnessMode := 1\<rparr>"]
  show ?thesis by (simp add: example_sony_def example_lights_def lights.defs)
qed

end
