(* ===== verification/Leds.thy ===== *)
theory Leds
  imports Prelude
begin

text \<open>
  The two kernel drivers of \<open>bsp/ledDriver\<close> for the four leds of the board and the JNI library
  above one of them: \<open>leds_4412.c\<close> (the leds as devices of the kernel's LED class),
  \<open>leds_tiny4412.c\<close> (a character device with an \<open>ioctl\<close>) and \<open>bsp/HardControl/hal_001_led.c\<close>.
  The kernel around them is \<open>kenv\<close>, which answers every call from what happened before. \<open>board\<close>
  holds the numbers the code takes from kernel headers. None is undefined behaviour: an access
  to freed memory or behind the end of \<open>led_gpios\<close>.
\<close>

datatype kcall =
    Kzalloc
  | Kfree
  | Cfgpin int
  | Gpio_set int u32
  | Led_register nat
  | Led_unregister nat
  | Printk
  | Register_chrdev
  | Unregister_chrdev int
  | Class_create
  | Class_destroy
  | Device_create int
  | Device_destroy int
  | Dev_open
  | Dev_close int
  | Dev_ioctl int u32 u32
  | Jvm_GetEnv
  | Find_class string
  | Register_natives "(string \<times> string) list"
  | Jni_register string "(string \<times> string) list"

type_synonym kenv = "(kcall \<times> int) list \<Rightarrow> kcall \<Rightarrow> int"

record board =
  EXYNOS4212_GPM4 :: "nat \<Rightarrow> int"
  LED_FULL :: u32
  LED_OFF :: u32
  LED_CORE_SUSPENDRESUME :: u32
  ENOMEM :: int
  EINVAL :: int

definition led_gpios :: "board \<Rightarrow> (int \<times> string) list" where
  "led_gpios b = [(EXYNOS4212_GPM4 b 0, ''led1''), (EXYNOS4212_GPM4 b 1, ''led2''),
     (EXYNOS4212_GPM4 b 2, ''led3''), (EXYNOS4212_GPM4 b 3, ''led4'')]"

subsection \<open>The LED class driver\<close>

text \<open>\<open>struct led_classdev_4412\<close>, with the members of its \<open>cdev\<close> that the code sets.\<close>

record led_classdev_4412 =
  max_brightness :: u32
  set_by_4412 :: bool
  cdev_flags :: u32
  cdev_name :: string
  brightness :: u32
  gpio :: int

text \<open>\<open>led_devs\<close> is None while the pointer is null and after \<open>kfree\<close>.\<close>

record led_driver =
  ktrace :: "(kcall \<times> int) list"
  led_devs :: "led_classdev_4412 list option"

definition kcall :: "kenv \<Rightarrow> kcall \<Rightarrow> 'a led_driver_scheme \<Rightarrow> int \<times> 'a led_driver_scheme" where
  "kcall env c s = (let r = env (ktrace s) c in (r, s\<lparr>ktrace := ktrace s @ [(c, r)]\<rparr>))"

definition kdo :: "kenv \<Rightarrow> kcall \<Rightarrow> 'a led_driver_scheme \<Rightarrow> 'a led_driver_scheme" where
  "kdo env c s = snd (kcall env c s)"

text \<open>The LED core calls \<open>brightness_set_4412\<close> with one of the registered devices.\<close>

definition brightness_set_4412 ::
  "board \<Rightarrow> kenv \<Rightarrow> nat \<Rightarrow> u32 \<Rightarrow> 'a led_driver_scheme \<Rightarrow> 'a led_driver_scheme option" where
  "brightness_set_4412 b env k value s =
     (case led_devs s of
        None \<Rightarrow> None
      | Some devs \<Rightarrow>
          if k < length devs then
            let s = s\<lparr>led_devs := Some (devs[k := (devs ! k)\<lparr>brightness := value\<rparr>])\<rparr> in
            Some (if value \<noteq> LED_OFF b then kdo env (Gpio_set (gpio (devs ! k)) 0) s
                  else kdo env (Gpio_set (gpio (devs ! k)) 1) s)
          else None)"

text \<open>\<open>while (i >= 0) led_classdev_unregister(&led_devs[i--])\<close>, downwards from \<open>n - 1\<close>.\<close>

primrec unregister_down :: "kenv \<Rightarrow> nat \<Rightarrow> 'a led_driver_scheme \<Rightarrow> 'a led_driver_scheme" where
  "unregister_down env 0 s = s"
| "unregister_down env (Suc n) s = unregister_down env n (kdo env (Led_unregister n) s)"

text \<open>
  The loop of \<open>leds_init\<close> from \<open>i\<close> on. After a failed registration the code does not leave the
  loop: \<open>i\<close> is -1, the increment makes it 0, and the loop starts again with the freed array.
\<close>

definition filled :: "board \<Rightarrow> nat \<Rightarrow> led_classdev_4412" where
  "filled b i = \<lparr>max_brightness = LED_FULL b, set_by_4412 = True, cdev_flags = LED_CORE_SUSPENDRESUME b,
     cdev_name = snd (led_gpios b ! i), brightness = LED_OFF b, gpio = fst (led_gpios b ! i)\<rparr>"

definition led_setup :: "board \<Rightarrow> kenv \<Rightarrow> nat \<Rightarrow> 'a led_driver_scheme \<Rightarrow> 'a led_driver_scheme" where
  "led_setup b env i s =
     (let s = kdo env (Cfgpin (fst (led_gpios b ! i))) s
      in kdo env (Gpio_set (fst (led_gpios b ! i)) 1) s)"

lemma kdo_devs [simp]: "led_devs (kdo env c s) = led_devs s" "led_devs (snd (kcall env c s)) = led_devs s"
  by (simp_all add: kdo_def kcall_def Let_def)

lemma led_setup_devs [simp]: "led_devs (led_setup b env i s) = led_devs s"
  by (simp add: led_setup_def Let_def)

function init_loop :: "board \<Rightarrow> kenv \<Rightarrow> nat \<Rightarrow> 'a led_driver_scheme \<Rightarrow> 'a led_driver_scheme option" where
  "init_loop b env i s =
     (if i < length (led_gpios b) then
        (let s = led_setup b env i s in
         case led_devs s of
           None \<Rightarrow> None
         | Some devs \<Rightarrow>
             let s = s\<lparr>led_devs := Some (devs[i := filled b i])\<rparr>;
                 (ret, s) = kcall env (Led_register i) s
             in
             if ret \<noteq> 0 then init_loop b env 0 ((kdo env Kfree (unregister_down env i s))\<lparr>led_devs := None\<rparr>)
             else init_loop b env (i + 1) s)
      else Some s)"
  by pat_completeness auto

termination
proof (relation "measures [\<lambda>(b, env, i, s). if led_devs s = None then 0 else 1,
      \<lambda>(b, env, i, s). length (led_gpios b) - i]", goal_cases)
  case (3 b env i s s1 devs s2 x ret s3)
  then have "led_devs s3 = led_devs s2"
    by (auto simp: kcall_def Let_def)
  with 3 show ?case by auto
qed auto

declare init_loop.simps [simp del]

definition leds_init :: "board \<Rightarrow> kenv \<Rightarrow> 'a led_driver_scheme \<Rightarrow> (int \<times> 'a led_driver_scheme) option" where
  "leds_init b env s =
     (let (p, s) = kcall env Kzalloc s in
      if p = 0 then Some (- ENOMEM b, kdo env Printk s)
      else
        let s = s\<lparr>led_devs := Some (replicate 4 \<lparr>max_brightness = 0, set_by_4412 = False, cdev_flags = 0,
                   cdev_name = [], brightness = 0, gpio = 0\<rparr>)\<rparr>
        in map_option (\<lambda>s. (0, s)) (init_loop b env 0 s))"

definition leds_exit :: "board \<Rightarrow> kenv \<Rightarrow> 'a led_driver_scheme \<Rightarrow> 'a led_driver_scheme option" where
  "leds_exit b env s =
     (case led_devs s of
        None \<Rightarrow> None
      | Some devs \<Rightarrow>
          Some ((kdo env Kfree (fold (\<lambda>i. kdo env (Led_unregister i)) [0..<length (led_gpios b)] s))\<lparr>led_devs := None\<rparr>))"

subsection \<open>The character device\<close>

record tiny_driver = led_driver +
  major :: int

definition leds_open :: "board \<Rightarrow> kenv \<Rightarrow> tiny_driver \<Rightarrow> int \<times> tiny_driver" where
  "leds_open b env s =
     (0, fold (\<lambda>i. kdo env (Cfgpin (EXYNOS4212_GPM4 b i))) [0..<4] s)"

definition leds_ioctl :: "board \<Rightarrow> kenv \<Rightarrow> u32 \<Rightarrow> u32 \<Rightarrow> tiny_driver \<Rightarrow> (int \<times> tiny_driver) option" where
  "leds_ioctl b env cmd arg s =
     (if cmd \<noteq> 0 \<and> cmd \<noteq> 1 then Some (- EINVAL b, s)
      else if arg < 0 \<and> arg > 3 then Some (- EINVAL b, s)
      else
        let i = unat (arg AND 0x0f) in
        if i < 4 then Some (0, kdo env (Gpio_set (EXYNOS4212_GPM4 b i) cmd) s) else None)"

definition tiny_leds_init :: "kenv \<Rightarrow> tiny_driver \<Rightarrow> int \<times> tiny_driver" where
  "tiny_leds_init env s =
     (let (r, s) = kcall env Register_chrdev s;
          s = s\<lparr>major := r\<rparr>
      in
      if major s = 0 then (-1, kdo env Printk s)
      else
        let s = kdo env Class_create s
        in (0, kdo env (Device_create (major s)) s))"

definition tiny_leds_exit :: "kenv \<Rightarrow> tiny_driver \<Rightarrow> tiny_driver" where
  "tiny_leds_exit env s =
     kdo env (Unregister_chrdev (major s)) (kdo env Class_destroy (kdo env (Device_destroy (major s)) s))"

subsection \<open>The JNI library\<close>

record hal = led_driver +
  hal_fd :: int

definition ledopen :: "kenv \<Rightarrow> hal \<Rightarrow> int \<times> hal" where
  "ledopen env s =
     (let (r, s) = kcall env Dev_open s;
          s = s\<lparr>hal_fd := r\<rparr>
      in (if hal_fd s \<ge> 0 then 0 else -1, s))"

definition ledclose :: "kenv \<Rightarrow> hal \<Rightarrow> hal" where
  "ledclose env s = kdo env (Dev_close (hal_fd s)) s"

definition ledctrl :: "kenv \<Rightarrow> u32 \<Rightarrow> u32 \<Rightarrow> hal \<Rightarrow> int \<times> hal" where
  "ledctrl env which status s = (0, kdo env (Dev_ioctl (hal_fd s) status which) s)"

text \<open>The constants of \<open>jni.h\<close>, and the table of the Java methods with the functions behind them.\<close>

record jni = JNI_ERR :: int  JNI_VERSION_1_4 :: int

datatype native = Native_open | Native_close | Native_ctrl

definition methods :: "(string \<times> string \<times> native) list" where
  "methods = [(''ledOpen'', ''()I'', Native_open), (''ledClose'', ''()V'', Native_close),
     (''ledCtrl'', ''(II)I'', Native_ctrl)]"

definition JNI_OnLoad :: "jni \<Rightarrow> kenv \<Rightarrow> hal \<Rightarrow> int \<times> hal" where
  "JNI_OnLoad j env s =
     (let (r, s) = kcall env Jvm_GetEnv s in
      if r \<noteq> 0 then (JNI_ERR j, s)
      else
        let (cls, s) = kcall env (Find_class ''com/example/zws/hardlibrary/HardControl'') s in
        if cls = 0 then (JNI_ERR j, s)
        else
          let (r, s) = kcall env (Register_natives (map (\<lambda>(n, sig, f). (n, sig)) methods)) s in
          if r < 0 then (JNI_ERR j, s) else (JNI_VERSION_1_4 j, s))"

end
