(* ===== verification/Leds_Spec.thy ===== *)
theory Leds_Spec
  imports Leds
begin

text \<open>
  The LED class driver keeps the pins in step with the brightness it was asked for, as long as
  every registration succeeds; when one fails, its clean-up leads it into freed memory. The
  character device checks its argument with a condition that is never true.
\<close>

text \<open>The level each pin was last set to.\<close>

definition levels :: "(kcall \<times> int) list \<Rightarrow> int \<Rightarrow> u32 option" where
  "levels tr = map_of (rev (List.map_filter (\<lambda>e. case fst e of Gpio_set g v \<Rightarrow> Some (g, v) | _ \<Rightarrow> None) tr))"

lemma levels_snoc [simp]:
  "levels (tr @ [(Gpio_set g v, r)]) = (levels tr)(g \<mapsto> v)"
  "levels (tr @ [(Cfgpin g, r)]) = levels tr"
  "levels (tr @ [(Led_register i, r)]) = levels tr"
  "levels (tr @ [(Kzalloc, r)]) = levels tr"
  by (simp_all add: levels_def List.map_filter_def)

definition pin :: "board \<Rightarrow> nat \<Rightarrow> int" where
  "pin b k = fst (led_gpios b ! k)"

lemma length_led_gpios [simp]: "length (led_gpios b) = 4"
  by (simp add: led_gpios_def)

lemma pins_inj:
  "distinct (map fst (led_gpios b)) \<Longrightarrow> j < 4 \<Longrightarrow> k < 4 \<Longrightarrow> pin b j = pin b k \<longleftrightarrow> j = k"
  using nth_eq_iff_index_eq [of "map fst (led_gpios b)" j k] by (simp add: pin_def)

lemma kdo_trace: "ktrace (kdo env c s) = ktrace s @ [(c, env (ktrace s) c)]"
  by (simp add: kdo_def kcall_def Let_def)

text \<open>The first \<open>n\<close> leds are filled in, their pins high.\<close>

definition dark_upto :: "board \<Rightarrow> nat \<Rightarrow> 'a led_driver_scheme \<Rightarrow> bool" where
  "dark_upto b n s \<longleftrightarrow> (\<exists>devs. led_devs s = Some devs \<and> length devs = 4 \<and>
     (\<forall>k<n. devs ! k = filled b k \<and> levels (ktrace s) (pin b k) = Some 1))"

lemma init_step:
  assumes "dark_upto b i s" and "i < 4" and "distinct (map fst (led_gpios b))"
    and "env (ktrace (led_setup b env i s)) (Led_register i) = 0"
  shows "\<exists>s'. init_loop b env i s = init_loop b env (Suc i) s' \<and> dark_upto b (Suc i) s'"
proof -
  obtain devs where devs: "led_devs s = Some devs" "length devs = 4"
      "\<forall>k<i. devs ! k = filled b k \<and> levels (ktrace s) (pin b k) = Some 1"
    using assms(1) by (auto simp: dark_upto_def)
  let ?s = "led_setup b env i s"
  let ?s' = "?s\<lparr>led_devs := Some (devs[i := filled b i]), ktrace := ktrace ?s @ [(Led_register i, 0)]\<rparr>"
  have "levels (ktrace ?s) = (levels (ktrace s))(pin b i \<mapsto> 1)"
    by (simp add: led_setup_def Let_def kdo_trace pin_def del: append_assoc)
  then have "dark_upto b (Suc i) ?s'"
    using devs assms(2) pins_inj [OF assms(3)] by (auto simp: dark_upto_def less_Suc_eq)
  moreover have "init_loop b env i s = init_loop b env (Suc i) ?s'"
    using assms(2,4) devs(1) by (subst init_loop.simps) (simp add: kcall_def Let_def)
  ultimately show ?thesis by blast
qed

lemma init_all:
  assumes "dark_upto b i s" and "i \<le> 4" and "distinct (map fst (led_gpios b))"
    and "\<And>tr j. env tr (Led_register j) = 0"
  shows "\<exists>s'. init_loop b env i s = Some s' \<and> dark_upto b 4 s'"
  using assms(1,2)
proof (induction "4 - i" arbitrary: i s)
  case 0
  then show ?case by (simp add: init_loop.simps [of b env 4])
next
  case (Suc n)
  then have "i < 4" by simp
  with Suc.prems(1) obtain s' where "init_loop b env i s = init_loop b env (Suc i) s'" "dark_upto b (Suc i) s'"
    using init_step [of b i s env] assms(3,4) by blast
  with Suc.hyps(1) [of "Suc i" s'] Suc.hyps(2) Suc.prems(2) show ?case by auto
qed

text \<open>The state after requests: the brightness last asked for, and the pins to match. A led is
  lit by a low pin.\<close>

definition leds_show :: "board \<Rightarrow> u32 list \<Rightarrow> 'a led_driver_scheme \<Rightarrow> bool" where
  "leds_show b bright s \<longleftrightarrow> length bright = 4 \<and> (\<exists>devs. led_devs s = Some devs \<and> length devs = 4 \<and>
     (\<forall>k<4. brightness (devs ! k) = bright ! k \<and> gpio (devs ! k) = pin b k \<and>
       levels (ktrace s) (pin b k) = Some (if bright ! k = LED_OFF b then 1 else 0)))"

lemma dark_shows: "dark_upto b 4 s \<Longrightarrow> leds_show b (replicate 4 (LED_OFF b)) s"
  by (auto simp: dark_upto_def leds_show_def filled_def pin_def)

lemma brightness_set_shows:
  assumes "leds_show b bright s" and "k < 4" and "distinct (map fst (led_gpios b))"
  shows "\<exists>s'. brightness_set_4412 b env k v s = Some s' \<and> leds_show b (bright[k := v]) s'"
proof -
  obtain devs where devs: "led_devs s = Some devs" "length devs = 4" "length bright = 4"
      "\<forall>k<4. brightness (devs ! k) = bright ! k \<and> gpio (devs ! k) = pin b k \<and>
       levels (ktrace s) (pin b k) = Some (if bright ! k = LED_OFF b then 1 else 0)"
    using assms(1) by (auto simp: leds_show_def)
  with assms(2) pins_inj [OF assms(3)] show ?thesis
    by (auto simp: brightness_set_4412_def leds_show_def kdo_trace Let_def nth_list_update)
qed

lemma requests_show:
  assumes "leds_show b bright s" and "\<forall>(k, v)\<in>set reqs. k < 4" and "distinct (map fst (led_gpios b))"
  shows "\<exists>s'. run_all (\<lambda>(k, v). brightness_set_4412 b env k v) reqs s = Some s' \<and>
    leds_show b (fold (\<lambda>(k, v) l. l[k := v]) reqs bright) s'"
  using assms(1,2)
proof (induction reqs arbitrary: s bright)
  case (Cons r reqs)
  obtain k v where r: "r = (k, v)" by fastforce
  with Cons.prems obtain s1 where "brightness_set_4412 b env k v s = Some s1" "leds_show b (bright[k := v]) s1"
    using brightness_set_shows [OF Cons.prems(1) _ assms(3)] by fastforce
  with Cons.IH [of "bright[k := v]" s1] Cons.prems(2) r show ?case by simp
qed auto

subsection \<open>Properties\<close>

text \<open>C28: after a successful start and any sequence of requests, every led has the brightness
  last asked for and its pin follows: low while it is lit, high while it is off.\<close>
theorem leds_follow_requests:
  assumes "distinct (map fst (led_gpios b))" and "\<And>tr. env tr Kzalloc \<noteq> 0"
    and "\<And>tr j. env tr (Led_register j) = 0" and "\<forall>(k, v)\<in>set reqs. k < 4"
  shows "\<exists>s1 s2. leds_init b env s = Some (0, s1) \<and>
    run_all (\<lambda>(k, v). brightness_set_4412 b env k v) reqs s1 = Some s2 \<and>
    leds_show b (fold (\<lambda>(k, v) l. l[k := v]) reqs (replicate 4 (LED_OFF b))) s2"
proof -
  have "dark_upto b 0 (s\<lparr>ktrace := tr, led_devs := Some (replicate 4 d)\<rparr>)" for tr d
    by (simp add: dark_upto_def)
  then obtain s1 where "leds_init b env s = Some (0, s1)" "dark_upto b 4 s1"
    using init_all [where i = 0 and b = b and env = env] assms(1,2,3)
    by (fastforce simp: leds_init_def kcall_def Let_def)
  with requests_show [OF dark_shows assms(4,1)] show ?thesis by blast
qed

definition example_board :: board where
  "example_board = \<lparr>EXYNOS4212_GPM4 = (\<lambda>n. 100 + int n), LED_FULL = 255, LED_OFF = 0,
     LED_CORE_SUSPENDRESUME = 0x10000, ENOMEM = 12, EINVAL = 22\<rparr>"

theorem leds_follow_requests_witness:
  "\<exists>s1 s2. leds_init example_board (\<lambda>tr c. if c = Kzalloc then 4096 else 0) \<lparr>ktrace = [], led_devs = None\<rparr> = Some (0, s1) \<and>
     run_all (\<lambda>(k, v). brightness_set_4412 example_board (\<lambda>tr c. if c = Kzalloc then 4096 else 0) k v)
       [(2, 255), (1, 7), (1, 0)] s1 = Some s2 \<and> leds_show example_board [0, 0, 255, 0] s2"
  using leds_follow_requests [of example_board "\<lambda>tr c. if c = Kzalloc then 4096 else 0" "[(2, 255), (1, 7), (1, 0)]"
      "\<lparr>ktrace = [], led_devs = None\<rparr>"]
  by (simp add: example_board_def led_gpios_def numeral_eq_Suc)

lemma init_freed: "i < 4 \<Longrightarrow> led_devs s = None \<Longrightarrow> init_loop b env i s = None"
  by (subst init_loop.simps) (simp add: Let_def)

lemma unregister_down_devs [simp]: "led_devs (unregister_down env n s) = led_devs s"
  by (induction n arbitrary: s) simp_all

text \<open>C29: when the registration of a led fails, \<open>leds_init\<close> frees the array and then goes on with
  the loop, from the first led, in the freed array.\<close>
theorem leds_init_use_after_free:
  assumes "j < 4" and "\<And>tr. env tr (Led_register j) \<noteq> 0" and "\<And>tr i. i < j \<Longrightarrow> env tr (Led_register i) = 0"
    and "\<And>tr. env tr Kzalloc \<noteq> 0"
  shows "leds_init b env s = None"
proof -
  have "init_loop b env i s = None" if "i \<le> j" "led_devs s \<noteq> None" for i and s :: "'a led_driver_scheme"
    using that
  proof (induction "j - i" arbitrary: i s)
    case 0
    then show ?case
      using assms(1,2) by (subst init_loop.simps) (auto simp: Let_def kcall_def init_freed)
  next
    case (Suc n)
    then show ?case
      using assms(1) assms(3) [of i] by (subst init_loop.simps) (auto simp: Let_def kcall_def)
  qed
  then show ?thesis
    using assms(4) by (simp add: leds_init_def kcall_def Let_def)
qed

theorem leds_init_use_after_free_witness:
  "leds_init example_board (\<lambda>tr c. if c = Kzalloc then 4096 else if c = Led_register 2 then -16 else 0)
     \<lparr>ktrace = [], led_devs = None\<rparr> = None"
  by (rule leds_init_use_after_free [of 2]) auto

text \<open>\<open>leds_ioctl\<close> does not check its argument: of the low four bits, 0 to 3 set that led,
  whatever the other bits are, and 4 to 15 read behind the end of \<open>led_gpios\<close>.\<close>
theorem leds_ioctl_range:
  assumes "cmd = 0 \<or> cmd = 1"
  shows "leds_ioctl b env cmd arg s =
    (if unat arg mod 16 < 4 then
       Some (0, s\<lparr>ktrace := ktrace s @ [(Gpio_set (EXYNOS4212_GPM4 b (unat arg mod 16)) cmd,
         env (ktrace s) (Gpio_set (EXYNOS4212_GPM4 b (unat arg mod 16)) cmd))]\<rparr>)
     else None)"
proof -
  have "arg AND 0x0f = take_bit 4 arg"
    using take_bit_eq_mask [of 4 arg] by (simp add: mask_eq_exp_minus_1)
  then have "unat (arg AND 0x0f) = unat arg mod 16"
    by (simp only: unsigned_take_bit_eq) (simp add: take_bit_eq_mod)
  moreover have "\<not> arg < 0" by simp
  ultimately show ?thesis
    using assms by (auto simp: leds_ioctl_def Let_def kdo_def kcall_def)
qed

theorem leds_ioctl_range_witness:
  "leds_ioctl example_board (\<lambda>tr c. 0) 1 7 \<lparr>ktrace = [], led_devs = None, major = 250\<rparr> = None \<and>
   leds_ioctl example_board (\<lambda>tr c. 0) 1 18 \<lparr>ktrace = [], led_devs = None, major = 250\<rparr> =
     Some (0, \<lparr>ktrace = [(Gpio_set 102 1, 0)], led_devs = None, major = 250\<rparr>)"
  using leds_ioctl_range [of 1 example_board "\<lambda>tr c. 0" 7] leds_ioctl_range [of 1 example_board "\<lambda>tr c. 0" 18]
  by (simp add: example_board_def)

text \<open>\<open>register_chrdev\<close> reports an error by a negative number; \<open>leds_init\<close> of the character device
  only looks for 0, so it creates its device node all the same and reports success. And
  \<open>ledctrl\<close> above it reports success whatever \<open>ioctl\<close> answers.\<close>

lemma tiny_leds_init_ignores_error:
  "env (ktrace s) Register_chrdev < 0 \<Longrightarrow> fst (tiny_leds_init env s) = 0"
  by (simp add: tiny_leds_init_def kcall_def Let_def)

lemma ledctrl_always_succeeds: "fst (ledctrl env which status s) = 0"
  by (simp add: ledctrl_def)

end
