(* ===== verification/Inotify.thy ===== *)
theory Inotify
  imports Prelude
begin

text \<open>
  \<open>inotify/inotify.c\<close>: a program that watches a directory and prints a line for each file created
  or deleted in it. The answers of the kernel are \<open>inotify_kernel\<close>; \<open>inotify_h\<close> holds the
  constants of \<open>sys/inotify.h\<close> and \<open>errno.h\<close>. A read is watched through its effect on memory, and
  the printed lines are the state's \<open>printed\<close>.
\<close>

record inotify_h =
  IN_CREATE :: u32
  IN_DELETE :: u32
  EINTR :: int

datatype line = Usage | Read_failed int | Created "byte list" | Deleted "byte list"

text \<open>The \<open>n\<close>-th \<open>read\<close>: its result, the bytes it stored, and \<open>errno\<close>.\<close>

record inotify_kernel =
  read_answer :: "nat \<Rightarrow> int \<times> byte list \<times> int"

record inotify_state =
  watched :: "(string \<times> u32) option"
  imem :: mem
  reads :: nat
  printed :: "line list"

definition sizeof_inotify_event :: int where
  "sizeof_inotify_event = 16"

text \<open>What \<open>%s\<close> prints: the bytes up to the terminator. A string without one is None.\<close>

partial_function (option) c_string :: "mem \<Rightarrow> addr \<Rightarrow> byte list option" where
  "c_string m a =
     (if m a = 0 then Some [] else do { s \<leftarrow> c_string m (a + 1); Some (m a # s) })"

text \<open>The loop over the events in the buffer. It does not end when an event gives its size as 0
  (a length of \<open>2 ^ 32 - 16\<close>), which the kernel never does.\<close>

partial_function (option) process_events ::
  "inotify_h \<Rightarrow> mem \<Rightarrow> addr \<Rightarrow> int \<Rightarrow> int \<Rightarrow> line list \<Rightarrow> line list option" where
  "process_events h m event_buf res event_pos out =
     (if sizeof_inotify_event \<le> res then
        (let event = event_buf + word_of_int event_pos;
             len = load32 m (event + 12)
         in do {
           out \<leftarrow> (if len \<noteq> 0 then do {
                    name \<leftarrow> c_string m (event + 16);
                    Some (out @ [if load32 m (event + 4) AND IN_CREATE h \<noteq> 0 then Created name else Deleted name])
                  } else Some out);
           let event_size = sint (word_of_int sizeof_inotify_event + len);
           process_events h m event_buf (res - event_size) (event_pos + event_size) out
         })
      else Some out)"

definition read_process_inotify_fd ::
  "inotify_h \<Rightarrow> inotify_kernel \<Rightarrow> addr \<Rightarrow> inotify_state \<Rightarrow> (int \<times> inotify_state) option" where
  "read_process_inotify_fd h k event_buf s =
     (let (res, bytes, errno) = read_answer k (reads s);
          s = s\<lparr>reads := Suc (reads s), imem := store_bytes (imem s) event_buf bytes\<rparr>
      in
      if res < sizeof_inotify_event then
        if errno = EINTR h then Some (0, s)
        else Some (-1, s\<lparr>printed := printed s @ [Read_failed errno]\<rparr>)
      else do {
        out \<leftarrow> process_events h (imem s) event_buf res 0 (printed s);
        Some (0, s\<lparr>printed := out\<rparr>)
      })"

text \<open>\<open>main\<close> never leaves its loop: \<open>n\<close> is the number of rounds that are watched. The result is
  None in the first component as long as the program runs.\<close>

primrec inotify_rounds :: "inotify_h \<Rightarrow> inotify_kernel \<Rightarrow> addr \<Rightarrow> nat \<Rightarrow> inotify_state \<Rightarrow> inotify_state option" where
  "inotify_rounds h k event_buf 0 s = Some s"
| "inotify_rounds h k event_buf (Suc n) s =
     do { (r, s) \<leftarrow> read_process_inotify_fd h k event_buf s; inotify_rounds h k event_buf n s }"

definition inotify_main ::
  "inotify_h \<Rightarrow> inotify_kernel \<Rightarrow> addr \<Rightarrow> string list \<Rightarrow> nat \<Rightarrow> inotify_state \<Rightarrow> (int option \<times> inotify_state) option" where
  "inotify_main h k event_buf argv n s =
     (if length argv \<noteq> 2 then Some (Some (-1), s\<lparr>printed := printed s @ [Usage]\<rparr>)
      else
        let s = s\<lparr>watched := Some (argv ! 1, IN_DELETE h OR IN_CREATE h)\<rparr>
        in map_option (\<lambda>s. (None, s)) (inotify_rounds h k event_buf n s))"

subsection \<open>The format of the events\<close>

datatype event = Event (ev_wd: u32) (ev_mask: u32) (ev_cookie: u32) (ev_name: "byte list") (ev_pad: nat)

text \<open>The name with its terminator and padding; an event of the directory itself has none.\<close>

definition name_field :: "event \<Rightarrow> byte list" where
  "name_field e = (if ev_name e = [] then [] else ev_name e @ replicate (Suc (ev_pad e)) 0)"

definition encode_event :: "event \<Rightarrow> byte list" where
  "encode_event e = le32 (ev_wd e) @ le32 (ev_mask e) @ le32 (ev_cookie e) @ le32 (of_nat (length (name_field e))) @ name_field e"

definition event_ok :: "event \<Rightarrow> bool" where
  "event_ok e \<longleftrightarrow> 0 \<notin> set (ev_name e)"

definition line_of :: "inotify_h \<Rightarrow> event \<Rightarrow> line list" where
  "line_of h e = (if ev_name e = [] then [] else [if ev_mask e AND IN_CREATE h \<noteq> 0 then Created (ev_name e) else Deleted (ev_name e)])"

subsection \<open>Reading the events back\<close>

lemma c_string_load:
  "load_bytes m a (length s + Suc n) = s @ replicate (Suc n) 0 \<Longrightarrow> 0 \<notin> set s \<Longrightarrow> c_string m a = Some s"
proof (induction s arbitrary: a)
  case Nil
  then show ?case by (subst c_string.simps) simp
next
  case (Cons c s)
  then show ?case by (subst c_string.simps) simp
qed

lemma load_bytes_prefix: "load_bytes m a (length xs + k) = xs @ ys \<Longrightarrow>
    load_bytes m a (length xs) = xs \<and> load_bytes m (a + of_nat (length xs)) k = ys"
  by (simp add: load_bytes_add)

lemma load_bytes_4: "load_bytes m a 4 = [m a, m (a + 1), m (a + 2), m (a + 3)]"
  by (simp add: eval_nat_numeral add.assoc)

lemma load32_prefix:
  assumes "load_bytes m a (4 + k) = le32 v @ ys"
  shows "load32 m a = v \<and> load_bytes m (a + 4) k = ys"
  using load_bytes_prefix [of m a "le32 v" k ys] assms
  by (simp add: load_bytes_4) (simp add: load32_def le32_def un32_le32)

lemma event_fields:
  assumes "load_bytes m a (length (encode_event e)) = encode_event e"
  shows "load32 m (a + 4) = ev_mask e" "load32 m (a + 12) = of_nat (length (name_field e))"
    "load_bytes m (a + 16) (length (name_field e)) = name_field e"
proof -
  let ?n = "length (name_field e)"
  have "load_bytes m a (4 + (4 + (4 + (4 + ?n)))) =
      le32 (ev_wd e) @ le32 (ev_mask e) @ le32 (ev_cookie e) @ le32 (of_nat ?n) @ name_field e"
    using assms by (simp add: encode_event_def)
  then have 1: "load_bytes m (a + 4) (4 + (4 + (4 + ?n))) = le32 (ev_mask e) @ le32 (ev_cookie e) @ le32 (of_nat ?n) @ name_field e"
    using load32_prefix by blast
  then have 2: "load_bytes m (a + 4 + 4) (4 + (4 + ?n)) = le32 (ev_cookie e) @ le32 (of_nat ?n) @ name_field e"
    using load32_prefix by blast
  then have 3: "load_bytes m (a + 4 + 4 + 4) (4 + ?n) = le32 (of_nat ?n) @ name_field e"
    using load32_prefix by blast
  have "a + 4 + 4 + 4 = a + 12" "a + 12 + 4 = a + 16" by simp_all
  with load32_prefix [OF 1] load32_prefix [OF 3] show "load32 m (a + 4) = ev_mask e"
    "load32 m (a + 12) = of_nat ?n" "load_bytes m (a + 16) ?n = name_field e" by metis+
qed

lemma length_encode_event: "length (encode_event e) = 16 + length (name_field e)"
  by (simp add: encode_event_def)

lemma event_size:
  assumes "length (name_field e) < 2 ^ 30"
  shows "sint (word_of_int sizeof_inotify_event + of_nat (length (name_field e)) :: u32) = int (length (encode_event e))"
proof -
  have "word_of_int sizeof_inotify_event + of_nat (length (name_field e)) = (word_of_int (int (length (encode_event e))) :: u32)"
    by (simp add: length_encode_event sizeof_inotify_event_def)
  moreover have "signed_take_bit 31 (int (length (encode_event e))) = int (length (encode_event e))"
    using assms by (intro signed_take_bit_int_eq_self) (simp_all add: length_encode_event)
  ultimately show ?thesis by (simp add: signed_of_int del: of_int_of_nat_eq)
qed

lemma process_encoded:
  assumes "load_bytes m (event_buf + word_of_int pos) (length (concat (map encode_event es))) = concat (map encode_event es)"
    and "\<forall>e\<in>set es. event_ok e" and "length (concat (map encode_event es)) \<le> 512" and "0 \<le> pos"
  shows "process_events h m event_buf (int (length (concat (map encode_event es)))) pos out =
    Some (out @ concat (map (line_of h) es))"
  using assms
proof (induction es arbitrary: pos out)
  case Nil
  then show ?case by (subst process_events.simps) (simp add: sizeof_inotify_event_def)
next
  case (Cons e es)
  let ?a = "event_buf + word_of_int pos" and ?n = "length (encode_event e)" and ?k = "length (concat (map encode_event es))"
  have "load_bytes m ?a (?n + ?k) = encode_event e @ concat (map encode_event es)"
    using Cons.prems(1) by simp
  note split = load_bytes_prefix [OF this]
  note fields = event_fields [OF conjunct1 [OF split]]
  have size: "sint (16 + load32 m (?a + 12)) = int ?n"
    using Cons.prems(3) event_size [of e] by (simp add: fields length_encode_event sizeof_inotify_event_def)
  have "event_buf + word_of_int (pos + int ?n) = ?a + of_nat ?n"
    by (simp add: add.assoc)
  then have "process_events h m event_buf (int ?k) (pos + int ?n) out' = Some (out' @ concat (map (line_of h) es))" for out'
    using Cons.IH [of "pos + int ?n" out'] split Cons.prems(2-4) by (simp add: add.assoc)
  moreover have "load32 m (?a + 12) = 0 \<longleftrightarrow> name_field e = []"
    using Cons.prems(3) unat_of_nat_small [of "length (name_field e)"]
    by (auto simp: fields(2) length_encode_event)
  moreover have "ev_name e \<noteq> [] \<Longrightarrow> c_string m (?a + 16) = Some (ev_name e)"
    using fields(3) Cons.prems(2) by (intro c_string_load [where n = "ev_pad e"]) (auto simp: name_field_def event_ok_def)
  ultimately show ?case
    using length_encode_event [of e]
    by (subst process_events.simps) (auto simp: size fields(1) Let_def line_of_def name_field_def sizeof_inotify_event_def)
qed

subsection \<open>Properties\<close>

text \<open>A kernel that keeps to its interface: every read gives at least one whole event, and not more
  than the buffer holds.\<close>

definition gives_events :: "inotify_kernel \<Rightarrow> (nat \<Rightarrow> event list) \<Rightarrow> bool" where
  "gives_events k es \<longleftrightarrow> (\<forall>i. es i \<noteq> [] \<and> (\<forall>e\<in>set (es i). event_ok e) \<and>
     length (concat (map encode_event (es i))) \<le> 512 \<and>
     fst (read_answer k i) = int (length (concat (map encode_event (es i)))) \<and>
     fst (snd (read_answer k i)) = concat (map encode_event (es i)))"

lemma read_events:
  assumes "gives_events k es" and "no_wrap event_buf 512"
  shows "\<exists>m. read_process_inotify_fd h k event_buf s =
    Some (0, s\<lparr>reads := Suc (reads s), imem := m, printed := printed s @ concat (map (line_of h) (es (reads s)))\<rparr>)"
proof -
  let ?es = "es (reads s)"
  let ?bytes = "concat (map encode_event ?es)"
  obtain errno where ans: "read_answer k (reads s) = (int (length ?bytes), ?bytes, errno)"
    using assms(1) unfolding gives_events_def by (metis prod.collapse)
  have ok: "?es \<noteq> []" "\<forall>e\<in>set ?es. event_ok e" "length ?bytes \<le> 512"
    using assms(1) by (auto simp: gives_events_def)
  then have big: "16 \<le> length ?bytes" by (cases ?es) (auto simp: length_encode_event)
  have "load_bytes (store_bytes (imem s) event_buf ?bytes) event_buf (length ?bytes) = ?bytes"
    using assms(2) ok(3) by (intro load_bytes_store_same) (rule no_wrap_mono)
  with process_encoded [of "store_bytes (imem s) event_buf ?bytes" event_buf 0 ?es h "printed s"] ok big
  show ?thesis
    by (auto simp: read_process_inotify_fd_def ans sizeof_inotify_event_def Let_def)
qed

text \<open>C25: the program watches the given directory for creation and deletion, and what it prints is what happened in the directory: after \<open>n\<close> reads it has printed,
  in order, one line with the right verb and the exact name for every event with a name that
  the kernel encoded, and nothing else; it neither stops nor fails.\<close>
theorem inotify_prints_events:
  assumes "gives_events k es" and "no_wrap event_buf 512" and "length argv = 2"
    and "printed s = []" and "reads s = 0"
  shows "\<exists>s'. inotify_main h k event_buf argv n s = Some (None, s') \<and>
    watched s' = Some (argv ! 1, IN_DELETE h OR IN_CREATE h) \<and>
    printed s' = concat (map (line_of h) (concat (map es [0..<n])))"
proof -
  have "\<exists>s'. inotify_rounds h k event_buf n s = Some s' \<and> watched s' = watched s \<and>
      printed s' = printed s @ concat (map (line_of h) (concat (map es [reads s..<reads s + n])))" for s
  proof (induction n arbitrary: s)
    case (Suc n)
    from read_events [OF assms(1,2), of h s] obtain m where
      "read_process_inotify_fd h k event_buf s =
        Some (0, s\<lparr>reads := Suc (reads s), imem := m, printed := printed s @ concat (map (line_of h) (es (reads s)))\<rparr>)" ..
    with Suc [of "s\<lparr>reads := Suc (reads s), imem := m, printed := printed s @ concat (map (line_of h) (es (reads s)))\<rparr>"]
    show ?case using upt_conv_Cons [of "reads s" "reads s + Suc n"] by (simp del: upt_Suc)
  qed simp
  from this [of "s\<lparr>watched := Some (argv ! 1, IN_DELETE h OR IN_CREATE h)\<rparr>"] assms(3-5) show ?thesis
    by (auto simp: inotify_main_def)
qed

theorem inotify_prints_events_witness:
  "\<exists>s'. inotify_main \<lparr>IN_CREATE = 0x100, IN_DELETE = 0x200, EINTR = 4\<rparr>
      \<lparr>read_answer = (\<lambda>i. (64, concat (map encode_event [Event 1 0x100 0 [0x61] 14, Event 1 0x200 0 [0x62, 0x63] 13]), 0))\<rparr>
      0x1000 [''inotify'', ''tmp''] 2 \<lparr>watched = None, imem = (\<lambda>_. 0), reads = 0, printed = []\<rparr> = Some (None, s') \<and>
    printed s' = [Created [0x61], Deleted [0x62, 0x63], Created [0x61], Deleted [0x62, 0x63]]"
proof -
  let ?k = "\<lparr>read_answer = (\<lambda>i. (64, concat (map encode_event [Event 1 0x100 0 [0x61] 14, Event 1 0x200 0 [0x62, 0x63] 13]), 0))\<rparr>"
  have "gives_events ?k (\<lambda>i. [Event 1 0x100 0 [0x61] 14, Event 1 0x200 0 [0x62, 0x63] 13])"
    by (simp add: gives_events_def event_ok_def length_encode_event name_field_def)
  note main = inotify_prints_events [OF this, of "0x1000" "[''inotify'', ''tmp'']" "\<lparr>watched = None, imem = (\<lambda>_. 0), reads = 0, printed = []\<rparr>"
      "\<lparr>IN_CREATE = 0x100, IN_DELETE = 0x200, EINTR = 4\<rparr>" 2]
  have "[0..<2] = [0, 1 :: nat]" by code_simp
  with main show ?thesis by (auto simp: no_wrap_def line_of_def)
qed

end
