(* ===== verification/Epoll.thy ===== *)
theory Epoll
  imports Prelude
begin

text \<open>
  \<open>epoll/epoll.c\<close>: a program that opens the files of its command line, waits for data on any of
  them and prints it. \<open>epoll_kernel\<close> answers its calls: \<open>wait_answer\<close> and \<open>read_answer\<close> by the
  number of the call. None is a store outside the array \<open>buf[500]\<close>.
\<close>

definition EPOLL_MAX_EVENTS :: nat where "EPOLL_MAX_EVENTS = 16"
definition DATA_MAX_LEN :: nat where "DATA_MAX_LEN = 500"

record epoll_kernel =
  EPOLLIN :: u32
  create_answer :: int
  open_answer :: "string \<Rightarrow> int"
  ctl_answer :: "int \<Rightarrow> int"
  wait_answer :: "nat \<Rightarrow> int list"
  read_answer :: "nat \<Rightarrow> byte list option"

datatype ctl = Ctl_add int int u32 | Ctl_del int int

text \<open>A line \<open>file%d get data:%s\<close>: the place in the list of ready files and the text.\<close>

record epoll_state =
  ctls :: "ctl list"
  buf :: "byte list"
  waits :: nat
  reads :: nat
  printed :: "(nat \<times> byte list) list"
  usage :: bool

definition add_to_epoll :: "epoll_kernel \<Rightarrow> int \<Rightarrow> int \<Rightarrow> epoll_state \<Rightarrow> int \<times> epoll_state" where
  "add_to_epoll k fd epollfd s = (ctl_answer k fd, s\<lparr>ctls := ctls s @ [Ctl_add epollfd fd (EPOLLIN k)]\<rparr>)"

definition remove_from_epoll :: "epoll_kernel \<Rightarrow> int \<Rightarrow> int \<Rightarrow> epoll_state \<Rightarrow> int \<times> epoll_state" where
  "remove_from_epoll k fd epollfd s = (ctl_answer k fd, s\<lparr>ctls := ctls s @ [Ctl_del epollfd fd]\<rparr>)"

text \<open>\<open>len = read(fd, buf, DATA_MAX_LEN); buf[len] = 0\<close>, and what \<open>%s\<close> prints then. A failed
  read has the result -1.\<close>

definition read_and_print :: "epoll_kernel \<Rightarrow> nat \<Rightarrow> int \<Rightarrow> epoll_state \<Rightarrow> epoll_state option" where
  "read_and_print k i fd s =
     (let ans = read_answer k (reads s);
          s = s\<lparr>reads := Suc (reads s)\<rparr>;
          (len, buf) = (case ans of None \<Rightarrow> (-1, buf s)
                        | Some bytes \<Rightarrow> (int (length bytes), bytes @ drop (length bytes) (buf s)))
      in
      if 0 \<le> len \<and> len < int DATA_MAX_LEN then
        let buf = buf[nat len := 0]
        in Some (s\<lparr>buf := buf, printed := printed s @ [(i, takeWhile (\<lambda>b. b \<noteq> 0) buf)]\<rparr>)
      else None)"

primrec serve_ready :: "epoll_kernel \<Rightarrow> nat \<Rightarrow> int list \<Rightarrow> epoll_state \<Rightarrow> epoll_state option" where
  "serve_ready k i [] s = Some s"
| "serve_ready k i (fd # fds) s = do { s \<leftarrow> read_and_print k i fd s; serve_ready k (Suc i) fds s }"

text \<open>One round of the endless loop: \<open>epoll_wait\<close> fills at most \<open>EPOLL_MAX_EVENTS\<close> items. A wait
  that fails has no items.\<close>

definition epoll_round :: "epoll_kernel \<Rightarrow> epoll_state \<Rightarrow> epoll_state option" where
  "epoll_round k s =
     serve_ready k 0 (take EPOLL_MAX_EVENTS (wait_answer k (waits s))) (s\<lparr>waits := Suc (waits s)\<rparr>)"

primrec epoll_rounds :: "epoll_kernel \<Rightarrow> nat \<Rightarrow> epoll_state \<Rightarrow> epoll_state option" where
  "epoll_rounds k 0 s = Some s"
| "epoll_rounds k (Suc n) s = do { s \<leftarrow> epoll_round k s; epoll_rounds k n s }"

text \<open>\<open>main\<close>, watched for \<open>n\<close> rounds; the result is None while it runs.\<close>

definition epoll_main :: "epoll_kernel \<Rightarrow> string list \<Rightarrow> nat \<Rightarrow> epoll_state \<Rightarrow> (int option \<times> epoll_state) option" where
  "epoll_main k argv n s =
     (if length argv < 2 then Some (Some (-1), s\<lparr>usage := True\<rparr>)
      else
        let s = fold (\<lambda>file s. snd (add_to_epoll k (open_answer k file) (create_answer k) s)) (drop 1 argv) s
        in map_option (\<lambda>s. (None, s)) (epoll_rounds k n s))"

subsection \<open>Correctness\<close>

text \<open>The reads the program makes in its first \<open>n\<close> rounds.\<close>

primrec reads_made :: "epoll_kernel \<Rightarrow> nat \<Rightarrow> nat \<Rightarrow> nat" where
  "reads_made k w 0 = 0"
| "reads_made k w (Suc n) = length (take EPOLL_MAX_EVENTS (wait_answer k w)) + reads_made k (Suc w) n"

definition read_fits :: "epoll_kernel \<Rightarrow> nat \<Rightarrow> bool" where
  "read_fits k i \<longleftrightarrow> (\<exists>bytes. read_answer k i = Some bytes \<and> length bytes < 500)"

definition text_read :: "epoll_kernel \<Rightarrow> nat \<Rightarrow> byte list" where
  "text_read k i = takeWhile (\<lambda>b. b \<noteq> 0) (the (read_answer k i))"

lemma takeWhile_terminated:
  assumes "ys \<noteq> []"
  shows "takeWhile (\<lambda>b. b \<noteq> 0) ((xs @ ys)[length xs := 0]) = takeWhile (\<lambda>b. b \<noteq> (0 :: byte)) xs"
proof -
  obtain z zs where "ys = z # zs" using assms by (cases ys) auto
  moreover have "takeWhile (\<lambda>b. b \<noteq> 0) (xs @ 0 # zs) = takeWhile (\<lambda>b. b \<noteq> 0) xs"
    by (induction xs) simp_all
  ultimately show ?thesis by simp
qed

text \<open>The buffer always has its 500 bytes.\<close>

lemma read_and_print_fits:
  assumes "length (buf s) = 500"
  shows "read_and_print k i fd s =
    (if read_fits k (reads s) then
       Some (s\<lparr>reads := Suc (reads s), buf := buf (the (read_and_print k i fd s)),
               printed := printed s @ [(i, text_read k (reads s))]\<rparr>)
     else None) \<and>
    (\<forall>s'. read_and_print k i fd s = Some s' \<longrightarrow> length (buf s') = 500)"
proof (cases "read_fits k (reads s)")
  case True
  then obtain bytes where "read_answer k (reads s) = Some bytes" "length bytes < 500"
    by (auto simp: read_fits_def)
  moreover from this have "drop (length bytes) (buf s) \<noteq> []" using assms by simp
  ultimately show ?thesis
    using assms by (simp add: read_and_print_def read_fits_def text_read_def DATA_MAX_LEN_def takeWhile_terminated Let_def)
next
  case False
  then show ?thesis
    by (auto simp: read_and_print_def read_fits_def DATA_MAX_LEN_def Let_def split: option.splits)
qed

lemma serve_ready_spec:
  assumes "length (buf s) = 500"
  shows "if \<forall>j<length fds. read_fits k (reads s + j) then
      \<exists>b. length b = 500 \<and> serve_ready k i fds s =
        Some (s\<lparr>reads := reads s + length fds, buf := b,
          printed := printed s @ map (\<lambda>j. (i + j, text_read k (reads s + j))) [0..<length fds]\<rparr>)
    else serve_ready k i fds s = None"
  using assms
proof (induction fds arbitrary: i s)
  case Nil
  then show ?case by (auto intro: exI [of _ "buf s"])
next
  case (Cons fd fds)
  note step = read_and_print_fits [OF Cons.prems, of k i fd]
  have all: "(\<forall>j<Suc (length fds). read_fits k (reads s + j)) \<longleftrightarrow>
      read_fits k (reads s) \<and> (\<forall>j<length fds. read_fits k (Suc (reads s) + j))"
    using All_less_Suc2 [of "length fds" "\<lambda>j. read_fits k (reads s + j)"] by simp
  have rng: "map (\<lambda>j. (i + j, text_read k (reads s + j))) [0..<Suc (length fds)] =
      (i, text_read k (reads s)) # map (\<lambda>j. (Suc i + j, text_read k (Suc (reads s) + j))) [0..<length fds]"
    by (simp add: upt_conv_Cons map_Suc_upt [symmetric] del: upt_Suc)
  show ?case
  proof (cases "read_fits k (reads s)")
    case True
    then obtain b where "read_and_print k i fd s = Some (s\<lparr>reads := Suc (reads s), buf := b,
        printed := printed s @ [(i, text_read k (reads s))]\<rparr>)" "length b = 500"
      using step by auto
    with Cons.IH [of "s\<lparr>reads := Suc (reads s), buf := b, printed := printed s @ [(i, text_read k (reads s))]\<rparr>" "Suc i"]
    show ?thesis
      using True unfolding length_Cons all rng by (auto simp del: upt_Suc split: if_splits)
  next
    case False
    with step show ?thesis unfolding length_Cons all by auto
  qed
qed

lemma all_less_add: "(\<forall>j<a + b. P j) \<longleftrightarrow> (\<forall>j<a. P j) \<and> (\<forall>j<b. P (a + j))" for a b :: nat
  by (induction b) (auto simp: less_Suc_eq)

lemma map_upt_add: "map f [0..<a + b] = map f [0..<a] @ map (\<lambda>j. f (a + j)) [0..<b]"
  by (induction b) simp_all

lemma epoll_rounds_spec:
  assumes "length (buf s) = 500"
  shows "if \<forall>j<reads_made k (waits s) n. read_fits k (reads s + j) then
      \<exists>s'. epoll_rounds k n s = Some s' \<and> ctls s' = ctls s \<and>
        map snd (printed s') = map snd (printed s) @ map (\<lambda>j. text_read k (reads s + j)) [0..<reads_made k (waits s) n]
    else epoll_rounds k n s = None"
  using assms
proof (induction n arbitrary: s)
  case (Suc n)
  let ?fds = "take EPOLL_MAX_EVENTS (wait_answer k (waits s))"
  let ?N = "reads_made k (Suc (waits s)) n"
  note all = all_less_add [of "length ?fds" ?N "\<lambda>j. read_fits k (reads s + j)", folded add.assoc]
  note rng = map_upt_add [of "\<lambda>j. text_read k (reads s + j)" "length ?fds" ?N, folded add.assoc]
  note step = serve_ready_spec [of "s\<lparr>waits := Suc (waits s)\<rparr>" ?fds k 0]
  show ?case
  proof (cases "\<forall>j<length ?fds. read_fits k (reads s + j)")
    case True
    then obtain b where "epoll_round k s = Some (s\<lparr>waits := Suc (waits s), reads := reads s + length ?fds, buf := b,
        printed := printed s @ map (\<lambda>j. (j, text_read k (reads s + j))) [0..<length ?fds]\<rparr>)" "length b = 500"
      using step Suc.prems by (auto simp: epoll_round_def)
    with Suc.IH [of "s\<lparr>waits := Suc (waits s), reads := reads s + length ?fds, buf := b,
        printed := printed s @ map (\<lambda>j. (j, text_read k (reads s + j))) [0..<length ?fds]\<rparr>"] True
    show ?thesis unfolding reads_made.simps all rng by (auto simp: o_def split: if_splits)
  next
    case False
    then have "epoll_round k s = None"
      using step Suc.prems by (auto simp: epoll_round_def)
    with False show ?thesis unfolding reads_made.simps all by auto
  qed
qed simp

subsection \<open>Properties\<close>

text \<open>C30: the program registers every file and prints, in the order of the reads, the text of every
  read up to its first zero byte, exactly as long as no read fills the buffer or fails: a read
  of 500 bytes, the most it asks for, or a failed read makes it store outside \<open>buf\<close>.\<close>
theorem epoll_prints_or_overruns:
  assumes "2 \<le> length argv" and "length (buf s) = 500" and "reads s = 0" and "waits s = 0" and "printed s = []"
  shows "if \<forall>j<reads_made k 0 n. read_fits k j then
      \<exists>s'. epoll_main k argv n s = Some (None, s') \<and>
        map snd (printed s') = map (text_read k) [0..<reads_made k 0 n] \<and>
        ctls s' = ctls s @ map (\<lambda>file. Ctl_add (create_answer k) (open_answer k file) (EPOLLIN k)) (drop 1 argv)
    else epoll_main k argv n s = None"
proof -
  have fold: "fold (\<lambda>file s. snd (add_to_epoll k (open_answer k file) (create_answer k) s)) fs s =
      s\<lparr>ctls := ctls s @ map (\<lambda>file. Ctl_add (create_answer k) (open_answer k file) (EPOLLIN k)) fs\<rparr>" for fs and s :: epoll_state
    by (induction fs arbitrary: s) (simp_all add: add_to_epoll_def)
  show ?thesis
    using assms epoll_rounds_spec [of "s\<lparr>ctls := ctls s @ map (\<lambda>file. Ctl_add (create_answer k) (open_answer k file) (EPOLLIN k)) (drop 1 argv)\<rparr>" k n]
    by (auto simp: epoll_main_def fold split: if_splits)
qed

definition example_epoll :: "byte list \<Rightarrow> epoll_kernel" where
  "example_epoll bytes = \<lparr>EPOLLIN = 1, create_answer = 3, open_answer = (\<lambda>_. 4), ctl_answer = (\<lambda>_. 0),
     wait_answer = (\<lambda>_. [4]), read_answer = (\<lambda>_. Some bytes)\<rparr>"

definition example_epoll_state :: epoll_state where
  "example_epoll_state = \<lparr>ctls = [], buf = replicate 500 0, waits = 0, reads = 0, printed = [], usage = False\<rparr>"

lemma example_reads: "reads_made (example_epoll b) 0 2 = 2" "reads_made (example_epoll b) 0 (Suc 0) = 1"
  by (simp_all add: example_epoll_def numeral_2_eq_2 EPOLL_MAX_EVENTS_def)

theorem epoll_prints_or_overruns_witness:
  "(\<exists>s'. epoll_main (example_epoll [0x61, 0x62]) [''epoll'', ''f''] 2 example_epoll_state = Some (None, s') \<and>
      map snd (printed s') = [[0x61, 0x62], [0x61, 0x62]]) \<and>
   epoll_main (example_epoll (replicate 500 0x61)) [''epoll'', ''f''] 1 example_epoll_state = None"
proof -
  note run = epoll_prints_or_overruns [of "[''epoll'', ''f'']" example_epoll_state]
  have "read_fits (example_epoll [0x61, 0x62]) j" "text_read (example_epoll [0x61, 0x62]) j = [0x61, 0x62]" for j
    by (simp_all add: example_epoll_def read_fits_def text_read_def)
  moreover have "[0..<2] = [0, 1 :: nat]" by code_simp
  moreover have "\<not> read_fits (example_epoll (replicate 500 0x61)) j" for j
    by (simp add: example_epoll_def read_fits_def)
  moreover have "length (buf example_epoll_state) = 500" "reads example_epoll_state = 0"
      "waits example_epoll_state = 0" "printed example_epoll_state = []"
    by (simp_all add: example_epoll_state_def)
  ultimately show ?thesis
    using run [of "example_epoll [0x61, 0x62]" 2] run [of "example_epoll (replicate 500 0x61)" "Suc 0"]
    by (auto simp: example_reads simp del: reads_made.simps)
qed

end
