(* ===== verification/Socketpair.thy ===== *)
theory Socketpair
  imports Stdio
begin

text \<open>
  \<open>socketpair/socketpair.c\<close>: two threads that talk over a pair of connected sockets. The two
  sequences of messages in flight are the buffers of the sockets (\<open>SOCK_SEQPACKET\<close>: each \<open>read\<close>
  takes one message, cut at the 500 bytes it asks for, and both directions keep their order);
  a thread is at its \<open>write\<close> or at its \<open>read\<close>. A \<open>read\<close> waits while nothing is there, so the
  two threads are a transition system. \<open>overrun\<close> records a store outside a buffer.
\<close>

datatype at = Writing | Reading

text \<open>A thread: where it is, its counter \<open>cnt\<close> (a 32-bit \<open>int\<close>) and what it has printed.\<close>

record thread =
  at :: at
  cnt :: u32
  shown :: "string list"

record pair =
  to_main :: "string list"
  to_thread :: "string list"
  main_t :: thread
  thread1 :: thread
  overrun :: bool

definition thread_msg :: "u32 \<Rightarrow> string" where
  "thread_msg n = ''Hello mian Thread, cnt = '' @ dec_int (sint n)"

definition main_msg :: "u32 \<Rightarrow> string" where
  "main_msg n = ''Hello Thread1, cnt = '' @ dec_int (sint n) @ [CHR 0x0A]"

text \<open>\<open>len = sprintf(buf, ...); write(fd, buf, len)\<close>: the text with its terminator has to fit into
  the 500 bytes of \<open>buf\<close>.\<close>

definition sprintf_fits :: "string \<Rightarrow> bool" where
  "sprintf_fits text \<longleftrightarrow> length text < 500"

definition send :: "(u32 \<Rightarrow> string) \<Rightarrow> thread \<Rightarrow> string \<times> thread" where
  "send msg t = (msg (cnt t), t\<lparr>at := Reading, cnt := cnt t + 1\<rparr>)"

text \<open>\<open>len = read(fd, buf, 500); buf[len] = 0; printf("%s\n", buf)\<close>.\<close>

definition receive :: "string \<Rightarrow> thread \<Rightarrow> thread \<times> bool" where
  "receive m t =
     (let buf = take 500 m in
      (t\<lparr>at := Writing, shown := shown t @ [takeWhile (\<lambda>c. c \<noteq> CHR 0x00) buf]\<rparr>, length buf = 500))"

inductive step :: "pair \<Rightarrow> pair \<Rightarrow> bool" where
  thread_writes: "at (thread1 s) = Writing \<Longrightarrow> send thread_msg (thread1 s) = (m, t) \<Longrightarrow>
    step s (s\<lparr>thread1 := t, to_main := to_main s @ [m], overrun := overrun s \<or> \<not> sprintf_fits m\<rparr>)"
| thread_reads: "at (thread1 s) = Reading \<Longrightarrow> to_thread s = m # ms \<Longrightarrow> receive m (thread1 s) = (t, bad) \<Longrightarrow>
    step s (s\<lparr>thread1 := t, to_thread := ms, overrun := overrun s \<or> bad\<rparr>)"
| main_writes: "at (main_t s) = Writing \<Longrightarrow> send main_msg (main_t s) = (m, t) \<Longrightarrow>
    step s (s\<lparr>main_t := t, to_thread := to_thread s @ [m], overrun := overrun s \<or> \<not> sprintf_fits m\<rparr>)"
| main_reads: "at (main_t s) = Reading \<Longrightarrow> to_main s = m # ms \<Longrightarrow> receive m (main_t s) = (t, bad) \<Longrightarrow>
    step s (s\<lparr>main_t := t, to_main := ms, overrun := overrun s \<or> bad\<rparr>)"

inductive_cases step_cases [consumes 1, case_names thread_writes thread_reads main_writes main_reads]: "step s s'"

text \<open>After \<open>socketpair\<close> and \<open>pthread_create\<close>: the thread starts at its \<open>write\<close>, \<open>main\<close> at its
  \<open>read\<close>.\<close>

definition start :: pair where
  "start = \<lparr>to_main = [], to_thread = [], main_t = \<lparr>at = Reading, cnt = 0, shown = []\<rparr>,
     thread1 = \<lparr>at = Writing, cnt = 0, shown = []\<rparr>, overrun = False\<rparr>"

inductive reachable :: "nat \<Rightarrow> pair \<Rightarrow> bool" where
  reach_start: "reachable 0 start"
| reach_step: "reachable n s \<Longrightarrow> step s s' \<Longrightarrow> reachable (Suc n) s'"

subsection \<open>The protocol\<close>

lemma dec_no_nul: "CHR 0x00 \<notin> set (dec_int i)"
proof -
  have "CHR 0x00 \<notin> set (dec_nat n)" for n
    using dec_nat_digits [of "CHR 0x00" n] by auto
  then show ?thesis by (auto simp: dec_int_def)
qed

lemma msg_lengths: "length (thread_msg n) < 500" "length (main_msg n) < 500"
  using length_dec_sint [of n] by (simp_all add: thread_msg_def main_msg_def)

lemma msg_texts: "takeWhile (\<lambda>c. c \<noteq> CHR 0x00) (thread_msg n) = thread_msg n"
    "takeWhile (\<lambda>c. c \<noteq> CHR 0x00) (main_msg n) = main_msg n"
  using dec_no_nul [of "sint n"] by (auto simp: takeWhile_eq_all_conv thread_msg_def main_msg_def)

text \<open>What \<open>main\<close> has printed after \<open>k\<close> messages.\<close>

definition texts :: "(u32 \<Rightarrow> string) \<Rightarrow> nat \<Rightarrow> string list" where
  "texts msg k = map (\<lambda>i. msg (of_nat i)) [0..<k]"

lemma texts_Suc: "texts msg (Suc k) = texts msg k @ [msg (of_nat k)]"
  by (simp add: texts_def)

text \<open>The two threads go round four states, one round for every exchange: \<open>round_state k i\<close> is
  the state \<open>i\<close> steps into round \<open>k\<close>.\<close>

definition round_state :: "nat \<Rightarrow> nat \<Rightarrow> pair" where
  "round_state k i =
    \<lparr>to_main = (if i = 1 then [thread_msg (of_nat k)] else []),
     to_thread = (if i = 3 then [main_msg (of_nat k)] else []),
     main_t = \<lparr>at = (if i = 2 then Writing else Reading), cnt = of_nat (if i < 3 then k else Suc k),
       shown = texts thread_msg (if i < 2 then k else Suc k)\<rparr>,
     thread1 = \<lparr>at = (if i = 0 then Writing else Reading), cnt = of_nat (if i = 0 then k else Suc k),
       shown = texts main_msg k\<rparr>,
     overrun = False\<rparr>"

lemmas thread_simps = round_state_def send_def receive_def sprintf_fits_def msg_lengths msg_texts texts_Suc

text \<open>In each of them exactly one step is possible.\<close>

lemma step_0: "step (round_state k 0) s' \<longleftrightarrow> s' = round_state k 1"
proof
  show "step (round_state k 0) s' \<Longrightarrow> s' = round_state k 1"
    by (erule step_cases) (auto simp: thread_simps)
  show "s' = round_state k 1 \<Longrightarrow> step (round_state k 0) s'"
    using thread_writes [OF _ send_def, of "round_state k 0"] by (simp add: thread_simps add.commute)
qed

lemma receive_eq:
  "receive m t = (t\<lparr>at := Writing, shown := shown t @ [takeWhile (\<lambda>c. c \<noteq> CHR 0x00) (take 500 m)]\<rparr>,
     length (take 500 m) = 500)"
  by (simp add: receive_def)

lemma msg_cut: "take 500 (thread_msg n) = thread_msg n" "take 500 (main_msg n) = main_msg n"
  using msg_lengths [of n] by simp_all

lemma msg_not_full: "length (thread_msg n) \<noteq> 500" "length (main_msg n) \<noteq> 500"
  using msg_lengths [of n] by simp_all

lemma step_1: "step (round_state k 1) s' \<longleftrightarrow> s' = round_state k 2"
proof
  show "step (round_state k 1) s' \<Longrightarrow> s' = round_state k 2"
    by (erule step_cases) (auto simp: thread_simps msg_cut msg_not_full)
  show "s' = round_state k 2 \<Longrightarrow> step (round_state k 1) s'"
    using main_reads [OF _ _ receive_eq, of "round_state k 1"] by (simp add: thread_simps msg_cut msg_not_full)
qed

lemma step_2: "step (round_state k 2) s' \<longleftrightarrow> s' = round_state k 3"
proof
  show "step (round_state k 2) s' \<Longrightarrow> s' = round_state k 3"
    by (erule step_cases) (auto simp: thread_simps)
  show "s' = round_state k 3 \<Longrightarrow> step (round_state k 2) s'"
    using main_writes [OF _ send_def, of "round_state k 2"] by (simp add: thread_simps add.commute)
qed

lemma step_3: "step (round_state k 3) s' \<longleftrightarrow> s' = round_state (Suc k) 0"
proof
  show "step (round_state k 3) s' \<Longrightarrow> s' = round_state (Suc k) 0"
    by (erule step_cases) (auto simp: thread_simps msg_cut msg_not_full)
  show "s' = round_state (Suc k) 0 \<Longrightarrow> step (round_state k 3) s'"
    using thread_reads [OF _ _ receive_eq, of "round_state k 3"] by (simp add: thread_simps msg_cut msg_not_full)
qed

lemma start_round: "start = round_state 0 0"
  by (simp add: start_def round_state_def texts_def)

lemma step_round:
  assumes "i < 4"
  shows "step (round_state k i) s' \<longleftrightarrow> s' = (if i = 3 then round_state (Suc k) 0 else round_state k (Suc i))"
proof -
  from assms consider "i = 0" | "i = 1" | "i = 2" | "i = 3" by linarith
  then show ?thesis
    using step_0 [of k s'] step_1 [of k s'] step_2 [of k s'] step_3 [of k s']
    by cases (simp_all add: numeral_2_eq_2 numeral_3_eq_3)
qed

lemma reachable_round: "reachable n s \<longleftrightarrow> s = round_state (n div 4) (n mod 4)"
proof (induction n arbitrary: s)
  case 0
  have "reachable 0 s \<longleftrightarrow> s = start"
    by (auto intro: reach_start elim: reachable.cases)
  then show ?case by (simp add: start_round)
next
  case (Suc n)
  have "reachable (Suc n) s \<longleftrightarrow> (\<exists>s1. reachable n s1 \<and> step s1 s)"
    by (auto intro: reach_step elim: reachable.cases)
  also have "\<dots> \<longleftrightarrow> step (round_state (n div 4) (n mod 4)) s"
    by (simp add: Suc.IH)
  also have "\<dots> \<longleftrightarrow> s = (if n mod 4 = 3 then round_state (Suc (n div 4)) 0 else round_state (n div 4) (Suc (n mod 4)))"
    by (simp add: step_round)
  also have "\<dots> \<longleftrightarrow> s = round_state (Suc n div 4) (Suc n mod 4)"
    by (simp add: mod_Suc div_Suc)
  finally show ?case .
qed

subsection \<open>Properties\<close>

text \<open>C23: in no reachable state has a thread stored outside its buffer, and each thread has printed
  exactly the first messages of the other, complete and in order, with their numbers; the two
  counts differ by at most one.\<close>
theorem socketpair_in_order:
  assumes "reachable n s"
  shows "\<not> overrun s \<and> (\<exists>j k. shown (main_t s) = texts thread_msg j \<and> shown (thread1 s) = texts main_msg k \<and>
    k \<le> j \<and> j \<le> Suc k \<and> n div 4 = k)"
  using assms unfolding reachable_round by (auto simp: round_state_def intro: exI [of _ "Suc (n div 4)"] exI [of _ "n div 4"])

theorem socketpair_in_order_witness:
  "\<not> overrun (round_state 0 2) \<and> shown (main_t (round_state 0 2)) = [''Hello mian Thread, cnt = 0'']"
proof -
  have "reachable 2 (round_state 0 2)" by (simp add: reachable_round)
  from socketpair_in_order [OF this] have "\<not> overrun (round_state 0 2)" by blast
  moreover have "shown (main_t (round_state 0 2)) = [''Hello mian Thread, cnt = 0'']" by code_simp
  ultimately show ?thesis ..
qed

text \<open>C24: the program never deadlocks and always gets on: in every reachable state exactly one step
  is possible, so after any number of steps the run goes on, and after four steps per exchange
  both threads have printed one more message.\<close>
theorem socketpair_progress:
  "(\<exists>!s. reachable n s) \<and>
   (reachable n s \<longrightarrow> (\<exists>!s'. step s s') \<and>
     (\<exists>s'. reachable (n + 4) s' \<and> length (shown (main_t s')) = Suc (length (shown (main_t s))) \<and>
        length (shown (thread1 s')) = Suc (length (shown (thread1 s)))))"
proof -
  have "\<exists>!s'. step (round_state (n div 4) (n mod 4)) s'"
    by (simp add: step_round)
  moreover have "(n + 4) div 4 = Suc (n div 4)" "(n + 4) mod 4 = n mod 4" by simp_all
  moreover have "length (shown (main_t (round_state (Suc k) i))) = Suc (length (shown (main_t (round_state k i)))) \<and>
      length (shown (thread1 (round_state (Suc k) i))) = Suc (length (shown (thread1 (round_state k i))))" for k i
    by (simp add: round_state_def texts_def)
  ultimately show ?thesis by (simp add: reachable_round)
qed

theorem socketpair_progress_witness:
  "\<exists>s'. reachable 4 s' \<and> length (shown (main_t s')) = 1 \<and> length (shown (thread1 s')) = 1"
  using socketpair_progress [of 0 start] by (auto simp: reach_start) (auto simp: start_def)

end
