(* ===== verification/Fs_Capability.thy ===== *)
theory Fs_Capability
  imports Prelude
begin

unbundle bit_operations_syntax

text \<open>
  \<open>include/private/android_filesystem_capability.h\<close>: the numbers of the Linux capabilities, the
  layout of the attribute they are stored in, and the macros that find a capability in it. An
  \<open>int\<close> constant is an \<^typ>\<open>int\<close>, what is computed with shifts is a 32-bit word.
\<close>

subsection \<open>Versions and layout\<close>

definition LINUX_CAPABILITY_VERSION_1 :: u32 where "LINUX_CAPABILITY_VERSION_1 = 0x19980330"
definition LINUX_CAPABILITY_U32S_1 :: u32 where "LINUX_CAPABILITY_U32S_1 = 1"
definition LINUX_CAPABILITY_VERSION_2 :: u32 where "LINUX_CAPABILITY_VERSION_2 = 0x20071026"
definition LINUX_CAPABILITY_U32S_2 :: u32 where "LINUX_CAPABILITY_U32S_2 = 2"
definition LINUX_CAPABILITY_VERSION_3 :: u32 where "LINUX_CAPABILITY_VERSION_3 = 0x20080522"
definition LINUX_CAPABILITY_U32S_3 :: u32 where "LINUX_CAPABILITY_U32S_3 = 2"
definition LINUX_CAPABILITY_VERSION :: u32 where "LINUX_CAPABILITY_VERSION = LINUX_CAPABILITY_VERSION_1"
definition LINUX_CAPABILITY_U32S :: u32 where "LINUX_CAPABILITY_U32S = LINUX_CAPABILITY_U32S_1"
definition VFS_CAP_REVISION_MASK :: u32 where "VFS_CAP_REVISION_MASK = 0xFF000000"
definition VFS_CAP_REVISION_SHIFT :: nat where "VFS_CAP_REVISION_SHIFT = 24"
definition VFS_CAP_FLAGS_MASK :: u32 where "VFS_CAP_FLAGS_MASK = NOT VFS_CAP_REVISION_MASK"
definition VFS_CAP_FLAGS_EFFECTIVE :: u32 where "VFS_CAP_FLAGS_EFFECTIVE = 0x000001"
definition VFS_CAP_REVISION_1 :: u32 where "VFS_CAP_REVISION_1 = 0x01000000"
definition VFS_CAP_U32_1 :: nat where "VFS_CAP_U32_1 = 1"
definition VFS_CAP_REVISION_2 :: u32 where "VFS_CAP_REVISION_2 = 0x02000000"
definition VFS_CAP_U32_2 :: nat where "VFS_CAP_U32_2 = 2"
definition XATTR_CAPS_SZ_1 :: nat where "XATTR_CAPS_SZ_1 = 4 * (1 + 2 * VFS_CAP_U32_1)"
definition XATTR_CAPS_SZ_2 :: nat where "XATTR_CAPS_SZ_2 = 4 * (1 + 2 * VFS_CAP_U32_2)"
definition XATTR_CAPS_SZ :: nat where "XATTR_CAPS_SZ = XATTR_CAPS_SZ_2"
definition VFS_CAP_U32 :: nat where "VFS_CAP_U32 = VFS_CAP_U32_2"
definition VFS_CAP_REVISION :: u32 where "VFS_CAP_REVISION = VFS_CAP_REVISION_2"

text \<open>The arguments of \<open>capget\<close> and \<open>capset\<close>, and the attribute; its array has \<open>VFS_CAP_U32\<close> entries.\<close>

record user_cap_header =
  cap_version :: u32
  cap_pid :: u32

record user_cap_data =
  cap_effective :: u32
  cap_permitted :: u32
  cap_inheritable :: u32

record vfs_cap_data =
  magic_etc :: u32
  cap_data :: "(u32 \<times> u32) list"

definition encode_vfs_cap :: "vfs_cap_data \<Rightarrow> byte list" where
  "encode_vfs_cap d = le32 (magic_etc d) @ concat (map (\<lambda>(permitted, inheritable). le32 permitted @ le32 inheritable) (cap_data d))"

subsection \<open>Capabilities\<close>

definition CAP_CHOWN :: int where "CAP_CHOWN = 0"
definition CAP_DAC_OVERRIDE :: int where "CAP_DAC_OVERRIDE = 1"
definition CAP_DAC_READ_SEARCH :: int where "CAP_DAC_READ_SEARCH = 2"
definition CAP_FOWNER :: int where "CAP_FOWNER = 3"
definition CAP_FSETID :: int where "CAP_FSETID = 4"
definition CAP_KILL :: int where "CAP_KILL = 5"
definition CAP_SETGID :: int where "CAP_SETGID = 6"
definition CAP_SETUID :: int where "CAP_SETUID = 7"
definition CAP_SETPCAP :: int where "CAP_SETPCAP = 8"
definition CAP_LINUX_IMMUTABLE :: int where "CAP_LINUX_IMMUTABLE = 9"
definition CAP_NET_BIND_SERVICE :: int where "CAP_NET_BIND_SERVICE = 10"
definition CAP_NET_BROADCAST :: int where "CAP_NET_BROADCAST = 11"
definition CAP_NET_ADMIN :: int where "CAP_NET_ADMIN = 12"
definition CAP_NET_RAW :: int where "CAP_NET_RAW = 13"
definition CAP_IPC_LOCK :: int where "CAP_IPC_LOCK = 14"
definition CAP_IPC_OWNER :: int where "CAP_IPC_OWNER = 15"
definition CAP_SYS_MODULE :: int where "CAP_SYS_MODULE = 16"
definition CAP_SYS_RAWIO :: int where "CAP_SYS_RAWIO = 17"
definition CAP_SYS_CHROOT :: int where "CAP_SYS_CHROOT = 18"
definition CAP_SYS_PTRACE :: int where "CAP_SYS_PTRACE = 19"
definition CAP_SYS_PACCT :: int where "CAP_SYS_PACCT = 20"
definition CAP_SYS_ADMIN :: int where "CAP_SYS_ADMIN = 21"
definition CAP_SYS_BOOT :: int where "CAP_SYS_BOOT = 22"
definition CAP_SYS_NICE :: int where "CAP_SYS_NICE = 23"
definition CAP_SYS_RESOURCE :: int where "CAP_SYS_RESOURCE = 24"
definition CAP_SYS_TIME :: int where "CAP_SYS_TIME = 25"
definition CAP_SYS_TTY_CONFIG :: int where "CAP_SYS_TTY_CONFIG = 26"
definition CAP_MKNOD :: int where "CAP_MKNOD = 27"
definition CAP_LEASE :: int where "CAP_LEASE = 28"
definition CAP_AUDIT_WRITE :: int where "CAP_AUDIT_WRITE = 29"
definition CAP_AUDIT_CONTROL :: int where "CAP_AUDIT_CONTROL = 30"
definition CAP_SETFCAP :: int where "CAP_SETFCAP = 31"
definition CAP_MAC_OVERRIDE :: int where "CAP_MAC_OVERRIDE = 32"
definition CAP_MAC_ADMIN :: int where "CAP_MAC_ADMIN = 33"
definition CAP_SYSLOG :: int where "CAP_SYSLOG = 34"
definition CAP_WAKE_ALARM :: int where "CAP_WAKE_ALARM = 35"
definition CAP_LAST_CAP :: int where "CAP_LAST_CAP = CAP_WAKE_ALARM"

lemmas cap_numbers =
  CAP_CHOWN_def CAP_DAC_OVERRIDE_def CAP_DAC_READ_SEARCH_def CAP_FOWNER_def
  CAP_FSETID_def CAP_KILL_def CAP_SETGID_def CAP_SETUID_def
  CAP_SETPCAP_def CAP_LINUX_IMMUTABLE_def CAP_NET_BIND_SERVICE_def CAP_NET_BROADCAST_def
  CAP_NET_ADMIN_def CAP_NET_RAW_def CAP_IPC_LOCK_def CAP_IPC_OWNER_def
  CAP_SYS_MODULE_def CAP_SYS_RAWIO_def CAP_SYS_CHROOT_def CAP_SYS_PTRACE_def
  CAP_SYS_PACCT_def CAP_SYS_ADMIN_def CAP_SYS_BOOT_def CAP_SYS_NICE_def
  CAP_SYS_RESOURCE_def CAP_SYS_TIME_def CAP_SYS_TTY_CONFIG_def CAP_MKNOD_def
  CAP_LEASE_def CAP_AUDIT_WRITE_def CAP_AUDIT_CONTROL_def CAP_SETFCAP_def
  CAP_MAC_OVERRIDE_def CAP_MAC_ADMIN_def CAP_SYSLOG_def CAP_WAKE_ALARM_def
  CAP_LAST_CAP_def

text \<open>The macros; \<open>x\<close> is an \<open>int\<close>. \<open>1 << 31\<close>, for \<open>CAP_SETFCAP\<close>, is the sign bit.\<close>

definition cap_valid :: "int \<Rightarrow> bool" where "cap_valid x \<longleftrightarrow> x \<ge> 0 \<and> x \<le> CAP_LAST_CAP"
definition CAP_TO_INDEX :: "int \<Rightarrow> int" where "CAP_TO_INDEX x = drop_bit 5 x"
definition CAP_TO_MASK :: "int \<Rightarrow> u32" where "CAP_TO_MASK x = push_bit (nat (x AND 31)) 1"

end
