(* ===== verification/Fs_Config.thy ===== *)
theory Fs_Config
  imports Fs_Capability
begin

unbundle bit_operations_syntax

text \<open>
  \<open>include/private/android_filesystem_config.h\<close>: the user ids of the platform and \<open>fs_config\<close>,
  which gives every file of a filesystem image its owner, group, mode and capabilities from two
  tables of rules. The three ids that the service manager uses are in \<^theory_text>\<open>Service_Manager\<close>. A
  C string is a \<open>string\<close> without its terminator.
\<close>

subsection \<open>User and group ids\<close>

definition AID_ROOT :: u32 where "AID_ROOT = 0"
definition AID_SYSTEM :: u32 where "AID_SYSTEM = 1000"
definition AID_RADIO :: u32 where "AID_RADIO = 1001"
definition AID_BLUETOOTH :: u32 where "AID_BLUETOOTH = 1002"
definition AID_GRAPHICS :: u32 where "AID_GRAPHICS = 1003"
definition AID_INPUT :: u32 where "AID_INPUT = 1004"
definition AID_AUDIO :: u32 where "AID_AUDIO = 1005"
definition AID_CAMERA :: u32 where "AID_CAMERA = 1006"
definition AID_LOG :: u32 where "AID_LOG = 1007"
definition AID_COMPASS :: u32 where "AID_COMPASS = 1008"
definition AID_MOUNT :: u32 where "AID_MOUNT = 1009"
definition AID_WIFI :: u32 where "AID_WIFI = 1010"
definition AID_ADB :: u32 where "AID_ADB = 1011"
definition AID_INSTALL :: u32 where "AID_INSTALL = 1012"
definition AID_MEDIA :: u32 where "AID_MEDIA = 1013"
definition AID_DHCP :: u32 where "AID_DHCP = 1014"
definition AID_SDCARD_RW :: u32 where "AID_SDCARD_RW = 1015"
definition AID_VPN :: u32 where "AID_VPN = 1016"
definition AID_KEYSTORE :: u32 where "AID_KEYSTORE = 1017"
definition AID_USB :: u32 where "AID_USB = 1018"
definition AID_DRM :: u32 where "AID_DRM = 1019"
definition AID_MDNSR :: u32 where "AID_MDNSR = 1020"
definition AID_GPS :: u32 where "AID_GPS = 1021"
definition AID_UNUSED1 :: u32 where "AID_UNUSED1 = 1022"
definition AID_MEDIA_RW :: u32 where "AID_MEDIA_RW = 1023"
definition AID_MTP :: u32 where "AID_MTP = 1024"
definition AID_UNUSED2 :: u32 where "AID_UNUSED2 = 1025"
definition AID_DRMRPC :: u32 where "AID_DRMRPC = 1026"
definition AID_NFC :: u32 where "AID_NFC = 1027"
definition AID_SDCARD_R :: u32 where "AID_SDCARD_R = 1028"
definition AID_CLAT :: u32 where "AID_CLAT = 1029"
definition AID_LOOP_RADIO :: u32 where "AID_LOOP_RADIO = 1030"
definition AID_MEDIA_DRM :: u32 where "AID_MEDIA_DRM = 1031"
definition AID_PACKAGE_INFO :: u32 where "AID_PACKAGE_INFO = 1032"
definition AID_SDCARD_PICS :: u32 where "AID_SDCARD_PICS = 1033"
definition AID_SDCARD_AV :: u32 where "AID_SDCARD_AV = 1034"
definition AID_SDCARD_ALL :: u32 where "AID_SDCARD_ALL = 1035"
definition AID_LOGD :: u32 where "AID_LOGD = 1036"
definition AID_SHARED_RELRO :: u32 where "AID_SHARED_RELRO = 1037"
definition AID_SHELL :: u32 where "AID_SHELL = 2000"
definition AID_CACHE :: u32 where "AID_CACHE = 2001"
definition AID_DIAG :: u32 where "AID_DIAG = 2002"
definition AID_NET_BT_ADMIN :: u32 where "AID_NET_BT_ADMIN = 3001"
definition AID_NET_BT :: u32 where "AID_NET_BT = 3002"
definition AID_INET :: u32 where "AID_INET = 3003"
definition AID_NET_RAW :: u32 where "AID_NET_RAW = 3004"
definition AID_NET_ADMIN :: u32 where "AID_NET_ADMIN = 3005"
definition AID_NET_BW_STATS :: u32 where "AID_NET_BW_STATS = 3006"
definition AID_NET_BW_ACCT :: u32 where "AID_NET_BW_ACCT = 3007"
definition AID_NET_BT_STACK :: u32 where "AID_NET_BT_STACK = 3008"
definition AID_EVERYBODY :: u32 where "AID_EVERYBODY = 9997"
definition AID_MISC :: u32 where "AID_MISC = 9998"
definition AID_NOBODY :: u32 where "AID_NOBODY = 9999"
definition AID_APP :: u32 where "AID_APP = 10000"
definition AID_SHARED_GID_START :: u32 where "AID_SHARED_GID_START = 50000"
definition AID_SHARED_GID_END :: u32 where "AID_SHARED_GID_END = 59999"

lemmas aid_numbers =
  AID_ROOT_def AID_SYSTEM_def AID_RADIO_def AID_BLUETOOTH_def
  AID_GRAPHICS_def AID_INPUT_def AID_AUDIO_def AID_CAMERA_def
  AID_LOG_def AID_COMPASS_def AID_MOUNT_def AID_WIFI_def
  AID_ADB_def AID_INSTALL_def AID_MEDIA_def AID_DHCP_def
  AID_SDCARD_RW_def AID_VPN_def AID_KEYSTORE_def AID_USB_def
  AID_DRM_def AID_MDNSR_def AID_GPS_def AID_UNUSED1_def
  AID_MEDIA_RW_def AID_MTP_def AID_UNUSED2_def AID_DRMRPC_def
  AID_NFC_def AID_SDCARD_R_def AID_CLAT_def AID_LOOP_RADIO_def
  AID_MEDIA_DRM_def AID_PACKAGE_INFO_def AID_SDCARD_PICS_def AID_SDCARD_AV_def
  AID_SDCARD_ALL_def AID_LOGD_def AID_SHARED_RELRO_def AID_SHELL_def
  AID_CACHE_def AID_DIAG_def AID_NET_BT_ADMIN_def AID_NET_BT_def
  AID_INET_def AID_NET_RAW_def AID_NET_ADMIN_def AID_NET_BW_STATS_def
  AID_NET_BW_ACCT_def AID_NET_BT_STACK_def AID_EVERYBODY_def AID_MISC_def
  AID_NOBODY_def AID_APP_def AID_SHARED_GID_START_def AID_SHARED_GID_END_def

text \<open>\<open>struct android_id_info\<close> and the table of names.\<close>

record android_id_info =
  id_name :: string
  aid :: u32

definition android_ids :: "android_id_info list" where
  "android_ids = map (\<lambda>(n, a). \<lparr>id_name = n, aid = a\<rparr>)
    [(''root'', AID_ROOT), (''system'', AID_SYSTEM), (''radio'', AID_RADIO),
     (''bluetooth'', AID_BLUETOOTH), (''graphics'', AID_GRAPHICS), (''input'', AID_INPUT),
     (''audio'', AID_AUDIO), (''camera'', AID_CAMERA), (''log'', AID_LOG),
     (''compass'', AID_COMPASS), (''mount'', AID_MOUNT), (''wifi'', AID_WIFI),
     (''adb'', AID_ADB), (''install'', AID_INSTALL), (''media'', AID_MEDIA),
     (''dhcp'', AID_DHCP), (''sdcard_rw'', AID_SDCARD_RW), (''vpn'', AID_VPN),
     (''keystore'', AID_KEYSTORE), (''usb'', AID_USB), (''drm'', AID_DRM),
     (''mdnsr'', AID_MDNSR), (''gps'', AID_GPS), (''media_rw'', AID_MEDIA_RW),
     (''mtp'', AID_MTP), (''drmrpc'', AID_DRMRPC), (''nfc'', AID_NFC),
     (''sdcard_r'', AID_SDCARD_R), (''clat'', AID_CLAT), (''loop_radio'', AID_LOOP_RADIO),
     (''mediadrm'', AID_MEDIA_DRM), (''package_info'', AID_PACKAGE_INFO), (''sdcard_pics'', AID_SDCARD_PICS),
     (''sdcard_av'', AID_SDCARD_AV), (''sdcard_all'', AID_SDCARD_ALL), (''logd'', AID_LOGD),
     (''shared_relro'', AID_SHARED_RELRO), (''shell'', AID_SHELL), (''cache'', AID_CACHE),
     (''diag'', AID_DIAG), (''net_bt_admin'', AID_NET_BT_ADMIN), (''net_bt'', AID_NET_BT),
     (''inet'', AID_INET), (''net_raw'', AID_NET_RAW), (''net_admin'', AID_NET_ADMIN),
     (''net_bw_stats'', AID_NET_BW_STATS), (''net_bw_acct'', AID_NET_BW_ACCT), (''net_bt_stack'', AID_NET_BT_STACK),
     (''everybody'', AID_EVERYBODY), (''misc'', AID_MISC), (''nobody'', AID_NOBODY)]"

definition android_id_count :: nat where "android_id_count = length android_ids"

subsection \<open>Rules\<close>

text \<open>\<open>struct fs_path_config\<close>; a null \<open>prefix\<close>, at the end of a table, is None. Modes are written in octal
  digits.\<close>

record fs_path_config =
  fs_mode :: u32
  fs_uid :: u32
  fs_gid :: u32
  fs_capabilities :: "64 word"
  fs_prefix :: "string option"

definition octal :: "u32 list \<Rightarrow> u32" where
  "octal ds = foldl (\<lambda>n d. 8 * n + d) 0 ds"

fun rule :: "u32 list \<times> u32 \<times> u32 \<times> int \<times> string \<Rightarrow> fs_path_config" where
  "rule (mode, uid, gid, caps, prefix) = \<lparr>fs_mode = octal mode, fs_uid = uid, fs_gid = gid,
     fs_capabilities = of_int caps, fs_prefix = (if prefix = [] then None else Some prefix)\<rparr>"

text \<open>The last rule of each table, for everything else, is written with an empty prefix here.\<close>

definition android_dirs :: "fs_path_config list" where
  "android_dirs = map rule
    [([0, 0, 7, 7, 0], AID_SYSTEM, AID_CACHE, 0, ''cache''),
     ([0, 0, 7, 7, 1], AID_SYSTEM, AID_SYSTEM, 0, ''data/app''),
     ([0, 0, 7, 7, 1], AID_SYSTEM, AID_SYSTEM, 0, ''data/app-private''),
     ([0, 0, 7, 7, 1], AID_ROOT, AID_ROOT, 0, ''data/dalvik-cache''),
     ([0, 0, 7, 7, 1], AID_SYSTEM, AID_SYSTEM, 0, ''data/data''),
     ([0, 0, 7, 7, 1], AID_SHELL, AID_SHELL, 0, ''data/local/tmp''),
     ([0, 0, 7, 7, 1], AID_SHELL, AID_SHELL, 0, ''data/local''),
     ([0, 1, 7, 7, 1], AID_SYSTEM, AID_MISC, 0, ''data/misc''),
     ([0, 0, 7, 7, 0], AID_DHCP, AID_DHCP, 0, ''data/misc/dhcp''),
     ([0, 0, 7, 7, 1], AID_SHARED_RELRO, AID_SHARED_RELRO, 0, ''data/misc/shared_relro''),
     ([0, 0, 7, 7, 5], AID_MEDIA_RW, AID_MEDIA_RW, 0, ''data/media''),
     ([0, 0, 7, 7, 5], AID_MEDIA_RW, AID_MEDIA_RW, 0, ''data/media/Music''),
     ([0, 0, 7, 7, 1], AID_SYSTEM, AID_SYSTEM, 0, ''data''),
     ([0, 0, 7, 5, 0], AID_ROOT, AID_SHELL, 0, ''sbin''),
     ([0, 0, 7, 5, 5], AID_ROOT, AID_SHELL, 0, ''system/bin''),
     ([0, 0, 7, 5, 5], AID_ROOT, AID_SHELL, 0, ''system/vendor''),
     ([0, 0, 7, 5, 5], AID_ROOT, AID_SHELL, 0, ''system/xbin''),
     ([0, 0, 7, 5, 5], AID_ROOT, AID_ROOT, 0, ''system/etc/ppp''),
     ([0, 0, 7, 5, 5], AID_ROOT, AID_SHELL, 0, ''vendor''),
     ([0, 0, 7, 7, 7], AID_ROOT, AID_ROOT, 0, ''sdcard''),
     ([0, 0, 7, 5, 5], AID_ROOT, AID_ROOT, 0, '''')]"

definition android_files :: "fs_path_config list" where
  "android_files = map rule
    [([0, 0, 4, 4, 0], AID_ROOT, AID_SHELL, 0, ''system/etc/init.goldfish.rc''),
     ([0, 0, 5, 5, 0], AID_ROOT, AID_SHELL, 0, ''system/etc/init.goldfish.sh''),
     ([0, 0, 5, 5, 0], AID_ROOT, AID_SHELL, 0, ''system/etc/init.tiny4412.sh''),
     ([0, 0, 4, 4, 0], AID_ROOT, AID_SHELL, 0, ''system/etc/init.trout.rc''),
     ([0, 0, 5, 5, 0], AID_ROOT, AID_SHELL, 0, ''system/etc/init.ril''),
     ([0, 0, 5, 5, 0], AID_ROOT, AID_SHELL, 0, ''system/etc/init.testmenu''),
     ([0, 0, 5, 5, 0], AID_DHCP, AID_SHELL, 0, ''system/etc/dhcpcd/dhcpcd-run-hooks''),
     ([0, 0, 4, 4, 4], AID_RADIO, AID_AUDIO, 0, ''system/etc/AudioPara4.csv''),
     ([0, 0, 5, 5, 5], AID_ROOT, AID_ROOT, 0, ''system/etc/ppp/*''),
     ([0, 0, 5, 5, 5], AID_ROOT, AID_ROOT, 0, ''system/etc/rc.*''),
     ([0, 0, 6, 4, 4], AID_SYSTEM, AID_SYSTEM, 0, ''data/app/*''),
     ([0, 0, 6, 4, 4], AID_MEDIA_RW, AID_MEDIA_RW, 0, ''data/media/*''),
     ([0, 0, 6, 4, 4], AID_SYSTEM, AID_SYSTEM, 0, ''data/app-private/*''),
     ([0, 0, 6, 4, 4], AID_APP, AID_APP, 0, ''data/data/*''),
     ([0, 0, 7, 5, 5], AID_ROOT, AID_ROOT, 0, ''system/bin/ping''),
     ([0, 2, 7, 5, 0], AID_ROOT, AID_INET, 0, ''system/bin/netcfg''),
     ([0, 4, 7, 5, 0], AID_ROOT, AID_SHELL, 0, ''system/xbin/su''),
     ([0, 6, 7, 5, 5], AID_ROOT, AID_ROOT, 0, ''system/xbin/librank''),
     ([0, 6, 7, 5, 5], AID_ROOT, AID_ROOT, 0, ''system/xbin/procrank''),
     ([0, 6, 7, 5, 5], AID_ROOT, AID_ROOT, 0, ''system/xbin/procmem''),
     ([0, 6, 7, 5, 5], AID_ROOT, AID_ROOT, 0, ''system/xbin/tcpdump''),
     ([0, 4, 7, 7, 0], AID_ROOT, AID_RADIO, 0, ''system/bin/pppd-ril''),
     ([0, 0, 7, 5, 0], AID_ROOT, AID_SHELL, push_bit (nat CAP_SETUID) 1 OR push_bit (nat CAP_SETGID) 1, ''system/bin/run-as''),
     ([0, 0, 7, 5, 0], AID_ROOT, AID_ROOT, 0, ''system/bin/uncrypt''),
     ([0, 0, 7, 5, 0], AID_ROOT, AID_ROOT, 0, ''system/bin/install-recovery.sh''),
     ([0, 0, 7, 5, 5], AID_ROOT, AID_SHELL, 0, ''system/bin/*''),
     ([0, 0, 7, 5, 5], AID_ROOT, AID_ROOT, 0, ''system/lib/valgrind/*''),
     ([0, 0, 7, 5, 5], AID_ROOT, AID_ROOT, 0, ''system/lib64/valgrind/*''),
     ([0, 0, 7, 5, 5], AID_ROOT, AID_SHELL, 0, ''system/xbin/*''),
     ([0, 0, 7, 5, 5], AID_ROOT, AID_SHELL, 0, ''system/vendor/bin/*''),
     ([0, 0, 7, 5, 5], AID_ROOT, AID_SHELL, 0, ''system/busybox/*''),
     ([0, 0, 7, 5, 5], AID_ROOT, AID_SHELL, 0, ''vendor/bin/*''),
     ([0, 0, 7, 5, 0], AID_ROOT, AID_SHELL, 0, ''sbin/*''),
     ([0, 0, 7, 5, 5], AID_ROOT, AID_ROOT, 0, ''bin/*''),
     ([0, 0, 7, 5, 0], AID_ROOT, AID_SHELL, 0, ''init*''),
     ([0, 0, 7, 5, 0], AID_ROOT, AID_SHELL, 0, ''sbin/fs_mgr''),
     ([0, 0, 6, 4, 0], AID_ROOT, AID_SHELL, 0, ''fstab.*''),
     ([0, 0, 6, 6, 6], AID_SYSTEM, AID_MISC, 0, ''data/system/ethernet.conf''),
     ([0, 0, 6, 4, 4], AID_ROOT, AID_ROOT, 0, '''')]"

subsection \<open>fs_config\<close>

text \<open>\<open>strncmp\<close>: the difference of the first characters that differ.\<close>

fun strncmp :: "string \<Rightarrow> string \<Rightarrow> nat \<Rightarrow> int" where
  "strncmp s t 0 = 0"
| "strncmp [] [] (Suc n) = 0"
| "strncmp [] (d # t) (Suc n) = - of_char d"
| "strncmp (c # s) [] (Suc n) = of_char c"
| "strncmp (c # s) (d # t) (Suc n) = (if c = d then strncmp s t n else of_char c - of_char d)"

text \<open>The loop: it breaks at a rule that matches, or at the null prefix. None would be a table
  without one, or an empty prefix, whose last character is before it.\<close>

primrec find_rule :: "bool \<Rightarrow> string \<Rightarrow> fs_path_config list \<Rightarrow> fs_path_config option" where
  "find_rule dir path [] = None"
| "find_rule dir path (pc # pcs) =
     (case fs_prefix pc of
        None \<Rightarrow> Some pc
      | Some prefix \<Rightarrow>
          let plen = length path; len = length prefix in
          if dir then
            if plen < len then find_rule dir path pcs
            else if strncmp prefix path len = 0 then Some pc
            else find_rule dir path pcs
          else if len = 0 then None
          else if prefix ! (len - 1) = CHR ''*'' then
            if strncmp prefix path (len - 1) = 0 then Some pc else find_rule dir path pcs
          else if plen = len then
            if strncmp prefix path len = 0 then Some pc else find_rule dir path pcs
          else find_rule dir path pcs)"

text \<open>\<open>uid\<close>, \<open>gid\<close>, \<open>mode\<close> and \<open>capabilities\<close>; of the mode only the low twelve bits are replaced.\<close>

definition skip_slash :: "string \<Rightarrow> string" where
  "skip_slash path = (case path of [] \<Rightarrow> [] | c # cs \<Rightarrow> if c = CHR ''/'' then cs else path)"

definition fs_config :: "string \<Rightarrow> int \<Rightarrow> u32 \<Rightarrow> (u32 \<times> u32 \<times> u32 \<times> 64 word) option" where
  "fs_config path dir mode =
     (let path = skip_slash path;
          pc = find_rule (dir \<noteq> 0) path (if dir \<noteq> 0 then android_dirs else android_files)
      in map_option (\<lambda>pc. (fs_uid pc, fs_gid pc, (mode AND NOT (octal [7, 7, 7, 7])) OR fs_mode pc,
           fs_capabilities pc)) pc)"

end
