(* ===== verification/Fs_Spec.thy ===== *)
theory Fs_Spec
  imports Fs_Config "HOL-Library.Sublist"
begin

unbundle bit_operations_syntax

text \<open>
  What \<open>fs_config\<close> promises: the first rule that covers a path decides, and there always is one;
  only eight files of an image are privileged; and some rules of the tables can never apply,
  since a more general one stands before them.
\<close>

subsection \<open>First match\<close>

lemma of_char_nul: "of_char c = (0 :: int) \<longleftrightarrow> c = CHR 0x00"
proof -
  have "of_char (CHR 0x00) = (0 :: int)" by simp
  then show ?thesis by (metis of_char_eq_iff)
qed

lemma strncmp_eq:
  "CHR 0x00 \<notin> set s \<Longrightarrow> CHR 0x00 \<notin> set t \<Longrightarrow> strncmp s t n = 0 \<longleftrightarrow> take n s = take n t"
  by (induction s t n rule: strncmp.induct) (auto simp: of_char_nul)

text \<open>The rule covers the path.\<close>

definition covers :: "bool \<Rightarrow> string \<Rightarrow> fs_path_config \<Rightarrow> bool" where
  "covers dir path pc =
     (case fs_prefix pc of
        None \<Rightarrow> True
      | Some p \<Rightarrow> if dir then prefix p path
                  else if last p = CHR ''*'' then prefix (butlast p) path else path = p)"

text \<open>Prefixes are C strings, and not empty.\<close>

definition rule_ok :: "fs_path_config \<Rightarrow> bool" where
  "rule_ok pc = (case fs_prefix pc of None \<Rightarrow> True | Some p \<Rightarrow> p \<noteq> [] \<and> CHR 0x00 \<notin> set p)"

lemma take_prefix: "take (length p) path = p \<longleftrightarrow> prefix p path"
  by (metis append_eq_conv_conj prefix_def)

lemma find_rule_step:
  assumes "rule_ok pc" and "CHR 0x00 \<notin> set path"
  shows "find_rule dir path (pc # pcs) = (if covers dir path pc then Some pc else find_rule dir path pcs)"
proof (cases "fs_prefix pc")
  case (Some p)
  then have p: "p \<noteq> []" "CHR 0x00 \<notin> set p" using assms(1) by (simp_all add: rule_ok_def)
  note cmp = strncmp_eq [OF p(2) assms(2)]
  have all: "strncmp p path (length p) = 0 \<longleftrightarrow> prefix p path"
    by (auto simp: cmp take_prefix eq_commute [of p])
  have init: "strncmp p path (length p - 1) = 0 \<longleftrightarrow> prefix (butlast p) path"
    using take_prefix [of "butlast p" path] by (auto simp: cmp butlast_conv_take)
  have last: "p ! (length p - 1) = last p" using p(1) by (simp add: last_conv_nth)
  have len: "prefix p path \<Longrightarrow> length p \<le> length path" by (rule prefix_length_le)
  have same: "length path = length p \<Longrightarrow> prefix p path \<longleftrightarrow> path = p" by (auto simp: prefix_def)
  have step: "find_rule dir path (pc # pcs) =
      (if (if dir then \<not> length path < length p \<and> prefix p path
           else if last p = CHR ''*'' then prefix (butlast p) path
           else length path = length p \<and> prefix p path)
       then Some pc else find_rule dir path pcs)"
    using p(1) unfolding find_rule.simps Some option.case Let_def all init last by simp
  show ?thesis
    unfolding step covers_def Some option.case using len same by auto
qed (simp add: covers_def)

lemma find_rule_find:
  assumes "\<forall>pc\<in>set pcs. rule_ok pc" and "CHR 0x00 \<notin> set path"
  shows "find_rule dir path pcs = find (covers dir path) pcs"
  using assms(1) by (induction pcs) (simp_all add: find_rule_step assms(2) del: find_rule.simps(2))

lemma tables_ok: "\<forall>pc\<in>set android_dirs. rule_ok pc" "\<forall>pc\<in>set android_files. rule_ok pc"
  by code_simp+

lemma tables_end: "fs_prefix (last android_dirs) = None" "fs_prefix (last android_files) = None"
  "android_dirs \<noteq> []" "android_files \<noteq> []"
  by code_simp+

lemma skip_slash_nul: "CHR 0x00 \<notin> set path \<Longrightarrow> CHR 0x00 \<notin> set (skip_slash path)"
  by (auto simp: skip_slash_def split: list.splits)

definition fs_rules :: "int \<Rightarrow> fs_path_config list" where
  "fs_rules dir = (if dir \<noteq> 0 then android_dirs else android_files)"

text \<open>The deciding rule, by its place in the table.\<close>

lemma find_split:
  "find P xs = Some x \<Longrightarrow> \<exists>us vs. xs = us @ x # vs \<and> P x \<and> (\<forall>u\<in>set us. \<not> P u)"
proof (induction xs)
  case (Cons y ys)
  show ?case
  proof (cases "P y")
    case True
    with Cons.prems show ?thesis by (intro exI [of _ "[]"] exI [of _ ys]) auto
  next
    case False
    with Cons obtain us vs where "ys = us @ x # vs" "P x" "\<forall>u\<in>set us. \<not> P u" by auto
    with False show ?thesis by (intro exI [of _ "y # us"] exI [of _ vs]) auto
  qed
qed simp

lemma fs_rule:
  assumes "CHR 0x00 \<notin> set path"
  obtains us pc vs where "fs_rules dir = us @ pc # vs" and "covers (dir \<noteq> 0) (skip_slash path) pc"
    and "\<forall>u\<in>set us. \<not> covers (dir \<noteq> 0) (skip_slash path) u"
    and "find_rule (dir \<noteq> 0) (skip_slash path) (fs_rules dir) = Some pc"
    and "fs_config path dir mode = Some (fs_uid pc, fs_gid pc,
      (mode AND NOT (octal [7, 7, 7, 7])) OR fs_mode pc, fs_capabilities pc)"
proof -
  let ?covers = "covers (dir \<noteq> 0) (skip_slash path)"
  have "last (fs_rules dir) \<in> set (fs_rules dir)" "?covers (last (fs_rules dir))"
    using tables_end by (auto simp: fs_rules_def covers_def)
  then have "find ?covers (fs_rules dir) \<noteq> None" by (auto simp: find_None_iff)
  then obtain pc where pc: "find ?covers (fs_rules dir) = Some pc" by auto
  from find_split [OF this] obtain us vs where us: "fs_rules dir = us @ pc # vs" "?covers pc" "\<forall>u\<in>set us. \<not> ?covers u"
    by blast
  have "\<forall>r\<in>set (fs_rules dir). rule_ok r" using tables_ok by (simp add: fs_rules_def)
  from find_rule_find [OF this skip_slash_nul [OF assms], of "dir \<noteq> 0"] pc
  have found: "find_rule (dir \<noteq> 0) (skip_slash path) (fs_rules dir) = Some pc" by simp
  then have "fs_config path dir mode = Some (fs_uid pc, fs_gid pc,
      (mode AND NOT (octal [7, 7, 7, 7])) OR fs_mode pc, fs_capabilities pc)"
    by (simp add: fs_config_def fs_rules_def)
  with us found show ?thesis by (rule that)
qed

subsection \<open>Privileged files\<close>

text \<open>Set-uid and set-gid bits, or capabilities.\<close>

definition privileged_rule :: "fs_path_config \<Rightarrow> bool" where
  "privileged_rule pc \<longleftrightarrow> fs_mode pc AND octal [6, 0, 0, 0] \<noteq> 0 \<or> fs_capabilities pc \<noteq> 0"

definition privileged_files :: "string list" where
  "privileged_files = [''system/bin/netcfg'', ''system/xbin/su'', ''system/xbin/librank'',
     ''system/xbin/procrank'', ''system/xbin/procmem'', ''system/xbin/tcpdump'',
     ''system/bin/pppd-ril'', ''system/bin/run-as'']"

lemma privileged_dirs: "list_all (\<lambda>pc. \<not> privileged_rule pc) android_dirs"
  by code_simp

lemma privileged_only: "list_all (\<lambda>pc. privileged_rule pc \<longrightarrow> fs_prefix pc \<in> Some ` set privileged_files) android_files"
  by code_simp

lemma privileged_names: "list_all (\<lambda>f. last f \<noteq> CHR ''*'' \<and> CHR 0x00 \<notin> set f) privileged_files"
  by code_simp

lemma privileged_found: "list_all (\<lambda>f. map_option privileged_rule (find_rule False f android_files) = Some True) privileged_files"
  by code_simp

lemma privileged_bits: "((m AND NOT (octal [7, 7, 7, 7])) OR r) AND octal [6, 0, 0, 0] = r AND octal [6, 0, 0, 0]"
proof -
  have o: "octal [7, 7, 7, 7] = 0xFFF" "octal [6, 0, 0, 0] = 0xC00" by (simp_all add: octal_def)
  have none: "(m AND NOT 0xFFF) AND 0xC00 = 0" by (simp add: and.assoc)
  show ?thesis unfolding o bit.conj_disj_distrib2 none by (rule or.left_neutral)
qed

subsection \<open>Rules that never apply\<close>

definition dead_dirs :: "string list" where
  "dead_dirs = [''data/app-private'', ''data/misc/dhcp'', ''data/misc/shared_relro'', ''data/media/Music'']"

definition dead_files :: "string list" where
  "dead_files = [''sbin/fs_mgr'']"

text \<open>A path that a rule decides, if there is one: its prefix, without the wildcard.\<close>

definition own_path :: "fs_path_config \<Rightarrow> string" where
  "own_path pc = (case fs_prefix pc of None \<Rightarrow> ''x'' | Some p \<Rightarrow> if last p = CHR ''*'' then butlast p else p)"

definition live :: "bool \<Rightarrow> string list \<Rightarrow> fs_path_config list \<Rightarrow> fs_path_config \<Rightarrow> bool" where
  "live dir dead pcs pc \<longleftrightarrow> fs_prefix pc \<in> Some ` set dead \<or>
     CHR 0x00 \<notin> set (own_path pc) \<and> skip_slash (own_path pc) = own_path pc \<and>
     find (covers dir (own_path pc)) pcs = Some pc"

lemma live_dirs: "list_all (live True dead_dirs android_dirs) android_dirs"
  by code_simp

lemma live_files: "list_all (live False dead_files android_files) android_files"
  by code_simp

text \<open>A rule covers all that another covers: the other's prefix goes on from its own.\<close>

definition dominates :: "bool \<Rightarrow> fs_path_config \<Rightarrow> fs_path_config \<Rightarrow> bool" where
  "dominates dir u pc = (case (fs_prefix u, fs_prefix pc) of
     (Some p, Some q) \<Rightarrow> if dir then prefix p q
                        else last p = CHR ''*'' \<and> last q \<noteq> CHR ''*'' \<and> prefix (butlast p) q
   | _ \<Rightarrow> False)"

lemma dominates_covers: "dominates dir u pc \<Longrightarrow> covers dir path pc \<Longrightarrow> covers dir path u"
  by (auto simp: dominates_def covers_def split: option.splits if_splits intro: prefix_order.trans)

primrec shadowed :: "bool \<Rightarrow> string list \<Rightarrow> fs_path_config list \<Rightarrow> fs_path_config list \<Rightarrow> bool" where
  "shadowed dir dead seen [] = True"
| "shadowed dir dead seen (pc # pcs) =
     ((fs_prefix pc \<in> Some ` set dead \<longrightarrow> list_ex (\<lambda>u. dominates dir u pc) seen) \<and>
      shadowed dir dead (pc # seen) pcs)"

lemma shadowed_split:
  "shadowed dir dead seen (us @ pc # vs) \<Longrightarrow> fs_prefix pc \<in> Some ` set dead \<Longrightarrow>
   \<exists>u\<in>set seen \<union> set us. dominates dir u pc"
  by (induction us arbitrary: seen) (fastforce simp: list_ex_iff)+

lemma shadowed_dirs: "shadowed True dead_dirs [] android_dirs"
  by code_simp

lemma shadowed_files: "shadowed False dead_files [] android_files"
  by code_simp

definition dead_rules :: "int \<Rightarrow> string list" where
  "dead_rules dir = (if dir \<noteq> 0 then dead_dirs else dead_files)"

lemma live_rules: "pc \<in> set (fs_rules dir) \<Longrightarrow> live (dir \<noteq> 0) (dead_rules dir) (fs_rules dir) pc"
  using live_dirs live_files by (cases "dir = 0") (simp_all add: dead_rules_def fs_rules_def list_all_iff)

lemma shadowed_rules: "shadowed (dir \<noteq> 0) (dead_rules dir) [] (fs_rules dir)"
  using shadowed_dirs shadowed_files by (simp add: dead_rules_def fs_rules_def)

lemma rules_ok: "\<forall>pc\<in>set (fs_rules dir). rule_ok pc"
  using tables_ok by (simp add: fs_rules_def)

subsection \<open>Properties\<close>

text \<open>C39: \<open>fs_config\<close> always decides, by the first rule of its table that covers the path without
  its leading slash: a directory is covered by every prefix of its name, a file by its own name or
  by a wildcard. Owner, group, capabilities and the twelve mode bits are those of the rule; the
  other bits of the mode are kept.\<close>
theorem fs_config_first_match:
  assumes "CHR 0x00 \<notin> set path"
  shows "\<exists>us pc vs. fs_rules dir = us @ pc # vs \<and> covers (dir \<noteq> 0) (skip_slash path) pc \<and>
    (\<forall>u\<in>set us. \<not> covers (dir \<noteq> 0) (skip_slash path) u) \<and>
    fs_config path dir mode = Some (fs_uid pc, fs_gid pc,
      (mode AND NOT (octal [7, 7, 7, 7])) OR fs_mode pc, fs_capabilities pc)"
  using fs_rule [OF assms, of dir mode] by metis

theorem fs_config_first_match_witness:
  "\<exists>us pc vs. android_files = us @ pc # vs \<and> covers False ''system/bin/sh'' pc \<and>
     (\<forall>u\<in>set us. \<not> covers False ''system/bin/sh'' u) \<and>
     fs_config ''/system/bin/sh'' 0 0x81A4 = Some (fs_uid pc, fs_gid pc, 0x8000 OR fs_mode pc, fs_capabilities pc)"
  using fs_config_first_match [of "''/system/bin/sh''" 0 "0x81A4"]
  by (simp add: fs_rules_def skip_slash_def octal_def)

text \<open>C38: no image has other privileged files than the eight that stand under the comments on privileges
  in the table: the one set-gid file, six set-uid files (the comment says five, the sixth is
  \<open>system/bin/pppd-ril\<close>) and the one with capabilities. Whatever mode it is given, \<open>fs_config\<close> returns a
  set-uid bit, a set-gid bit or a capability exactly for these files, and for no directory.\<close>
theorem fs_config_privileged:
  assumes "CHR 0x00 \<notin> set path" and "fs_config path dir m = Some (uid, gid, mode, caps)"
  shows "mode AND octal [6, 0, 0, 0] \<noteq> 0 \<or> caps \<noteq> 0 \<longleftrightarrow>
    dir = 0 \<and> skip_slash path \<in> set privileged_files"
proof -
  obtain us pc vs where rules: "fs_rules dir = us @ pc # vs" and cov: "covers (dir \<noteq> 0) (skip_slash path) pc"
    and fs: "fs_config path dir m = Some (fs_uid pc, fs_gid pc,
      (m AND NOT (octal [7, 7, 7, 7])) OR fs_mode pc, fs_capabilities pc)"
    and found: "find_rule (dir \<noteq> 0) (skip_slash path) (fs_rules dir) = Some pc"
    by (rule fs_rule [OF assms(1), where dir = dir and mode = m])
  have pc: "pc \<in> set (fs_rules dir)" using rules by simp
  have priv: "mode AND octal [6, 0, 0, 0] \<noteq> 0 \<or> caps \<noteq> 0 \<longleftrightarrow> privileged_rule pc"
    using fs assms(2) by (simp add: privileged_rule_def privileged_bits)
  show ?thesis
  proof (cases "dir = 0")
    case False
    with pc privileged_dirs have "\<not> privileged_rule pc" by (simp add: fs_rules_def list_all_iff)
    with priv False show ?thesis by simp
  next
    case True
    then have pc: "pc \<in> set android_files" using pc by (simp add: fs_rules_def)
    have name: "skip_slash path = f" if "fs_prefix pc = Some f" "f \<in> set privileged_files" for f
      using that cov True privileged_names by (auto simp: covers_def list_all_iff)
    have "find_rule False (skip_slash path) android_files = Some pc"
      using found True by (simp add: fs_rules_def)
    then have "privileged_rule pc" if "skip_slash path \<in> set privileged_files"
      using that privileged_found by (auto simp: list_all_iff)
    moreover have "skip_slash path \<in> set privileged_files" if "privileged_rule pc"
      using that pc privileged_only name by (auto simp: list_all_iff)
    ultimately show ?thesis using priv True by blast
  qed
qed

theorem fs_config_privileged_witness:
  "fs_config ''/system/bin/run-as'' 0 0x81ED = Some (AID_ROOT, AID_SHELL, 0x81E8, 0xC0) \<and>
   ''system/bin/run-as'' \<in> set privileged_files"
proof -
  have fs: "fs_config ''/system/bin/run-as'' 0 0x81ED = Some (AID_ROOT, AID_SHELL, 0x81E8, 0xC0)"
    by code_simp
  with fs_config_privileged [OF _ fs] show ?thesis by (simp add: skip_slash_def)
qed

text \<open>C40: five rules never apply, although the tables are meant to name the most specific path
  first: the rule for \<open>data/app\<close> comes before the one for \<open>data/app-private\<close>, the one for \<open>data/misc\<close>
  before those for the private directories of DHCP and of shared relocations below it,
  \<open>data/media\<close> before \<open>data/media/Music\<close>, and the wildcard \<open>sbin/*\<close> before \<open>sbin/fs_mgr\<close>. Every
  other rule decides some path.\<close>
theorem fs_config_dead_rules:
  assumes "pc \<in> set (fs_rules dir)"
  shows "(\<exists>path. CHR 0x00 \<notin> set path \<and>
      find_rule (dir \<noteq> 0) (skip_slash path) (fs_rules dir) = Some pc) \<longleftrightarrow>
    fs_prefix pc \<notin> Some ` set (if dir \<noteq> 0
      then [''data/app-private'', ''data/misc/dhcp'', ''data/misc/shared_relro'', ''data/media/Music'']
      else [''sbin/fs_mgr''])" (is "?decides \<longleftrightarrow> fs_prefix pc \<notin> Some ` set ?dead")
proof -
  have dead: "?dead = dead_rules dir" by (simp add: dead_rules_def dead_dirs_def dead_files_def)
  note find = find_rule_find [OF rules_ok]
  have "?decides" if "fs_prefix pc \<notin> Some ` set (dead_rules dir)"
    using live_rules [OF assms] that find by (intro exI [of _ "own_path pc"]) (simp add: live_def)
  moreover have "fs_prefix pc \<notin> Some ` set (dead_rules dir)" if decides: ?decides
  proof
    assume dead: "fs_prefix pc \<in> Some ` set (dead_rules dir)"
    obtain path where path: "CHR 0x00 \<notin> set path"
      and "find_rule (dir \<noteq> 0) (skip_slash path) (fs_rules dir) = Some pc" using decides by blast
    then have "find (covers (dir \<noteq> 0) (skip_slash path)) (fs_rules dir) = Some pc"
      by (simp add: find [OF skip_slash_nul])
    from find_split [OF this] obtain us vs where rules: "fs_rules dir = us @ pc # vs"
      and cov: "covers (dir \<noteq> 0) (skip_slash path) pc"
      and first: "\<forall>u\<in>set us. \<not> covers (dir \<noteq> 0) (skip_slash path) u" by blast
    obtain u where "u \<in> set us" "dominates (dir \<noteq> 0) u pc"
      using shadowed_split [OF shadowed_rules [of dir, unfolded rules] dead] by auto
    with cov first show False by (blast dest: dominates_covers)
  qed
  ultimately show ?thesis unfolding dead by blast
qed

theorem fs_config_dead_rules_witness:
  "find_rule True ''data/misc/dhcp'' (fs_rules 1) \<noteq>
     Some (rule ([0, 0, 7, 7, 0], AID_DHCP, AID_DHCP, 0, ''data/misc/dhcp''))"
proof -
  let ?pc = "rule ([0, 0, 7, 7, 0], AID_DHCP, AID_DHCP, 0, ''data/misc/dhcp'')"
  have "?pc \<in> set (fs_rules 1)" by (simp add: fs_rules_def android_dirs_def)
  from fs_config_dead_rules [OF this]
  have "\<nexists>path. CHR 0x00 \<notin> set path \<and> find_rule True (skip_slash path) (fs_rules 1) = Some ?pc"
    by simp
  then show ?thesis by (auto simp: skip_slash_def dest!: spec [of _ "''data/misc/dhcp''"])
qed

subsection \<open>Capability words\<close>

lemma cap_mod: "x AND 31 = x mod (32 :: int)"
  using take_bit_eq_mask [of 5 x] by (simp add: take_bit_eq_mod mask_eq_exp_minus_1)

lemma cap_index: "CAP_TO_INDEX x = x div 32"
  by (simp add: CAP_TO_INDEX_def drop_bit_eq_div)

lemma cap_place:
  assumes "cap_valid x"
  shows "nat (x mod 32) < 32" and "32 * nat (x div 32) + nat (x mod 32) = nat x" and "x div 32 \<in> {0..<2}"
proof -
  have "0 \<le> x" "x \<le> 35" using assms by (simp_all add: cap_valid_def CAP_LAST_CAP_def CAP_WAKE_ALARM_def)
  then show "nat (x mod 32) < 32" "32 * nat (x div 32) + nat (x mod 32) = nat x" "x div 32 \<in> {0..<2}"
    by (auto intro!: int_int_eq [THEN iffD1])
qed

lemma bit_CAP_TO_MASK: "cap_valid x \<Longrightarrow> bit (CAP_TO_MASK x) n \<longleftrightarrow> n = nat (x mod 32)"
  using cap_place(1) [of x] by (auto simp: CAP_TO_MASK_def cap_mod bit_simps)

lemma and_cap_mask:
  assumes "cap_valid x"
  shows "w AND CAP_TO_MASK x \<noteq> 0 \<longleftrightarrow> bit w (nat (x mod 32))"
proof -
  have "w AND CAP_TO_MASK x = (if bit w (nat (x mod 32)) then CAP_TO_MASK x else 0)"
    using assms by (intro bit_eqI) (auto simp: bit_CAP_TO_MASK bit_and_iff)
  moreover have "CAP_TO_MASK x \<noteq> 0"
    using bit_CAP_TO_MASK [OF assms, of "nat (x mod 32)"] by auto
  ultimately show ?thesis by simp
qed

text \<open>The macros \<open>CAP_TO_INDEX\<close> and \<open>CAP_TO_MASK\<close> find every capability in the stored attribute:
  the index is one of its words, no two capabilities share a bit, and a rule's 64-bit set has
  the capability exactly if the word of the set with that index has the mask.\<close>
theorem capability_words:
  assumes "cap_valid x" and "cap_valid y"
  shows "0 \<le> CAP_TO_INDEX x \<and> nat (CAP_TO_INDEX x) < VFS_CAP_U32 \<and>
    (CAP_TO_INDEX x = CAP_TO_INDEX y \<and> CAP_TO_MASK x AND CAP_TO_MASK y \<noteq> 0 \<longleftrightarrow> x = y) \<and>
    (bit (fs_capabilities pc) (nat x) \<longleftrightarrow>
      ucast (drop_bit (32 * nat (CAP_TO_INDEX x)) (fs_capabilities pc)) AND CAP_TO_MASK x \<noteq> 0)"
proof (intro conjI)
  note x = cap_place [OF assms(1)] and y = cap_place [OF assms(2)]
  show "0 \<le> CAP_TO_INDEX x" "nat (CAP_TO_INDEX x) < VFS_CAP_U32"
    using x(3) by (auto simp: cap_index VFS_CAP_U32_def VFS_CAP_U32_2_def)
  show "CAP_TO_INDEX x = CAP_TO_INDEX y \<and> CAP_TO_MASK x AND CAP_TO_MASK y \<noteq> 0 \<longleftrightarrow> x = y"
  proof
    assume *: "CAP_TO_INDEX x = CAP_TO_INDEX y \<and> CAP_TO_MASK x AND CAP_TO_MASK y \<noteq> 0"
    then have "nat (x mod 32) = nat (y mod 32)" "x div 32 = y div 32"
      by (auto simp: and_cap_mask assms bit_CAP_TO_MASK cap_index)
    then show "x = y" using x(2) y(2) by (metis assms cap_valid_def eq_nat_nat_iff)
  next
    assume "x = y"
    then show "CAP_TO_INDEX x = CAP_TO_INDEX y \<and> CAP_TO_MASK x AND CAP_TO_MASK y \<noteq> 0"
      by (simp only: and_cap_mask [OF assms(2)] bit_CAP_TO_MASK [OF assms(2)])
  qed
  show "bit (fs_capabilities pc) (nat x) \<longleftrightarrow>
      ucast (drop_bit (32 * nat (CAP_TO_INDEX x)) (fs_capabilities pc)) AND CAP_TO_MASK x \<noteq> 0"
    using x by (simp add: and_cap_mask assms cap_index bit_simps)
qed

theorem capability_words_witness:
  "0 \<le> CAP_TO_INDEX CAP_SYSLOG \<and> nat (CAP_TO_INDEX CAP_SYSLOG) < VFS_CAP_U32 \<and>
   \<not> (CAP_TO_INDEX CAP_SYSLOG = CAP_TO_INDEX CAP_SETGID \<and> CAP_TO_MASK CAP_SYSLOG AND CAP_TO_MASK CAP_SETGID \<noteq> 0)"
  using capability_words [of CAP_SYSLOG CAP_SETGID "rule ([0], AID_ROOT, AID_ROOT, 0, [])"]
  by (simp add: cap_valid_def cap_numbers)

end
