(* ===== verification/Cpp_Runs.thy ===== *)
theory Cpp_Runs
  imports Cpp_Interop
begin

text \<open>
  Whole runs of the C++ client: against the C++ server and against the C server, and the C client
  against the C++ services. All keep to one specification, \<open>client_result\<close>.
\<close>

subsection \<open>What a run of the client does\<close>

abbreviation hello_name :: "byte list" where "hello_name \<equiv> [0x68, 0x65, 0x6C, 0x6C, 0x6F]"
abbreviation goodbye_name :: "byte list" where "goodbye_name \<equiv> [0x67, 0x6F, 0x6F, 0x64, 0x62, 0x79, 0x65]"

text \<open>The line logged and the counters afterwards.\<close>

definition client_result :: "byte list list \<Rightarrow> server_globals \<Rightarrow> client_log \<times> server_globals" where
  "client_result argv g =
     (if argv ! 1 = hello_name then
        if length argv < 3 then (Called_sayhello, g\<lparr>sayhello_cnt := sayhello_cnt g + 1\<rparr>)
        else (Called_sayhello_to (argv ! 2) (sayhello_to_cnt g + 1), g\<lparr>sayhello_to_cnt := sayhello_to_cnt g + 1\<rparr>)
      else
        if length argv < 3 then (Called_saygoodbye, g\<lparr>saygoodbye_cnt := saygoodbye_cnt g + 1\<rparr>)
        else (Called_saygoodbye_to (argv ! 2) (saygoodbye_to_cnt g + 1),
          g\<lparr>saygoodbye_to_cnt := saygoodbye_to_cnt g + 1\<rparr>))"

text \<open>The service manager finds the object for the name, and calls nobody.\<close>

definition finds ::
  "'p libbinder \<Rightarrow> (u16 list \<Rightarrow> 'w \<Rightarrow> ('p, 'w) remote option \<times> 'w) \<Rightarrow> ('w \<Rightarrow> server_globals) \<Rightarrow> byte list \<Rightarrow>
   ('p, 'w) remote \<Rightarrow> bool" where
  "finds lib getService count name transact \<longleftrightarrow>
     (\<forall>w. \<exists>w'. getService (String16 lib name) w = (Some transact, w') \<and> count w' = count w)"

lemma client_served:
  assumes laws: "parcel_laws lib contents unread" and limit: "limit \<le> 536870912"
    and hello: "serves contents unread limit th count bn_sayhello bn_sayhello_to"
    and goodbye: "serves contents unread limit tg count bn_saygoodbye bn_saygoodbye_to"
    and find: "finds lib getService count hello_name th" "finds lib getService count goodbye_name tg"
    and argv: "2 \<le> length argv" "3 \<le> length argv \<Longrightarrow> length (String16 lib (argv ! 2)) < limit"
  shows "\<exists>line w'. cpp_client_main lib getService argv w = Some (0, line, w') \<and>
    (line, count w') = client_result argv (count w)"
proof -
  obtain wh wg where got: "getService (String16 lib hello_name) w = (Some th, wh)" "count wh = count w"
      "getService (String16 lib goodbye_name) w = (Some tg, wg)" "count wg = count w"
    using find unfolding finds_def by metis
  have argc: "length argv \<noteq> 1" "length argv \<noteq> 0" using argv(1) by auto
  have to: "length argv < 3 \<or> apsnd count (bp_sayhello_to lib th (argv ! 2) wh) = bn_sayhello_to (argv ! 2) (count w)"
      "length argv < 3 \<or> apsnd count (bp_sayhello_to lib tg (argv ! 2) wg) = bn_saygoodbye_to (argv ! 2) (count w)"
    using served_to [OF hello laws argv(2) limit, of wh] served_to [OF goodbye laws argv(2) limit, of wg] got
    by (cases "length argv < 3"; simp add: not_less)+
  note plain = served_plain [OF hello laws, of wh] served_plain [OF goodbye laws, of wg]
  obtain n1 w1 n2 w2 where "bp_sayhello_to lib th (argv ! 2) wh = (n1, w1)" "bp_sayhello_to lib tg (argv ! 2) wg = (n2, w2)"
    by fastforce
  with argc got to plain show ?thesis
    by (auto simp: cpp_client_main_def client_result_def Let_def proxies_same counting_defs)
qed

subsection \<open>A library to run with\<close>

text \<open>Parcels as the bytes not yet read; names of ASCII characters.\<close>

fun decode16 :: "byte list \<Rightarrow> u16 list" where
  "decode16 (a # b # bs) = un16 a b # decode16 bs"
| "decode16 bs = []"

lemma decode16_enc16: "decode16 (enc16 us) = us"
  by (induction us) (simp_all add: le16_def un16_le16)

fun take_number :: "byte list \<Rightarrow> u32 \<times> byte list" where
  "take_number (a # b # c # d # bs) = (un32 a b c d, bs)"
| "take_number bs = (0, bs)"

definition take_string :: "byte list \<Rightarrow> u16 list \<times> byte list" where
  "take_string bs =
     (let (n, bs) = take_number bs; k = unat n
      in (decode16 (take (2 * k) bs), drop ((2 * Suc k + 3) div 4 * 4) bs))"

definition example_lib :: "byte list libbinder" where
  "example_lib = \<lparr>new_parcel = [], writeInt32 = (\<lambda>n p. p @ le32 n),
     writeString16 = (\<lambda>us p. p @ string_wire us (replicate (padding us) 0)),
     readInt32 = take_number, readString16 = take_string, String16 = map ucast, String8 = map ucast,
     BBinder_onTransact = (\<lambda>code data reply flags. (-74, data, reply)), NO_ERROR = 0\<rparr>"

lemma take_number_le32: "take_number (le32 n @ bs) = (n, bs)"
  by (simp add: le32_def un32_le32)

lemma take_string_wire:
  assumes "length us < 536870912" and "length pad = padding us"
  shows "take_string (string_wire us pad @ bs) = (us, bs)"
proof -
  have n: "unat (of_nat (length us) :: u32) = length us" using assms(1) by (simp add: unat_of_nat_small)
  have "length (enc16 (us @ [0]) @ pad) = (2 * Suc (length us) + 3) div 4 * 4"
    using assms(2) by (simp add: padding_def)
  then have "drop ((2 * Suc (length us) + 3) div 4 * 4) ((enc16 (us @ [0]) @ pad) @ bs) = bs" by simp
  moreover have "enc16 (us @ [0]) = enc16 us @ le16 0" by (induction us) simp_all
  then have "take (2 * length us) (enc16 (us @ [0]) @ pad @ bs) = enc16 us" by simp
  ultimately show ?thesis
    by (simp add: take_string_def string_wire_def take_number_le32 n decode16_enc16)
qed

lemma example_laws: "parcel_laws example_lib id id"
  by (auto simp: parcel_laws_def example_lib_def take_number_le32 take_string_wire intro!: exI [of _ "replicate n 0" for n])

text \<open>A binder straight to the C++ object, and one to a handler of the C server: the driver puts the
  bytes at \<open>0x80000\<close> and the transaction at \<open>0x1004\<close>.\<close>

definition link_cpp :: "bn_object \<Rightarrow> (byte list, server_globals) remote" where
  "link_cpp bn code data reply g =
     (let ((st, q, rep), g) = onTransact example_lib bn code data [] 0 g in (st, rep, g))"

definition sent_txn :: "u32 \<Rightarrow> byte list \<Rightarrow> binder_transaction_data" where
  "sent_txn code bs = \<lparr>txn_target = 0, txn_cookie = 0, txn_code = code, txn_flags = 0, txn_sender_pid = 0,
     txn_sender_euid = 1000, txn_data_size = of_nat (length bs), txn_offsets_size = 0,
     txn_buffer = 0x80000, txn_offsets = 0\<rparr>"

definition with_call :: "u32 \<Rightarrow> byte list \<Rightarrow> 'g process \<Rightarrow> 'g process" where
  "with_call code bs p = p\<lparr>pmem :=
     store_bytes (store_bytes (pmem p) 0x80000 bs) 0x1004 (encode_txn (sent_txn code bs))\<rparr>"

definition link_c :: "server_globals binder_handler \<Rightarrow> (byte list, server_globals process) remote" where
  "link_c handler code data reply p =
     (let p1 = with_call code data p in
      case handler example_bs 0x1004 (msg_for hello_image 0x1004 p1) (reply_for hello_image) p1 of
        Some (Some (res, rest, rep), p2) \<Rightarrow> (res, message_bytes (rep, pmem p2), p2)
      | _ \<Rightarrow> (-1, [], p))"

lemma link_cpp_reaches: "reaches example_lib id id bn (link_cpp bn)"
  unfolding reaches_def
proof (intro allI)
  fix code :: u32 and data reply :: "byte list" and g
  show "\<exists>q e. id q = id data \<and> id e = [] \<and>
      (\<forall>q' rep g'. onTransact example_lib bn code q e 0 g = ((NO_ERROR example_lib, q', rep), g') \<longrightarrow>
        (\<exists>r. link_cpp bn code data reply g = (NO_ERROR example_lib, r, g') \<and> id r = id rep))"
    by (intro exI [of _ data] exI [of _ "[]"]) (auto simp: link_cpp_def)
qed

lemma with_call_arrives:
  assumes "length bs \<le> 2048"
  shows "arrives bs (load_txn (pmem (with_call code bs p)) 0x1004) (pmem (with_call code bs p))"
    and "txn_code (load_txn (pmem (with_call code bs p)) 0x1004) = code"
    and "globals (with_call code bs p) = globals p"
proof -
  let ?m = "store_bytes (pmem p) 0x80000 bs"
  have t: "load_txn (pmem (with_call code bs p)) 0x1004 = sent_txn code bs"
    by (simp add: with_call_def load_txn_store no_wrap_def)
  then show "txn_code (load_txn (pmem (with_call code bs p)) 0x1004) = code" by (simp add: sent_txn_def)
  have "agree_on (- region 0x1004 40) ?m (store_bytes ?m 0x1004 (encode_txn (sent_txn code bs)))"
    by (rule agree_on_store_bytes) (simp_all add: no_wrap_def)
  then have "agree_on (- region 0x1004 40) ?m (pmem (with_call code bs p))" by (simp add: with_call_def)
  then have "load_bytes (pmem (with_call code bs p)) 0x80000 (length bs) = load_bytes ?m 0x80000 (length bs)"
    by (rule load_bytes_agree) (use assms in \<open>auto simp: in_region no_wrap_def\<close>)
  also have "\<dots> = bs" using assms by (intro load_bytes_store_same) (simp add: no_wrap_def)
  finally show "arrives bs (load_txn (pmem (with_call code bs p)) 0x1004) (pmem (with_call code bs p))"
    unfolding t using assms by (simp add: arrives_def sent_txn_def)
qed (simp add: with_call_def)

lemma link_c_reaches: "reaches_c example_lib id id 2048 hello_image h example_bs 0x1004 (link_c h)"
  unfolding reaches_c_def
proof (intro allI impI)
  fix code :: u32 and data reply :: "byte list" and p
  assume "length (id data) \<le> 2048"
  then have n: "length data \<le> 2048" by simp
  show "\<exists>p1. globals p1 = globals p \<and> txn_code (load_txn (pmem p1) 0x1004) = code \<and>
      arrives (id data) (load_txn (pmem p1) 0x1004) (pmem p1) \<and>
      (\<forall>rest rep p2. h example_bs 0x1004 (msg_for hello_image 0x1004 p1) (reply_for hello_image) p1 = returns (0, rest, rep) p2 \<longrightarrow>
        (\<exists>q p3. link_c h code data reply p = (NO_ERROR example_lib, q, p3) \<and> globals p3 = globals p2 \<and>
          id q = message_bytes (rep, pmem p2)))"
    using with_call_arrives [OF n, of code p]
    by (intro exI [of _ "with_call code data p"]) (auto simp: link_c_def example_lib_def returns_def)
qed

text \<open>Every client finds both services.\<close>

definition link_services ::
  "('p, 'w) remote \<Rightarrow> ('p, 'w) remote \<Rightarrow> u16 list \<Rightarrow> 'w \<Rightarrow> ('p, 'w) remote option \<times> 'w" where
  "link_services th tg name w = (if name = map ucast hello_name then Some th
     else if name = map ucast goodbye_name then Some tg else None, w)"

lemma link_services_finds:
  "finds example_lib (link_services th tg) count hello_name th"
  "finds example_lib (link_services th tg) count goodbye_name tg"
  by (simp_all add: finds_def link_services_def example_lib_def)

text \<open>The C++ server registers its two objects and goes on whatever the service manager answers.\<close>

lemma cpp_server_registers:
  "cpp_server_main lib (\<lambda>name bn w. (answer name, w @ [(name, bn)])) (\<lambda>w. w) Some w =
     Some (0, w @ [(String16 lib hello_name, BnHelloService), (String16 lib goodbye_name, BnGoodbyeService)])"
  by (simp add: cpp_server_main_def)

text \<open>The code of the C client for a call with a name, and what the call is to do.\<close>

fun to_code :: "bn_object \<Rightarrow> u32" where
  "to_code BnHelloService = HELLO_SVR_CMD_SAYHELLO_TO"
| "to_code BnGoodbyeService = HELLO_SVR_CMD_SAYGOODBYE_TO"

fun to_result :: "bn_object \<Rightarrow> server_globals \<Rightarrow> u32 \<times> server_globals" where
  "to_result BnHelloService g = (sayhello_to_cnt g + 1, g\<lparr>sayhello_to_cnt := sayhello_to_cnt g + 1\<rparr>)"
| "to_result BnGoodbyeService g = (saygoodbye_to_cnt g + 1, g\<lparr>saygoodbye_to_cnt := saygoodbye_to_cnt g + 1\<rparr>)"

subsection \<open>Properties\<close>

text \<open>C31: the C++ client against the C++ server, through proxy, parcels, driver and \<open>onTransact\<close>: with at
  least one argument, the client returns 0; the service its first argument names counts exactly
  this call, and what the client logs for a name is the number of such calls so far.\<close>
theorem cpp_client_cpp_server:
  assumes laws: "parcel_laws lib contents unread"
    and hello: "reaches lib contents unread BnHelloService th"
    and goodbye: "reaches lib contents unread BnGoodbyeService tg"
    and find: "finds lib getService (\<lambda>g. g) hello_name th" "finds lib getService (\<lambda>g. g) goodbye_name tg"
    and argv: "2 \<le> length argv" "3 \<le> length argv \<Longrightarrow> length (String16 lib (argv ! 2)) < 536870912"
  shows "cpp_client_main lib getService argv g =
    Some (0, fst (client_result argv g), snd (client_result argv g))"
  using client_served [OF laws order_refl hello.reaches_serves [OF laws hello]
      goodbye.reaches_serves [OF laws goodbye] find argv, of g] by (auto simp: prod_eq_iff)

theorem cpp_client_cpp_server_witness:
  "cpp_client_main example_lib (link_services (link_cpp BnHelloService) (link_cpp BnGoodbyeService))
     [[], hello_name, [0x79, 0x6F]] \<lparr>sayhello_cnt = 0, sayhello_to_cnt = 6, saygoodbye_cnt = 0, saygoodbye_to_cnt = 0\<rparr> =
   Some (0, Called_sayhello_to [0x79, 0x6F] 7,
     \<lparr>sayhello_cnt = 0, sayhello_to_cnt = 7, saygoodbye_cnt = 0, saygoodbye_to_cnt = 0\<rparr>)"
  by (subst cpp_client_cpp_server [OF example_laws link_cpp_reaches link_cpp_reaches link_services_finds])
    (simp_all add: client_result_def example_lib_def)

text \<open>C32: the C++ client works with the C server: messages and replies have the same bytes and the
  same codes, so that a call from C++ is counted by the C handler and its reply read by the
  proxy, for names of fewer than 512 units, which is what the handler has room for.\<close>
theorem cpp_client_c_server:
  assumes laws: "parcel_laws lib contents unread" and im: "rdata_ok im" and junk: "length junk = 512"
    and limit: "2048 \<le> limit"
    and hello: "reaches_c lib contents unread limit im (hello_service_handler junk) bs txn th"
    and goodbye: "reaches_c lib contents unread limit im (goodbye_service_handler junk) bs txn tg"
    and find: "finds lib getService globals hello_name th" "finds lib getService globals goodbye_name tg"
    and argv: "2 \<le> length argv" "3 \<le> length argv \<Longrightarrow> length (String16 lib (argv ! 2)) < 512"
  shows "\<exists>line p'. cpp_client_main lib getService argv p = Some (0, line, p') \<and>
    (line, globals p') = client_result argv (globals p)"
  by (rule client_served [OF laws _ hello.reaches_c_serves [OF laws im junk limit hello]
        goodbye.reaches_c_serves [OF laws im junk limit goodbye] find argv]) simp_all

theorem cpp_client_c_server_witness:
  "\<exists>p'. cpp_client_main example_lib
      (link_services (link_c (hello_service_handler (replicate 512 0))) (link_c (goodbye_service_handler (replicate 512 0))))
      [[], hello_name, [0x79, 0x6F]] (hello_process 2) = Some (0, Called_sayhello_to [0x79, 0x6F] 7, p') \<and>
    sayhello_to_cnt (globals p') = 7"
proof -
  have image: "rdata_ok hello_image" by (simp add: rdata_ok_def hello_image_def)
  have junk: "length (replicate 512 (0 :: byte)) = 512" by simp
  from cpp_client_c_server [OF example_laws image junk order_refl link_c_reaches link_c_reaches link_services_finds,
      where argv = "[[], hello_name, [0x79, 0x6F]]" and p = "hello_process 2"]
  show ?thesis by (auto simp: client_result_def example_lib_def hello_process_def)
qed

text \<open>C33: the C client works with the C++ services: the message it builds for a name of fewer than
  244 characters is read by \<open>onTransact\<close> of either service, which counts the call and returns
  \<open>NO_ERROR\<close>, and the C client reads the new count from the bytes of the reply. With
  \<open>cpp_client_c_server\<close> this is the promise of \<open>cpp/readme.txt\<close> that servers and clients of the two
  languages can be exchanged.\<close>
theorem c_client_cpp_server:
  assumes laws: "parcel_laws lib contents unread"
    and "iodata_ok (caller_iodata im)" and "name_in m (caller_iodata im) a s" and len: "length s < 244"
  shows "\<exists>msg m1. name_msg im a m = Some (msg, m1) \<and>
    (\<forall>bn q e flags g. unread q = message_bytes (msg, m1) \<and> contents e = [] \<longrightarrow>
       (\<exists>q' rep. onTransact lib bn (to_code bn) q e flags g = ((NO_ERROR lib, q', rep), snd (to_result bn g)) \<and>
          (\<forall>t mr r. arrives (contents rep) t mr \<longrightarrow>
             fst (bio_get_uint32 mr (bio_init_from_txn r t)) = fst (to_result bn g))))"
proof -
  obtain msg m1 pad where msg: "name_msg im a m = Some (msg, m1)" and pad: "length pad = padding (map ucast s)"
    and bytes: "message_bytes (msg, m1) = le32 0 @ string_wire (map ucast s) pad"
    using name_msg_bytes [OF assms(2-4)] by blast
  have "\<exists>q' rep. onTransact lib bn (to_code bn) q e flags g = ((NO_ERROR lib, q', rep), snd (to_result bn g)) \<and>
      (\<forall>t mr r. arrives (contents rep) t mr \<longrightarrow> fst (bio_get_uint32 mr (bio_init_from_txn r t)) = fst (to_result bn g))"
    if q: "unread q = message_bytes (msg, m1)" and e: "contents e = []" for bn q e flags g
  proof -
    have us: "length (map ucast s :: u16 list) < 536870912" "unread q = le32 0 @ string_wire (map ucast s) pad"
      using len q bytes by simp_all
    note to = hello.transact_to [OF laws us(1) pad us(2) e] goodbye.transact_to [OF laws us(1) pad us(2) e]
    have "\<exists>q' rep. onTransact lib bn (to_code bn) q e flags g = ((NO_ERROR lib, q', rep), snd (to_result bn g)) \<and>
        contents rep = le32 (fst (to_result bn g)) @ []"
      using to [of _ g "fst (to_result bn g)" "snd (to_result bn g)" flags]
      by (cases bn) (simp_all add: counting_defs code_numbers Let_def)
    then obtain q' rep where "onTransact lib bn (to_code bn) q e flags g = ((NO_ERROR lib, q', rep), snd (to_result bn g))"
      and "contents rep = le32 (fst (to_result bn g)) @ []" by blast
    moreover have "fst (bio_get_uint32 mr (bio_init_from_txn r t)) = n" if "arrives (le32 n @ []) t mr" for n t mr r
      using get_number(1) [OF arrives_at [OF that]] by simp
    ultimately show ?thesis by auto
  qed
  with msg show ?thesis by blast
qed

theorem c_client_cpp_server_witness:
  "\<exists>msg m1. name_msg client_image 0x81100 (client_mem [0x79, 0x6F]) = Some (msg, m1) \<and>
     (\<exists>q' rep g'. onTransact example_lib BnHelloService HELLO_SVR_CMD_SAYHELLO_TO (message_bytes (msg, m1)) [] 0
          \<lparr>sayhello_cnt = 0, sayhello_to_cnt = 6, saygoodbye_cnt = 0, saygoodbye_to_cnt = 0\<rparr> = ((0, q', rep), g') \<and>
        sayhello_to_cnt g' = 7)"
proof -
  let ?g = "\<lparr>sayhello_cnt = 0, sayhello_to_cnt = 6, saygoodbye_cnt = 0, saygoodbye_to_cnt = 0\<rparr>"
  obtain msg m1 where "name_msg client_image 0x81100 (client_mem [0x79, 0x6F]) = Some (msg, m1)"
    and served: "\<And>bn q e flags g. id q = message_bytes (msg, m1) \<and> id e = [] \<longrightarrow>
       (\<exists>q' rep. onTransact example_lib bn (to_code bn) q e flags g = ((NO_ERROR example_lib, q', rep), snd (to_result bn g)))"
    using c_client_cpp_server [OF example_laws client_iodata(1) client_names(4)] by fastforce
  moreover have "NO_ERROR example_lib = 0" by (simp add: example_lib_def)
  ultimately show ?thesis using served [of "message_bytes (msg, m1)" "[]" BnHelloService 0 ?g] by fastforce
qed

text \<open>The C++ client hides a failed call: whatever status \<open>transact\<close> returns, when the reply is empty
  the client reports the count 0 as if the service had answered, and its exit status is 0.\<close>
theorem cpp_client_hides_failure:
  assumes "parcel_laws lib contents unread"
    and "getService (String16 lib hello_name) w = (Some transact, w1)"
    and "transact HELLO_SVR_CMD_SAYHELLO_TO_cpp (name_parcel lib name) (new_parcel lib) w1 = (status, reply, w2)"
    and "unread reply = []"
  shows "cpp_client_main lib getService [prog, hello_name, name] w = Some (0, Called_sayhello_to name 0, w2)"
proof -
  have "fst (readInt32 lib reply) = 0" using assms(1,4) unfolding parcel_laws_def by blast
  with assms(2,3) show ?thesis
    by (simp add: cpp_client_main_def bp_sayhello_to_def name_parcel_def plain_parcel_def)
qed

theorem cpp_client_hides_failure_witness:
  "cpp_client_main example_lib (\<lambda>name w. (Some (\<lambda>code data reply w. (-32, [], w)), w)) [[], hello_name, [0x79]] () =
   Some (0, Called_sayhello_to [0x79] 0, ())"
  by (rule cpp_client_hides_failure [OF example_laws refl refl]) simp

end
