(* ===== verification/Counter_Threads.thy ===== *)
theory Counter_Threads
  imports Test_Server
begin

text \<open>
  \<open>sayhello_to\<close> when several threads of a server run it: \<open>test_server.c\<close> lets the driver ask for up to
  ten threads (\<open>binder_set_maxthreads\<close>, \<open>BR_SPAWN_LOOPER\<close>) beside its own, and the C++ server runs a
  thread pool. The number \<open>k\<close> of threads is a parameter, 11 for \<open>test_server.c\<close>. The static counter is neither locked nor atomic. A call reads it, writes the successor and prints
  the value read, and reads it again for the result; other threads may run in between. (A data
  race is undefined behaviour in the language standards; this is what the compiled code does when
  each access to the aligned \<open>int\<close> is one.) \<open>saygoodbye_to\<close> is the same code.
\<close>

subsection \<open>The threads\<close>

text \<open>Where a thread is: outside, after the first read, after the write.\<close>

datatype at = Outside | Has_read u32 | Has_counted

text \<open>\<open>counted\<close> is the number of writes so far; \<open>shown\<close> is what was printed, \<open>results\<close> what was returned.\<close>

record counter =
  cnt :: u32
  threads_at :: "nat \<Rightarrow> at"
  counted :: nat
  shown :: "u32 list"
  results :: "u32 list"

inductive call_step :: "nat \<Rightarrow> counter \<Rightarrow> counter \<Rightarrow> bool" where
  reads: "threads_at s t = Outside \<Longrightarrow>
    call_step t s (s\<lparr>threads_at := (threads_at s)(t := Has_read (cnt s))\<rparr>)"
| counts: "threads_at s t = Has_read r \<Longrightarrow>
    call_step t s (s\<lparr>cnt := r + 1, counted := Suc (counted s), shown := shown s @ [r],
      threads_at := (threads_at s)(t := Has_counted)\<rparr>)"
| answers: "threads_at s t = Has_counted \<Longrightarrow>
    call_step t s (s\<lparr>results := results s @ [cnt s], threads_at := (threads_at s)(t := Outside)\<rparr>)"

inductive_cases call_stepE: "call_step t s s'"

definition fresh_counter :: counter where
  "fresh_counter = \<lparr>cnt = 0, threads_at = (\<lambda>t. Outside), counted = 0, shown = [], results = []\<rparr>"

text \<open>Any of the \<open>k\<close> threads, which are numbered from 0, may take the next step.\<close>

inductive reached :: "nat \<Rightarrow> counter \<Rightarrow> bool" for k where
  start: "reached k fresh_counter"
| step: "reached k s \<Longrightarrow> t < k \<Longrightarrow> call_step t s s' \<Longrightarrow> reached k s'"

subsection \<open>What is never exceeded\<close>

definition in_range :: "nat \<Rightarrow> u32 \<Rightarrow> bool" where
  "in_range n v \<longleftrightarrow> 0 < unat v \<and> unat v \<le> n"

definition counter_inv :: "counter \<Rightarrow> bool" where
  "counter_inv s \<longleftrightarrow> unat (cnt s) \<le> counted s \<and> (0 < counted s \<longrightarrow> 0 < unat (cnt s)) \<and>
     (\<forall>t r. threads_at s t = Has_read r \<longrightarrow> unat r \<le> counted s) \<and>
     (\<forall>t. threads_at s t = Has_counted \<longrightarrow> 0 < counted s) \<and>
     (\<forall>v\<in>set (results s). in_range (counted s) v)"

lemma in_range_mono: "in_range n v \<Longrightarrow> n \<le> m \<Longrightarrow> in_range m v"
  by (simp add: in_range_def)

lemma counter_inv_step:
  assumes "call_step t s s'" and "counter_inv s" and "counted s' < 4294967296"
  shows "counter_inv s'"
proof -
  have succ: "unat (r + 1) = unat r + 1" if "unat r \<le> counted s" "counted s + 1 < 4294967296" for r :: u32
    using that by (subst unat_add_nowrap) simp_all
  from assms(1) show ?thesis
  proof (rule call_stepE, goal_cases)
    case 1
    with assms(2) show ?thesis by (auto simp: counter_inv_def split: if_splits)
  next
    case (2 r)
    then have r: "unat r \<le> counted s" "counted s + 1 < 4294967296" using assms(2,3) by (auto simp: counter_inv_def)
    from succ [OF r] r(1) 2 assms(2) show ?thesis
      by (auto simp: counter_inv_def intro: in_range_mono le_SucI split: if_splits)
  next
    case 3
    with assms(2) show ?thesis by (auto simp: counter_inv_def in_range_def split: if_splits)
  qed
qed

lemma counted_mono: "call_step t s s' \<Longrightarrow> counted s \<le> counted s'"
  by (auto elim: call_stepE)

lemma reached_inv: "reached k s \<Longrightarrow> counted s < 4294967296 \<Longrightarrow> counter_inv s"
proof (induction rule: reached.induct)
  case start
  then show ?case by (simp add: counter_inv_def fresh_counter_def)
next
  case (step s t s')
  then have "counted s < 4294967296" using counted_mono by (meson le_less_trans)
  with step show ?case by (blast intro: counter_inv_step)
qed

subsection \<open>Undisturbed calls\<close>

text \<open>A call that no other thread disturbs is \<open>sayhello_to\<close>.\<close>

inductive whole_call :: "nat \<Rightarrow> counter \<Rightarrow> counter \<Rightarrow> bool" where
  "call_step t s s1 \<Longrightarrow> call_step t s1 s2 \<Longrightarrow> call_step t s2 s' \<Longrightarrow> threads_at s t = Outside \<Longrightarrow> whole_call t s s'"

lemma whole_call:
  "whole_call t s s' \<longleftrightarrow> threads_at s t = Outside \<and>
     s' = s\<lparr>cnt := cnt s + 1, counted := Suc (counted s), shown := shown s @ [cnt s],
       results := results s @ [cnt s + 1]\<rparr>" (is "_ \<longleftrightarrow> _ \<and> s' = ?end")
proof
  assume "whole_call t s s'"
  then show "threads_at s t = Outside \<and> s' = ?end"
    by (cases s) (auto elim!: whole_call.cases call_stepE simp: fun_upd_idem)
next
  assume end_: "threads_at s t = Outside \<and> s' = ?end"
  let ?s1 = "s\<lparr>threads_at := (threads_at s)(t := Has_read (cnt s))\<rparr>"
  let ?s2 = "s\<lparr>cnt := cnt s + 1, counted := Suc (counted s), shown := shown s @ [cnt s],
      threads_at := (threads_at s)(t := Has_counted)\<rparr>"
  have "call_step t s ?s1" using end_ by (intro reads) simp
  moreover have "call_step t ?s1 ?s2" using counts [of ?s1 t "cnt s"] by simp
  moreover have "call_step t ?s2 s'" using answers [of ?s2 t] end_ by (simp add: fun_upd_idem)
  ultimately show "whole_call t s s'" using end_ by (blast intro: whole_call.intros)
qed

primrec whole_calls :: "nat list \<Rightarrow> counter \<Rightarrow> counter \<Rightarrow> bool" where
  "whole_calls [] s s' = (s' = s)"
| "whole_calls (t # ts) s s' = (\<exists>s1. whole_call t s s1 \<and> whole_calls ts s1 s')"

lemma whole_calls_results:
  "whole_calls ts s s' \<Longrightarrow> cnt s' = cnt s + of_nat (length ts) \<and>
     results s' = results s @ map (\<lambda>i. cnt s + of_nat (Suc i)) [0..<length ts]"
proof (induction ts arbitrary: s)
  case (Cons t ts)
  then obtain s1 where s1: "whole_call t s s1" "whole_calls ts s1 s'" by auto
  from Cons.IH [OF s1(2)] s1(1) show ?case
    by (simp add: whole_call map_upt_Suc add.assoc del: upt_Suc)
qed simp

subsection \<open>Disturbed calls\<close>

text \<open>\<open>n\<close> threads read the counter before any of them writes it.\<close>

definition all_read :: "nat \<Rightarrow> counter" where
  "all_read n = fresh_counter\<lparr>threads_at := (\<lambda>t. if t < n then Has_read 0 else Outside)\<rparr>"

definition all_counted :: "nat \<Rightarrow> nat \<Rightarrow> counter" where
  "all_counted n k = \<lparr>cnt = (if k = 0 then 0 else 1),
     threads_at = (\<lambda>t. if t < k then Has_counted else if t < n then Has_read 0 else Outside),
     counted = k, shown = replicate k 0, results = []\<rparr>"

definition all_answered :: "nat \<Rightarrow> nat \<Rightarrow> counter" where
  "all_answered n k = \<lparr>cnt = 1, threads_at = (\<lambda>t. if k \<le> t \<and> t < n then Has_counted else Outside),
     counted = n, shown = replicate n 0, results = replicate k 1\<rparr>"

lemma all_read_reached: "n \<le> k \<Longrightarrow> reached k (all_read n)"
proof (induction n)
  case 0
  then show ?case using reached.start by (simp add: all_read_def fresh_counter_def)
next
  case (Suc n)
  have "all_read (Suc n) = (all_read n)\<lparr>threads_at := (threads_at (all_read n))(n := Has_read (cnt (all_read n)))\<rparr>"
    by (auto simp: all_read_def fresh_counter_def fun_eq_iff)
  moreover have "call_step n (all_read n)
      ((all_read n)\<lparr>threads_at := (threads_at (all_read n))(n := Has_read (cnt (all_read n)))\<rparr>)"
    by (rule reads) (simp add: all_read_def)
  ultimately show ?case using Suc reached.step [of k "all_read n" n] by (simp add: Suc_le_eq less_imp_le)
qed

lemma all_counted_reached: "n \<le> k \<Longrightarrow> i \<le> n \<Longrightarrow> reached k (all_counted n i)"
proof (induction i)
  case 0
  then show ?case using all_read_reached [of n k] by (simp add: all_read_def all_counted_def fresh_counter_def)
next
  case (Suc i)
  let ?s = "all_counted n i"
  have "call_step i ?s (?s\<lparr>cnt := 0 + 1, counted := Suc (counted ?s), shown := shown ?s @ [0],
      threads_at := (threads_at ?s)(i := Has_counted)\<rparr>)"
    using Suc.prems by (intro counts) (simp add: all_counted_def)
  moreover have "?s\<lparr>cnt := 0 + 1, counted := Suc (counted ?s), shown := shown ?s @ [0],
      threads_at := (threads_at ?s)(i := Has_counted)\<rparr> = all_counted n (Suc i)"
    using Suc.prems by (auto simp: all_counted_def fun_eq_iff replicate_append_same)
  ultimately show ?case using Suc reached.step [of k ?s i] by simp
qed

lemma all_answered_reached: "0 < n \<Longrightarrow> n \<le> k \<Longrightarrow> i \<le> n \<Longrightarrow> reached k (all_answered n i)"
proof (induction i)
  case 0
  then show ?case using all_counted_reached [of n k n]
    by (simp add: all_counted_def all_answered_def cong: if_cong)
next
  case (Suc i)
  let ?s = "all_answered n i"
  have "call_step i ?s (?s\<lparr>results := results ?s @ [cnt ?s], threads_at := (threads_at ?s)(i := Outside)\<rparr>)"
    using Suc.prems by (intro answers) (simp add: all_answered_def)
  moreover have "?s\<lparr>results := results ?s @ [cnt ?s], threads_at := (threads_at ?s)(i := Outside)\<rparr> = all_answered n (Suc i)"
    using Suc.prems by (auto simp: all_answered_def fun_eq_iff replicate_append_same)
  ultimately show ?case using Suc reached.step [of k ?s i] by simp
qed

text \<open>One thread has read the counter and is held up while another one serves \<open>m\<close> whole calls.\<close>

definition held_up :: "nat \<Rightarrow> counter" where
  "held_up m = \<lparr>cnt = of_nat m, threads_at = (\<lambda>t. if t = 0 then Has_read 0 else Outside), counted = m,
     shown = map of_nat [0..<m], results = map (\<lambda>i. of_nat (Suc i)) [0..<m]\<rparr>"

lemma whole_call_reached: "whole_call t s s' \<Longrightarrow> reached k s \<Longrightarrow> t < k \<Longrightarrow> reached k s'"
  by (elim whole_call.cases) (metis reached.step)

lemma held_up_reached: "2 \<le> k \<Longrightarrow> reached k (held_up m)"
proof (induction m)
  case 0
  have "held_up 0 = all_read 1" by (auto simp: held_up_def all_read_def fresh_counter_def fun_eq_iff)
  with all_read_reached [of 1 k] 0 show ?case by simp
next
  case (Suc m)
  have "whole_call 1 (held_up m) (held_up (Suc m))"
    unfolding whole_call by (simp add: held_up_def add.commute)
  from whole_call_reached [OF this] Suc show ?case by simp
qed

definition overtaken :: "nat \<Rightarrow> counter" where
  "overtaken m = \<lparr>cnt = 1, threads_at = (\<lambda>t. Outside), counted = Suc m, shown = map of_nat [0..<m] @ [0],
     results = map (\<lambda>i. of_nat (Suc i)) [0..<m] @ [1]\<rparr>"

lemma overtaken_reached:
  assumes "2 \<le> k"
  shows "reached k (overtaken m)"
proof -
  define s1 where "s1 = (overtaken m)\<lparr>threads_at := (\<lambda>t. if t = 0 then Has_counted else Outside),
    results := map (\<lambda>i. of_nat (Suc i)) [0..<m]\<rparr>"
  have "call_step 0 (held_up m) s1"
    using counts [of "held_up m" 0 0] by (simp add: held_up_def s1_def overtaken_def fun_upd_def cong: if_cong)
  with held_up_reached [OF assms] assms reached.step [of k "held_up m" 0 s1] have "reached k s1" by simp
  moreover have "call_step 0 s1 (overtaken m)"
    using answers [of s1 0] by (simp add: s1_def overtaken_def fun_upd_def cong: if_cong)
  ultimately show ?thesis using assms reached.step [of k s1 0] by simp
qed

subsection \<open>Properties\<close>

text \<open>C35: however the calls of a server's threads are interleaved, before the counter has come around:
  no call returns more than the number of calls counted so far, nor zero, and the counter
  stays in the same range.\<close>
theorem counter_bounds:
  assumes "reached k s" and "counted s < 4294967296"
  shows "unat (cnt s) \<le> counted s \<and> (0 < counted s \<longrightarrow> 0 < unat (cnt s)) \<and>
    (\<forall>v\<in>set (results s). 0 < unat v \<and> unat v \<le> counted s)"
  using reached_inv [OF assms] by (simp add: counter_inv_def in_range_def)

theorem counter_bounds_witness:
  "unat (cnt (all_answered 2 2)) \<le> 2 \<and> 0 < unat (last (results (all_answered 2 2))) \<and>
   unat (last (results (all_answered 2 2))) \<le> 2"
proof -
  have "counted (all_answered 2 2) = 2" "last (results (all_answered 2 2)) \<in> set (results (all_answered 2 2))"
    by (simp_all add: all_answered_def)
  with counter_bounds [OF all_answered_reached [of 2 11 2]] show ?thesis by auto
qed

text \<open>C34: calls are lost when the threads of a pool run together: as many calls as there are threads can
  all return 1 and leave the counter at 1; and with two threads any number of calls can be lost, when
  one thread is overtaken between reading and writing: after any number of calls the counter can be
  1. One after the other, in whatever threads, calls return 1, 2, 3 and so on, each what
  \<open>sayhello_to\<close> returns.\<close>
theorem counter_loses_calls:
  assumes "2 \<le> k" and "0 < n"
  shows "(n \<le> k \<longrightarrow> (\<exists>s. reached k s \<and> (\<forall>t. threads_at s t = Outside) \<and> counted s = n \<and>
      results s = replicate n 1 \<and> cnt s = 1)) \<and>
    (\<exists>s. reached k s \<and> (\<forall>t. threads_at s t = Outside) \<and> counted s = n \<and> length (results s) = n \<and> cnt s = 1) \<and>
    (\<forall>ts s. length ts = n \<and> whole_calls ts fresh_counter s \<longrightarrow>
      results s = map (\<lambda>i. fst (sayhello_to name (g\<lparr>sayhello_to_cnt := of_nat i\<rparr>))) [0..<n] \<and> cnt s = of_nat n)"
proof (intro conjI allI impI)
  show "\<exists>s. reached k s \<and> (\<forall>t. threads_at s t = Outside) \<and> counted s = n \<and> results s = replicate n 1 \<and> cnt s = 1"
    if "n \<le> k"
    using all_answered_reached [OF assms(2) that order_refl]
    by (intro exI [of _ "all_answered n n"]) (simp add: all_answered_def)
  show "\<exists>s. reached k s \<and> (\<forall>t. threads_at s t = Outside) \<and> counted s = n \<and> length (results s) = n \<and> cnt s = 1"
    using overtaken_reached [OF assms(1), of "n - 1"] assms(2)
    by (intro exI [of _ "overtaken (n - 1)"]) (simp add: overtaken_def)
next
  fix ts s
  assume "length ts = n \<and> whole_calls ts fresh_counter s"
  with whole_calls_results [of ts fresh_counter s]
  show "results s = map (\<lambda>i. fst (sayhello_to name (g\<lparr>sayhello_to_cnt := of_nat i\<rparr>))) [0..<n]" "cnt s = of_nat n"
    by (simp_all add: fresh_counter_def sayhello_to_def Let_def add.commute)
qed

theorem counter_loses_calls_witness:
  "(\<exists>s. reached 11 s \<and> (\<forall>t. threads_at s t = Outside) \<and> counted s = 11 \<and> results s = replicate 11 1 \<and> cnt s = 1) \<and>
   (\<exists>s. reached 11 s \<and> (\<forall>t. threads_at s t = Outside) \<and> counted s = 1000 \<and> length (results s) = 1000 \<and> cnt s = 1)"
  using counter_loses_calls [of 11 11] counter_loses_calls [of 11 1000] by simp

end
