(* ===== verification/Led_Service.thy ===== *)
theory Led_Service
  imports Leds
begin

text \<open>
  \<open>android_kernel_modify/com_android_server_LedService.cpp\<close>: the JNI functions of the framework's
  \<open>LedService\<close>, on the same device as \<open>hal_001_led.c\<close>, of which they are a copy with other method
  names. What Java sees of either library is proved once, for any sequence of calls.
\<close>

subsection \<open>The library of the framework\<close>

text \<open>The functions of namespace \<open>android\<close>; \<open>fd\<close> is \<open>hal_fd\<close>.\<close>

definition android_ledopen :: "kenv \<Rightarrow> hal \<Rightarrow> int \<times> hal" where
  "android_ledopen env s =
     (let (r, s) = kcall env Dev_open s;
          s = s\<lparr>hal_fd := r\<rparr>
      in (if hal_fd s \<ge> 0 then 0 else -1, s))"

definition android_ledclose :: "kenv \<Rightarrow> hal \<Rightarrow> hal" where
  "android_ledclose env s = kdo env (Dev_close (hal_fd s)) s"

definition android_ledctrl :: "kenv \<Rightarrow> u32 \<Rightarrow> u32 \<Rightarrow> hal \<Rightarrow> int \<times> hal" where
  "android_ledctrl env which status s = (0, kdo env (Dev_ioctl (hal_fd s) status which) s)"

definition method_table :: "(string \<times> string \<times> native) list" where
  "method_table = [(''native_ledOpen'', ''()I'', Native_open), (''native_ledClose'', ''()V'', Native_close),
     (''native_ledCtrl'', ''(II)I'', Native_ctrl)]"

definition register_android_server_LedService :: "kenv \<Rightarrow> hal \<Rightarrow> int \<times> hal" where
  "register_android_server_LedService env s =
     kcall env (Jni_register ''com/android/server/LedService'' (map (\<lambda>(n, sig, f). (n, sig)) method_table)) s"

subsection \<open>Sessions\<close>

text \<open>A Java program calls the three methods in any order; \<open>ledClose\<close> returns nothing.\<close>

datatype java_call = Led_open | Led_close | Led_ctrl (which: u32) (status: u32)

primrec session ::
  "(kenv \<Rightarrow> hal \<Rightarrow> int \<times> hal) \<Rightarrow> (kenv \<Rightarrow> hal \<Rightarrow> hal) \<Rightarrow> (kenv \<Rightarrow> u32 \<Rightarrow> u32 \<Rightarrow> hal \<Rightarrow> int \<times> hal) \<Rightarrow>
   kenv \<Rightarrow> java_call list \<Rightarrow> hal \<Rightarrow> int option list \<times> hal" where
  "session opn cls ctl env [] s = ([], s)"
| "session opn cls ctl env (c # cs) s =
     (let (r, s) = (case c of
            Led_open \<Rightarrow> apfst Some (opn env s)
          | Led_close \<Rightarrow> (None, cls env s)
          | Led_ctrl w st \<Rightarrow> apfst Some (ctl env w st s));
          (rs, s) = session opn cls ctl env cs s
      in (r # rs, s))"

text \<open>What one call asks of the kernel, which answers \<open>r\<close>; \<open>fd\<close> is the descriptor in use.\<close>

primrec request :: "int \<Rightarrow> java_call \<Rightarrow> kcall" where
  "request fd Led_open = Dev_open"
| "request fd Led_close = Dev_close fd"
| "request fd (Led_ctrl w st) = Dev_ioctl fd st w"

primrec reported :: "java_call \<Rightarrow> int \<Rightarrow> int option" where
  "reported Led_open r = Some (if r \<ge> 0 then 0 else -1)"
| "reported Led_close r = None"
| "reported (Led_ctrl w st) r = Some 0"

text \<open>The requests of a session use the answer to the last \<open>open\<close> before them.\<close>

primrec follows :: "int \<Rightarrow> java_call list \<Rightarrow> (kcall \<times> int) list \<Rightarrow> bool" where
  "follows fd [] t = (t = [])"
| "follows fd (c # cs) t =
     (case t of
        [] \<Rightarrow> False
      | (k, r) # t \<Rightarrow> k = request fd c \<and> follows (if c = Led_open then r else fd) cs t)"

text \<open>The contract of a library: one request for each call, the result reported as above.\<close>

locale led_library =
  fixes opn :: "kenv \<Rightarrow> hal \<Rightarrow> int \<times> hal" and cls :: "kenv \<Rightarrow> hal \<Rightarrow> hal"
    and ctl :: "kenv \<Rightarrow> u32 \<Rightarrow> u32 \<Rightarrow> hal \<Rightarrow> int \<times> hal"
  assumes opn: "opn env s = (res, s') \<Longrightarrow>
      \<exists>r. ktrace s' = ktrace s @ [(Dev_open, r)] \<and> hal_fd s' = r \<and> Some res = reported Led_open r"
    and cls: "cls env s = s' \<Longrightarrow>
      \<exists>r. ktrace s' = ktrace s @ [(Dev_close (hal_fd s), r)] \<and> hal_fd s' = hal_fd s"
    and ctl: "ctl env w st s = (res, s') \<Longrightarrow>
      \<exists>r. ktrace s' = ktrace s @ [(Dev_ioctl (hal_fd s) st w, r)] \<and> hal_fd s' = hal_fd s \<and> res = 0"
begin

lemma session_follows:
  "session opn cls ctl env cs s = (rs, s') \<Longrightarrow>
   \<exists>t. ktrace s' = ktrace s @ t \<and> follows (hal_fd s) cs t \<and> rs = map2 reported cs (map snd t)"
proof (induction cs arbitrary: s rs)
  case (Cons c cs)
  let ?one = "case c of Led_open \<Rightarrow> apfst Some (opn env s) | Led_close \<Rightarrow> (None, cls env s)
    | Led_ctrl w st \<Rightarrow> apfst Some (ctl env w st s)"
  obtain r1 s1 where one: "?one = (r1, s1)" by fastforce
  obtain rs' where rest: "session opn cls ctl env cs s1 = (rs', s')" and rs: "rs = r1 # rs'"
    using Cons.prems one by (auto simp: split: prod.splits)
  have "\<exists>r. ktrace s1 = ktrace s @ [(request (hal_fd s) c, r)] \<and> r1 = reported c r \<and>
      hal_fd s1 = (if c = Led_open then r else hal_fd s)"
    using one opn [of env s] cls [of env s] ctl [of env _ _ s]
    by (cases c) (auto simp: apfst_def map_prod_def split: prod.splits)
  then obtain r where "ktrace s1 = ktrace s @ [(request (hal_fd s) c, r)]" "r1 = reported c r"
    "hal_fd s1 = (if c = Led_open then r else hal_fd s)" by blast
  moreover from Cons.IH [OF rest] obtain t where "ktrace s' = ktrace s1 @ t" "follows (hal_fd s1) cs t"
    "rs' = map2 reported cs (map snd t)" by blast
  ultimately show ?case by (intro exI [of _ "(request (hal_fd s) c, r) # t"]) (simp add: rs)
qed simp

end

lemmas led_function_defs = ledopen_def ledclose_def ledctrl_def
  android_ledopen_def android_ledclose_def android_ledctrl_def kcall_def kdo_def Let_def

interpretation hal_001: led_library ledopen ledclose ledctrl
  by unfold_locales (auto simp: led_function_defs)

interpretation service: led_library android_ledopen android_ledclose android_ledctrl
  by unfold_locales (auto simp: led_function_defs)

lemma service_is_hal: "android_ledopen = ledopen" "android_ledclose = ledclose" "android_ledctrl = ledctrl"
  by (intro ext, simp add: led_function_defs)+

text \<open>C36: whatever a Java program calls, through either library: every call makes one request of
  the device, with the descriptor that the last \<open>open\<close> answered, be it an error or already
  closed, and with the static variable's value before the first; \<open>ledOpen\<close> reports whether it
  failed, but \<open>ledCtrl\<close> reports 0 whatever the device answers. The two libraries give the same
  results and the same requests.\<close>
theorem led_sessions:
  assumes "session ledopen ledclose ledctrl env calls s = (results, s')"
  shows "(\<exists>t. ktrace s' = ktrace s @ t \<and> follows (hal_fd s) calls t \<and>
      results = map2 reported calls (map snd t)) \<and>
    session android_ledopen android_ledclose android_ledctrl env calls s = (results, s')"
  using hal_001.session_follows [OF assms] assms by (simp add: service_is_hal)

theorem led_sessions_witness:
  "session ledopen ledclose ledctrl (\<lambda>h c. if c = Dev_open then 5 else -1)
     [Led_open, Led_close, Led_ctrl 2 1] \<lparr>ktrace = [], led_devs = None, hal_fd = 0\<rparr> =
     ([Some 0, None, Some 0],
      \<lparr>ktrace = [(Dev_open, 5), (Dev_close 5, -1), (Dev_ioctl 5 1 2, -1)], led_devs = None, hal_fd = 5\<rparr>) \<and>
   follows 0 [Led_open, Led_close, Led_ctrl 2 1] [(Dev_open, 5), (Dev_close 5, -1), (Dev_ioctl 5 1 2, -1)]"
proof -
  have run: "session ledopen ledclose ledctrl (\<lambda>h c. if c = Dev_open then 5 else -1)
     [Led_open, Led_close, Led_ctrl 2 1] \<lparr>ktrace = [], led_devs = None, hal_fd = 0\<rparr> =
     ([Some 0, None, Some 0],
      \<lparr>ktrace = [(Dev_open, 5), (Dev_close 5, -1), (Dev_ioctl 5 1 2, -1)], led_devs = None, hal_fd = 5\<rparr>)"
    by (simp add: led_function_defs)
  from led_sessions [OF this] run show ?thesis by auto
qed

end
