(* ===== verification/Led_Stack.thy ===== *)
theory Led_Stack
  imports Led_Service Leds_Spec
begin

text \<open>
  The leds from Java down to the pins: the JNI libraries call the device \<open>/dev/leds\<close>, whose operations
  are the table \<open>leds_ops\<close> of \<open>leds_tiny4412.c\<close>. The kernel between the two is not part of the
  repository: any kernel is covered that enters the driver only through its table, as \<open>dispatch\<close> says.
\<close>

subsection \<open>The table of operations\<close>

text \<open>\<open>struct file_operations\<close>, with the entries this driver could use; a missing entry is NULL.\<close>

record file_operations =
  fop_open :: "(board \<Rightarrow> kenv \<Rightarrow> tiny_driver \<Rightarrow> int \<times> tiny_driver) option"
  fop_ioctl :: "(board \<Rightarrow> kenv \<Rightarrow> u32 \<Rightarrow> u32 \<Rightarrow> tiny_driver \<Rightarrow> (int \<times> tiny_driver) option) option"

definition leds_ops :: file_operations where
  "leds_ops = \<lparr>fop_open = Some leds_open, fop_ioctl = None\<rparr>"

subsection \<open>What the kernel may do\<close>

text \<open>
  A request of the library that the kernel answers with \<open>r\<close>, and what becomes of the driver, as Linux
  documents it: a call may fail before it reaches the driver; \<open>open\<close> runs the entry, if there is one,
  and fails if that fails; \<open>ioctl\<close> runs the entry, and fails (\<open>ENOTTY\<close>) if there is none; \<open>close\<close> runs
  nothing, as there is no \<open>release\<close> entry.
\<close>

fun dispatch :: "file_operations \<Rightarrow> board \<Rightarrow> kenv \<Rightarrow> kcall \<times> int \<Rightarrow> tiny_driver \<Rightarrow> tiny_driver \<Rightarrow> bool" where
  "dispatch ops b env (Dev_open, r) d d' \<longleftrightarrow> r < 0 \<and> d' = d \<or>
     (case fop_open ops of
        None \<Rightarrow> d' = d
      | Some f \<Rightarrow> d' = snd (f b env d) \<and> (fst (f b env d) < 0 \<longrightarrow> r < 0))"
| "dispatch ops b env (Dev_ioctl fd cmd arg, r) d d' \<longleftrightarrow> r < 0 \<and> d' = d \<or>
     (case fop_ioctl ops of
        None \<Rightarrow> False
      | Some f \<Rightarrow> (case f b env cmd arg d of None \<Rightarrow> False | Some (x, d1) \<Rightarrow> d' = d1 \<and> (x < 0 \<longleftrightarrow> r < 0)))"
| "dispatch ops b env c d d' \<longleftrightarrow> d' = d"

text \<open>The same for a log of requests and answers.\<close>

primrec dispatched ::
  "file_operations \<Rightarrow> board \<Rightarrow> kenv \<Rightarrow> (kcall \<times> int) list \<Rightarrow> tiny_driver \<Rightarrow> tiny_driver \<Rightarrow> bool" where
  "dispatched ops b env [] d d' \<longleftrightarrow> d' = d"
| "dispatched ops b env (c # t) d d' \<longleftrightarrow> (\<exists>d1. dispatch ops b env c d d1 \<and> dispatched ops b env t d1 d')"

subsection \<open>The pins\<close>

text \<open>The pins that requests of the driver set.\<close>

definition pin_writes :: "(kcall \<times> int) list \<Rightarrow> (int \<times> u32) list" where
  "pin_writes t = concat (map (\<lambda>(c, r). case c of Gpio_set p v \<Rightarrow> [(p, v)] | _ \<Rightarrow> []) t)"

lemma pin_writes_simps [simp]:
  "pin_writes [] = []" "pin_writes (t @ t') = pin_writes t @ pin_writes t'"
  "pin_writes ((c, r) # t) = (case c of Gpio_set p v \<Rightarrow> [(p, v)] | _ \<Rightarrow> []) @ pin_writes t"
  by (simp_all add: pin_writes_def)

lemma cfgpin_writes: "pin_writes (ktrace (kdo env (Cfgpin p) s)) = pin_writes (ktrace s)"
  by (simp add: kdo_def kcall_def Let_def)

lemma leds_open_writes: "pin_writes (ktrace (snd (leds_open b env s))) = pin_writes (ktrace s)"
proof -
  have "pin_writes (ktrace (fold (\<lambda>i. kdo env (Cfgpin (EXYNOS4212_GPM4 b i))) is s)) = pin_writes (ktrace s)" for "is"
    by (induction "is" arbitrary: s) (simp_all add: cfgpin_writes)
  then show ?thesis by (simp add: leds_open_def)
qed



subsection \<open>Properties\<close>



text \<open>Nothing else is in the way: with the entry in the table, a \<open>ledCtrl\<close> for one of the four leds that
  the kernel does not refuse writes exactly its pin.\<close>
theorem java_leds_with_ioctl:
  assumes "w < 4" and "st < 2"
    and "follows fd [Led_open, Led_ctrl w st] [(Dev_open, r0), (k, r1)]" and "0 \<le> r1"
    and "dispatched (leds_ops\<lparr>fop_ioctl := Some leds_ioctl\<rparr>) b driver_env [(Dev_open, r0), (k, r1)] d d'"
  shows "pin_writes (ktrace d') = pin_writes (ktrace d) @ [(EXYNOS4212_GPM4 b (unat w), st)]"
proof -
  have "unat w mod 16 = unat w" "unat w < 4" using assms(1) by (simp_all add: word_less_nat_alt)
  moreover have "st = 0 \<or> st = 1" using assms(2) by (auto simp: word_less_nat_alt less_2_cases_iff word_unat_eq_iff)
  ultimately show ?thesis
    using assms(3-5) leds_open_writes [of b driver_env d]
    by (auto simp: leds_ops_def leds_ioctl_range split: option.splits prod.splits)
qed

end
