(* ===== verification/Binder_Trace.thy ===== *)
theory Binder_Trace
  imports Binder_Proto Stdio
begin

text \<open>
  The tracing functions of \<open>binder.c\<close>, compiled when \<open>TRACE\<close> is 1: what \<open>hexdump\<close> and
  \<open>binder_dump_txn\<close> print, as a string, and \<open>cmd_name\<close>.
\<close>

subsection \<open>Conversions\<close>

text \<open>\<open>%x\<close>, and padding on the left: with zeros for \<open>%04zu\<close> and \<open>%08x\<close>, with spaces for \<open>%8d\<close>.\<close>

definition hex_digit :: "nat \<Rightarrow> char" where
  "hex_digit d = (if d < 10 then char_of (48 + d) else char_of (87 + d))"

fun hex_nat :: "nat \<Rightarrow> string" where
  "hex_nat n = (if n < 16 then [hex_digit n] else hex_nat (n div 16) @ [hex_digit (n mod 16)])"

declare hex_nat.simps [simp del]

definition padded :: "char \<Rightarrow> nat \<Rightarrow> string \<Rightarrow> string" where
  "padded c width text = replicate (width - length text) c @ text"

definition newline :: string where
  "newline = [CHR 0x0A]"

subsection \<open>Bytes\<close>

text \<open>One byte: its value, and the character if it can be printed.\<close>

definition dump_byte :: "byte \<Rightarrow> string" where
  "dump_byte b = '' '' @ padded CHR ''0'' 2 (hex_nat (unat b)) @ '' '' @
     [if unat b < 32 \<or> unat b > 126 then CHR ''.'' else char_of (unat b)]"

text \<open>The loop, \<open>n\<close> bytes before its end.\<close>

primrec hexdump_loop :: "mem \<Rightarrow> addr \<Rightarrow> nat \<Rightarrow> nat \<Rightarrow> string" where
  "hexdump_loop m data 0 count = []"
| "hexdump_loop m data (Suc n) count =
     (if count mod 16 = 0 then padded CHR ''0'' 4 (dec_nat count) @ '':'' else []) @
     dump_byte (m data) @
     (if count mod 16 = 15 then newline else []) @
     hexdump_loop m (data + 1) n (count + 1)"

definition hexdump :: "mem \<Rightarrow> addr \<Rightarrow> nat \<Rightarrow> string" where
  "hexdump m data len = hexdump_loop m data len 0 @ (if len mod 16 \<noteq> 0 then newline else [])"

subsection \<open>Transactions\<close>

definition hex32 :: "nat \<Rightarrow> u32 \<Rightarrow> string" where
  "hex32 width w = padded CHR ''0'' width (hex_nat (unat w))"

definition dump_obj :: "flat_binder_object \<Rightarrow> string" where
  "dump_obj obj = ''  - type '' @ hex32 8 (fbo_type obj) @ ''  flags '' @ hex32 8 (fbo_flags obj) @
     ''  ptr '' @ hex32 16 (fbo_handle obj) @ ''  cookie '' @ hex32 16 (fbo_cookie obj) @ newline"

primrec dump_objs :: "mem \<Rightarrow> addr \<Rightarrow> addr \<Rightarrow> nat \<Rightarrow> string" where
  "dump_objs m buffer offs 0 = []"
| "dump_objs m buffer offs (Suc count) =
     dump_obj (load_obj m (buffer + load32 m offs)) @ dump_objs m buffer (offs + 4) count"

definition binder_dump_txn :: "mem \<Rightarrow> addr \<Rightarrow> string" where
  "binder_dump_txn m txn =
     (let t = load_txn m txn in
      ''  target '' @ hex32 16 (txn_target t) @ ''  cookie '' @ hex32 16 (txn_cookie t) @
      ''  code '' @ hex32 8 (txn_code t) @ ''  flags '' @ hex32 8 (txn_flags t) @ newline @
      ''  pid '' @ padded CHR '' '' 8 (dec_int (sint (txn_sender_pid t))) @
      ''  uid '' @ padded CHR '' '' 8 (dec_int (sint (txn_sender_euid t))) @
      ''  data '' @ dec_nat (unat (txn_data_size t)) @ ''  offs '' @ dec_nat (unat (txn_offsets_size t)) @ newline @
      hexdump m (txn_buffer t) (unat (txn_data_size t)) @
      dump_objs m (txn_buffer t) (txn_offsets t) (unat (txn_offsets_size t) div 4))"

subsection \<open>Command names\<close>

definition cmd_name :: "u32 \<Rightarrow> string" where
  "cmd_name cmd =
     (if cmd = BR_NOOP then ''BR_NOOP''
      else if cmd = BR_TRANSACTION_COMPLETE then ''BR_TRANSACTION_COMPLETE''
      else if cmd = BR_INCREFS then ''BR_INCREFS''
      else if cmd = BR_ACQUIRE then ''BR_ACQUIRE''
      else if cmd = BR_RELEASE then ''BR_RELEASE''
      else if cmd = BR_DECREFS then ''BR_DECREFS''
      else if cmd = BR_TRANSACTION then ''BR_TRANSACTION''
      else if cmd = BR_REPLY then ''BR_REPLY''
      else if cmd = BR_FAILED_REPLY then ''BR_FAILED_REPLY''
      else if cmd = BR_DEAD_REPLY then ''BR_DEAD_REPLY''
      else if cmd = BR_DEAD_BINDER then ''BR_DEAD_BINDER''
      else ''???'')"

subsection \<open>What is printed\<close>

lemma cmd_name_unknown:
  "cmd_name cmd = ''???'' \<longleftrightarrow> cmd \<notin> {BR_NOOP, BR_TRANSACTION_COMPLETE, BR_INCREFS, BR_ACQUIRE, BR_RELEASE,
     BR_DECREFS, BR_TRANSACTION, BR_REPLY, BR_FAILED_REPLY, BR_DEAD_REPLY, BR_DEAD_BINDER}"
  by (simp add: cmd_name_def)

text \<open>Up to 16 bytes in a line.\<close>

definition dump_bytes :: "mem \<Rightarrow> addr \<Rightarrow> nat \<Rightarrow> string" where
  "dump_bytes m data n = concat (map (\<lambda>i. dump_byte (m (data + of_nat i))) [0..<n])"

definition dump_line :: "mem \<Rightarrow> addr \<Rightarrow> nat \<Rightarrow> nat \<Rightarrow> string" where
  "dump_line m data k n = padded CHR ''0'' 4 (dec_nat (16 * k)) @ '':'' @
     dump_bytes m (data + of_nat (16 * k)) n @ newline"

lemma hexdump_loop_add:
  "hexdump_loop m data (n + r) c = hexdump_loop m data n c @ hexdump_loop m (data + of_nat n) r (c + n)"
  by (induction n arbitrary: data c) (simp_all add: add.assoc)

lemma dump_bytes_simps:
  "dump_bytes m data 0 = []"
  "dump_bytes m data (Suc n) = dump_byte (m data) @ dump_bytes m (data + 1) n"
  by (simp_all add: dump_bytes_def map_upt_Suc add.assoc del: upt_Suc)

lemma hexdump_loop_rest:
  "0 < i \<Longrightarrow> i + n \<le> 16 \<Longrightarrow> hexdump_loop m data n (16 * k + i) =
     dump_bytes m data n @ (if 0 < n \<and> i + n = 16 then newline else [])"
proof (induction n arbitrary: data i)
  case (Suc n)
  have i: "(16 * k + i) mod 16 = i" using Suc.prems by simp
  show ?case
  proof (cases "n = 0")
    case True
    with i Suc.prems show ?thesis by (simp add: dump_bytes_simps)
  next
    case False
    with Suc.IH [of "Suc i" "data + 1"] i Suc.prems show ?thesis by (simp add: dump_bytes_simps)
  qed
qed (simp add: dump_bytes_simps)

lemma hexdump_loop_line:
  assumes "0 < n" and "n \<le> 16"
  shows "hexdump_loop m data n (16 * k) = padded CHR ''0'' 4 (dec_nat (16 * k)) @ '':'' @
    dump_bytes m data n @ (if n = 16 then newline else [])"
proof -
  obtain n' where n: "n = Suc n'" using assms(1) by (cases n) auto
  show ?thesis
    using hexdump_loop_rest [of 1 n' m "data + 1" k] assms by (auto simp: n dump_bytes_simps)
qed

lemma hexdump_loop_lines:
  "hexdump_loop m data (16 * q) 0 = concat (map (\<lambda>k. dump_line m data k 16) [0..<q])"
proof (induction q)
  case (Suc q)
  have "hexdump_loop m data (16 * Suc q) 0 =
      hexdump_loop m data (16 * q) 0 @ hexdump_loop m (data + of_nat (16 * q)) 16 (16 * q)"
    using hexdump_loop_add [of m data "16 * q" 16 0] by (simp add: add.commute)
  with Suc.IH show ?case by (simp add: hexdump_loop_line dump_line_def)
qed simp

text \<open>\<open>hexdump\<close> prints its bytes in lines of 16, the last one perhaps shorter, and ends every line.\<close>

theorem hexdump_lines:
  assumes "r < 16"
  shows "hexdump m data (16 * q + r) = concat (map (\<lambda>k. dump_line m data k 16) [0..<q]) @
    (if r = 0 then [] else dump_line m data q r)"
proof -
  have "(16 * q + r) mod 16 = r" using assms by simp
  with assms show ?thesis
    using hexdump_loop_line [of r m "data + of_nat (16 * q)" q]
    by (simp add: hexdump_def hexdump_loop_add hexdump_loop_lines dump_line_def)
qed

end
